(* ===== verification/Prelude.thy ===== *)
theory Prelude
  imports Main "HOL-Library.Char_ord" "HOL-Library.List_Lexorder" "HOL-Library.Sublist"
    "HOL-Library.Multiset"
begin

text \<open>
  Prelude of the development: the collections of rewrite and introduction rules the component
  theories fill, and the generic facts on lists, options and sums they share.  Nothing here is
  about a particular service.
\<close>

named_theorems frame_simps \<open>what an operation leaves unchanged\<close>
named_theorems inv_intros \<open>preservation of an invariant by an operation\<close>
named_theorems go_simps \<open>evaluation of the Go library functions\<close>

subsection \<open>Results\<close>

text \<open>A Go function returning \<open>(T, error)\<close> gives \<open>Inl\<close> of the error or \<open>Inr\<close> of the value.\<close>

fun is_ok :: "'e + 'a \<Rightarrow> bool" where
  "is_ok (Inl _) = False"
| "is_ok (Inr _) = True"

fun map_err :: "('e \<Rightarrow> 'f) \<Rightarrow> 'e + 'a \<Rightarrow> 'f + 'a" where
  "map_err f (Inl e) = Inl (f e)"
| "map_err f (Inr x) = Inr x"

lemma is_ok_map_err [simp]: "is_ok (map_err f r) = is_ok r"
  by (cases r) auto

lemma map_err_Inr_iff [simp]: "map_err f r = Inr x \<longleftrightarrow> r = Inr x"
  by (cases r) auto

lemma map_err_Inl_iff: "map_err f r = Inl e \<longleftrightarrow> (\<exists>e'. r = Inl e' \<and> e = f e')"
  by (cases r) auto

lemma is_ok_iff: "is_ok r \<longleftrightarrow> (\<exists>x. r = Inr x)"
  by (cases r) auto

subsection \<open>Lists as tables\<close>

text \<open>The first row that satisfies a predicate, if any, and the rows after an update in place.\<close>

definition upd_where :: "('a \<Rightarrow> bool) \<Rightarrow> ('a \<Rightarrow> 'a) \<Rightarrow> 'a list \<Rightarrow> 'a list" where
  "upd_where P f xs = map (\<lambda>x. if P x then f x else x) xs"

lemma upd_where_Nil [simp]: "upd_where P f [] = []"
  by (simp add: upd_where_def)

lemma upd_where_Cons [simp]:
  "upd_where P f (x # xs) = (if P x then f x else x) # upd_where P f xs"
  by (simp add: upd_where_def)

lemma upd_where_append [simp]: "upd_where P f (xs @ ys) = upd_where P f xs @ upd_where P f ys"
  by (simp add: upd_where_def)

lemma length_upd_where [simp]: "length (upd_where P f xs) = length xs"
  by (simp add: upd_where_def)

lemma set_upd_where: "set (upd_where P f xs) = (\<lambda>x. if P x then f x else x) ` set xs"
  by (simp add: upd_where_def)

lemma map_upd_where_key:
  assumes "\<And>x. x \<in> set xs \<Longrightarrow> P x \<Longrightarrow> k (f x) = k x"
  shows "map k (upd_where P f xs) = map k xs"
  using assms by (induction xs) auto

lemma map_upd_where_key' [simp]: "(\<And>x. k (f x) = k x) \<Longrightarrow> map k (upd_where P f xs) = map k xs"
  by (rule map_upd_where_key)

lemma in_upd_whereE:
  assumes "y \<in> set (upd_where P f xs)"
  obtains x where "x \<in> set xs" "P x" "y = f x" | "y \<in> set xs" "\<not> P y"
  using assms by (auto simp: set_upd_where split: if_splits)

lemma find_key_unique:
  assumes "distinct (map k xs)" and "x \<in> set xs"
  shows "find (\<lambda>y. k y = k x) xs = Some x"
  using assms by (induction xs) (auto simp: rev_image_eqI)

lemma find_SomeD: "find P xs = Some x \<Longrightarrow> x \<in> set xs \<and> P x"
  by (auto simp: find_Some_iff)

lemma find_NoneD: "find P xs = None \<Longrightarrow> x \<in> set xs \<Longrightarrow> \<not> P x"
  by (auto simp: find_None_iff)

lemma filter_key_unique:
  assumes "distinct (map k xs)" and "x \<in> set xs"
  shows "filter (\<lambda>y. k y = k x) xs = [x]"
  using assms
proof (induction xs)
  case Nil
  then show ?case by simp
next
  case (Cons y ys)
  show ?case
  proof (cases "y = x")
    case True
    with Cons.prems have "k x \<notin> k ` set ys" by simp
    then have "\<And>z. z \<in> set ys \<Longrightarrow> k z \<noteq> k x" by (metis image_eqI)
    with True show ?thesis by (simp add: filter_empty_conv)
  next
    case False
    with Cons.prems have "k y \<noteq> k x" by force
    with False Cons show ?thesis by simp
  qed
qed

lemma distinct_map_filterI: "distinct (map k xs) \<Longrightarrow> distinct (map k (filter P xs))"
  by (induction xs) auto

lemma distinct_map_inj_onD:
  "distinct (map k xs) \<Longrightarrow> x \<in> set xs \<Longrightarrow> y \<in> set xs \<Longrightarrow> k x = k y \<Longrightarrow> x = y"
  by (simp add: distinct_map inj_on_def)

subsection \<open>Taking the last elements\<close>

definition last_n :: "nat \<Rightarrow> 'a list \<Rightarrow> 'a list" where
  "last_n n xs = drop (length xs - n) xs"

lemma rev_take_rev: "rev (take n (rev xs)) = last_n n xs"
  by (simp add: last_n_def take_rev)

lemma set_last_n: "set (last_n n xs) \<subseteq> set xs"
  by (simp add: last_n_def set_drop_subset)

subsection \<open>Sorting lists that are in order already\<close>

lemma sort_key_sorted: "sorted (map k xs) \<Longrightarrow> sort_key k xs = xs"
proof (induction xs)
  case (Cons x xs)
  then have "\<forall>y \<in> set xs. k x \<le> k y" and "sort_key k xs = xs" by auto
  then show ?case by (simp add: insort_is_Cons)
qed simp

lemma insort_key_bot: "\<forall>y \<in> set ys. k x > k y \<Longrightarrow> insort_key k x ys = ys @ [x]"
  by (induction ys) auto

lemma sort_key_desc:
  assumes "sorted_wrt (<) (map (k :: 'a \<Rightarrow> int) xs)"
  shows "sort_key (\<lambda>x. - k x) xs = rev xs"
  using assms
proof (induction xs)
  case (Cons x xs)
  then have "\<forall>y \<in> set (rev xs). - k x > - k y" by auto
  with Cons show ?case by (simp add: insort_key_bot)
qed simp

lemma sorted_wrt_map_filter: "sorted_wrt R (map k xs) \<Longrightarrow> sorted_wrt R (map k (filter P xs))"
  by (induction xs) auto

lemma sorted_wrt_map_drop: "sorted_wrt R (map k xs) \<Longrightarrow> sorted_wrt R (map k (drop n xs))"
  by (metis drop_map sorted_wrt_drop)

lemma strict_sorted_sort_key:
  "sorted_wrt (<) (map (k :: 'a \<Rightarrow> int) xs) \<Longrightarrow> sort_key k xs = xs"
  by (rule sort_key_sorted) (auto intro: sorted_wrt_mono_rel [of _ "(<)"])

lemma sort_key_rev_strict:
  assumes "sorted_wrt (<) (map (k :: 'a \<Rightarrow> int) xs)"
  shows "sort_key k (rev xs) = xs"
proof (rule properties_for_sort_key)
  from assms have dist: "distinct (map k xs)" by (simp add: strict_sorted_iff)
  then have drev: "distinct (map k (rev xs))" by (simp add: rev_map [symmetric])
  show "filter (\<lambda>x. k y = k x) xs = filter (\<lambda>x. k y = k x) (rev xs)" if "y \<in> set xs" for y
    using filter_key_unique [OF dist that] filter_key_unique [OF drev, of y] that
    by (simp add: eq_commute)
  from assms show "sorted (map k xs)" by (simp add: strict_sorted_iff)
qed simp

end
