(* ===== verification/GoLib.thy ===== *)
theory GoLib
  imports Prelude
begin

text \<open>
  The part of the Go language and its standard library that the services use: byte strings
  (\<open>strings.TrimSpace\<close>, \<open>Split\<close>, \<open>SplitN\<close>, \<open>Join\<close>, \<open>HasPrefix\<close>, \<open>HasSuffix\<close>, \<open>Contains\<close>,
  \<open>ToLower\<close>), errors (\<open>errors.New\<close>, \<open>fmt.Errorf\<close> with \<open>%w\<close>, \<open>errors.Is\<close>), \<open>fmt.Sprintf\<close>, the
  two regular expressions of the repository and 64-bit integers.

  A Go string is a sequence of bytes, so it is a \<open>string\<close> (a list of 8-bit characters) and
  \<open>len\<close> is \<open>length\<close>.  Characters beyond ASCII stand for their UTF-8 bytes.
\<close>

subsection \<open>64-bit integers\<close>

text \<open>Go's \<open>int\<close> and \<open>int64\<close> wrap around; \<open>wrap64\<close> is applied where a result can leave the range.\<close>

definition wrap64 :: "int \<Rightarrow> int" where
  "wrap64 i = (i + 2 ^ 63) mod 2 ^ 64 - 2 ^ 63"

definition int64 :: "int \<Rightarrow> bool" where
  "int64 i \<longleftrightarrow> - (2 ^ 63) \<le> i \<and> i < 2 ^ 63"

lemma wrap64_id [simp]: "int64 i \<Longrightarrow> wrap64 i = i"
  by (simp add: wrap64_def int64_def)

lemma int64_wrap64: "int64 (wrap64 i)"
  using pos_mod_bound [of "2 ^ 64" "i + 2 ^ 63"] pos_mod_sign [of "2 ^ 64" "i + 2 ^ 63"]
  by (simp add: wrap64_def int64_def)

text \<open>Go's integer division truncates towards zero.\<close>

definition go_div :: "int \<Rightarrow> int \<Rightarrow> int" where
  "go_div a b = sgn a * sgn b * (\<bar>a\<bar> div \<bar>b\<bar>)"

lemma go_div_nonneg: "0 \<le> a \<Longrightarrow> 0 < b \<Longrightarrow> go_div a b = a div b"
  by (cases "a = 0") (auto simp: go_div_def)

subsection \<open>Strings\<close>

text \<open>
  The white space of \<open>unicode.IsSpace\<close>, each rune as its UTF-8 bytes.  An invalid byte decodes to
  U+FFFD, which is no space, so matching these byte sequences at either end is what
  \<open>strings.TrimSpace\<close> does.
\<close>

definition space_runes :: "string list" where
  "space_runes =
    [[CHR 0x09], [CHR 0x0A], [CHR 0x0B], [CHR 0x0C], [CHR 0x0D], [CHR 0x20],
     [CHR 0xC2, CHR 0x85], [CHR 0xC2, CHR 0xA0], [CHR 0xE1, CHR 0x9A, CHR 0x80],
     [CHR 0xE2, CHR 0x80, CHR 0x80], [CHR 0xE2, CHR 0x80, CHR 0x81],
     [CHR 0xE2, CHR 0x80, CHR 0x82], [CHR 0xE2, CHR 0x80, CHR 0x83],
     [CHR 0xE2, CHR 0x80, CHR 0x84], [CHR 0xE2, CHR 0x80, CHR 0x85],
     [CHR 0xE2, CHR 0x80, CHR 0x86], [CHR 0xE2, CHR 0x80, CHR 0x87],
     [CHR 0xE2, CHR 0x80, CHR 0x88], [CHR 0xE2, CHR 0x80, CHR 0x89],
     [CHR 0xE2, CHR 0x80, CHR 0x8A], [CHR 0xE2, CHR 0x80, CHR 0xA8],
     [CHR 0xE2, CHR 0x80, CHR 0xA9], [CHR 0xE2, CHR 0x80, CHR 0xAF],
     [CHR 0xE2, CHR 0x81, CHR 0x9F], [CHR 0xE3, CHR 0x80, CHR 0x80]]"

function trim_runes :: "string list \<Rightarrow> string \<Rightarrow> string" where
  "trim_runes ps s =
     (case find (\<lambda>p. p \<noteq> [] \<and> prefix p s) ps of
        None \<Rightarrow> s
      | Some p \<Rightarrow> trim_runes ps (drop (length p) s))"
  by pat_completeness auto
termination
proof (relation "measure (\<lambda>(ps, s). length s)")
  fix ps and s p :: string
  assume "find (\<lambda>p. p \<noteq> [] \<and> prefix p s) ps = Some p"
  then have "p \<noteq> []" and "prefix p s" by (auto dest: find_SomeD)
  then have "0 < length p" and "length p \<le> length s" by (auto dest: prefix_length_le)
  then show "((ps, drop (length p) s), ps, s) \<in> measure (\<lambda>(ps, s). length s)"
    by (cases p) auto
qed simp

declare trim_runes.simps [simp del]

definition TrimSpace :: "string \<Rightarrow> string" where
  "TrimSpace s = rev (trim_runes (map rev space_runes) (rev (trim_runes space_runes s)))"

definition blank_str :: "string \<Rightarrow> bool" where
  "blank_str s \<longleftrightarrow> TrimSpace s = []"

fun split_on :: "char \<Rightarrow> string \<Rightarrow> string list" where
  "split_on c [] = [[]]"
| "split_on c (x # xs) =
     (if x = c then [] # split_on c xs
      else (case split_on c xs of [] \<Rightarrow> [[x]] | y # ys \<Rightarrow> (x # y) # ys))"

text \<open>\<open>strings.SplitN(s, sep, 2)\<close>: the text before and after the first separator.\<close>

fun cut_at :: "string \<Rightarrow> string \<Rightarrow> (string \<times> string) option" where
  "cut_at sep [] = (if sep = [] then Some ([], []) else None)"
| "cut_at sep (c # cs) =
     (if prefix sep (c # cs) then Some ([], drop (length sep) (c # cs))
      else (case cut_at sep cs of None \<Rightarrow> None | Some (a, b) \<Rightarrow> Some (c # a, b)))"

fun Join :: "string list \<Rightarrow> string \<Rightarrow> string" where
  "Join [] sep = []"
| "Join [x] sep = x"
| "Join (x # y # ys) sep = x @ sep @ Join (y # ys) sep"

definition HasPrefix :: "string \<Rightarrow> string \<Rightarrow> bool" where
  "HasPrefix s p \<longleftrightarrow> prefix p s"

definition HasSuffix :: "string \<Rightarrow> string \<Rightarrow> bool" where
  "HasSuffix s p \<longleftrightarrow> suffix p s"

fun Contains :: "string \<Rightarrow> string \<Rightarrow> bool" where
  "Contains [] p \<longleftrightarrow> p = []"
| "Contains (c # cs) p \<longleftrightarrow> prefix p (c # cs) \<or> Contains cs p"

text \<open>
  \<open>strings.ToLower\<close>: ASCII letters by offset; a string with a byte of 0x80 or more goes through
  the Unicode case tables, which are the parameter \<open>uni\<close>.
\<close>

definition ascii_lower :: "char \<Rightarrow> char" where
  "ascii_lower c = (if CHR ''A'' \<le> c \<and> c \<le> CHR ''Z'' then char_of (of_char c + (32::nat)) else c)"

definition is_ascii :: "string \<Rightarrow> bool" where
  "is_ascii s \<longleftrightarrow> list_all (\<lambda>c. of_char c < (128::nat)) s"

definition ToLower :: "(string \<Rightarrow> string) \<Rightarrow> string \<Rightarrow> string" where
  "ToLower uni s = (if is_ascii s then map ascii_lower s else uni s)"

text \<open>A line feed, the ellipsis character, and text cut to a number of bytes.\<close>

definition newline :: string where "newline = [CHR 0x0A]"
definition ellipsis :: string where "ellipsis = [CHR 0xE2, CHR 0x80, CHR 0xA6]"

definition truncate_text :: "string \<Rightarrow> nat \<Rightarrow> string" where
  "truncate_text s n = (if length s \<le> n then s else take n s @ ellipsis)"

fun firstNonEmpty :: "string list \<Rightarrow> string" where
  "firstNonEmpty [] = []"
| "firstNonEmpty (v # vs) = (if v \<noteq> [] then v else firstNonEmpty vs)"

subsection \<open>Numbers in text\<close>

fun nat_digits :: "nat \<Rightarrow> string" where
  "nat_digits n =
     (if n < 10 then [char_of (48 + n)] else nat_digits (n div 10) @ [char_of (48 + n mod 10)])"

declare nat_digits.simps [simp del]

definition Itoa :: "int \<Rightarrow> string" where
  "Itoa i = (if i < 0 then CHR ''-'' # nat_digits (nat (- i)) else nat_digits (nat i))"

text \<open>\<open>strconv.Atoi\<close>: an optional sign and decimal digits, in the range of a 64-bit integer.\<close>

definition is_digit :: "char \<Rightarrow> bool" where
  "is_digit c \<longleftrightarrow> CHR ''0'' \<le> c \<and> c \<le> CHR ''9''"

definition digits_val :: "string \<Rightarrow> int" where
  "digits_val s = foldl (\<lambda>a c. 10 * a + int (of_char c - 48)) 0 s"

definition Atoi :: "string \<Rightarrow> int option" where
  "Atoi s =
     (let neg = (s \<noteq> [] \<and> hd s = CHR ''-'');
          ds = (if s \<noteq> [] \<and> (hd s = CHR ''-'' \<or> hd s = CHR ''+'') then tl s else s);
          v = (if neg then - digits_val ds else digits_val ds)
      in if ds \<noteq> [] \<and> list_all is_digit ds \<and> int64 v then Some v else None)"

text \<open>An integer setting: the default when it is empty or no number.\<close>

definition envInt :: "(string \<Rightarrow> string) \<Rightarrow> string \<Rightarrow> int \<Rightarrow> int" where
  "envInt env key d =
     (let v = env key
      in if v \<noteq> [] then (case Atoi v of Some n \<Rightarrow> n | None \<Rightarrow> d) else d)"

subsection \<open>Errors\<close>

text \<open>
  An error value.  A \<open>Sentinel\<close> is a package-level \<open>errors.New\<close>, compared by identity (its text is
  unique in the repository); \<open>Errorf\<close> is a message made on the spot from a format and its
  arguments; \<open>Wrap\<close> is \<open>fmt.Errorf\<close> with a final \<open>%w\<close>, the text before it given with its
  arguments; \<open>External\<close> is an error that a library or a service returned, with its text.
\<close>

datatype goerr =
    Sentinel string
  | Errorf string "string list"
  | Wrap string "string list" goerr
  | External string
  | ApprovalRequiredError string string

text \<open>\<open>errors.Is\<close>: the error or one it wraps is the target.\<close>

fun errors_Is :: "goerr \<Rightarrow> goerr \<Rightarrow> bool" where
  "errors_Is (Wrap f as e) t \<longleftrightarrow> Wrap f as e = t \<or> errors_Is e t"
| "errors_Is e t \<longleftrightarrow> e = t"

text \<open>\<open>errors.As\<close> for the one error type of the repository.\<close>

fun as_approval_required :: "goerr \<Rightarrow> (string \<times> string) option" where
  "as_approval_required (ApprovalRequiredError i t) = Some (i, t)"
| "as_approval_required (Wrap f as e) = as_approval_required e"
| "as_approval_required _ = None"

text \<open>\<open>%q\<close> on printable text: quotes and backslashes are escaped.\<close>

definition Quote :: "string \<Rightarrow> string" where
  "Quote s = [CHR 0x22] @
     concat (map (\<lambda>c. if c = CHR 0x22 then [CHR 0x5C, CHR 0x22]
                      else if c = CHR 0x5C then [CHR 0x5C, CHR 0x5C]
                      else if c = CHR 0x0A then [CHR 0x5C, CHR ''n''] else [c]) s) @ [CHR 0x22]"

text \<open>\<open>fmt.Sprintf\<close> with the verbs \<open>%s\<close>, \<open>%d\<close>, \<open>%v\<close> and \<open>%q\<close>; numbers arrive as their text.\<close>

fun Sprintf :: "string \<Rightarrow> string list \<Rightarrow> string" where
  "Sprintf (c # v # cs) args =
     (if c = CHR ''%'' then
        (case args of
           [] \<Rightarrow> c # v # cs
         | a # as \<Rightarrow> (if v = CHR ''q'' then Quote a else a) @ Sprintf cs as)
      else c # Sprintf (v # cs) args)"
| "Sprintf cs args = cs"

fun Error :: "goerr \<Rightarrow> string" where
  "Error (Sentinel s) = s"
| "Error (Errorf f as) = Sprintf f as"
| "Error (Wrap f as e) = Sprintf f as @ Error e"
| "Error (External s) = s"
| "Error (ApprovalRequiredError i t) =
     Sprintf ''gateway: tool %q requires human approval (approval %s)'' [t, i]"

subsection \<open>Facts about strings\<close>

lemma trim_runes_no_rune: "find (\<lambda>p. p \<noteq> [] \<and> prefix p (trim_runes ps s)) ps = None"
proof (induction ps s rule: trim_runes.induct)
  case (1 ps s)
  show ?case
  proof (cases "find (\<lambda>p. p \<noteq> [] \<and> prefix p s) ps")
    case None
    then show ?thesis by (simp add: trim_runes.simps)
  next
    case (Some p)
    with 1 show ?thesis by (simp add: trim_runes.simps [of ps s])
  qed
qed

lemma trim_runes_fix: "find (\<lambda>p. p \<noteq> [] \<and> prefix p s) ps = None \<Longrightarrow> trim_runes ps s = s"
  by (simp add: trim_runes.simps)

lemma trim_runes_idem [simp]: "trim_runes ps (trim_runes ps s) = trim_runes ps s"
  by (rule trim_runes_fix) (rule trim_runes_no_rune)

lemma suffix_trim_runes: "suffix (trim_runes ps s) s"
proof (induction ps s rule: trim_runes.induct)
  case (1 ps s)
  show ?case
  proof (cases "find (\<lambda>p. p \<noteq> [] \<and> prefix p s) ps")
    case None
    then show ?thesis by (simp add: trim_runes.simps)
  next
    case (Some p)
    with 1 have "suffix (trim_runes ps (drop (length p) s)) (drop (length p) s)" by simp
    then have "suffix (trim_runes ps (drop (length p) s)) s"
      by (rule suffix_order.trans) (rule suffix_drop)
    with Some show ?thesis by (simp add: trim_runes.simps [of ps s])
  qed
qed

text \<open>Dropping the end of a string cannot make its start a white-space rune.\<close>

lemma no_rune_prefix_mono:
  assumes "find (\<lambda>p. p \<noteq> [] \<and> prefix p s) ps = None" and "prefix t s"
  shows "find (\<lambda>p. p \<noteq> [] \<and> prefix p t) ps = None"
  using assms by (auto simp: find_None_iff dest: prefix_order.trans)

theorem TrimSpace_idem [simp]: "TrimSpace (TrimSpace s) = TrimSpace s"
proof -
  let ?l = "trim_runes space_runes s"
  let ?r = "rev (trim_runes (map rev space_runes) (rev ?l))"
  have "prefix ?r ?l"
    using suffix_trim_runes [of "map rev space_runes" "rev ?l"] by (simp add: suffix_to_prefix)
  then have "trim_runes space_runes ?r = ?r"
    by (intro trim_runes_fix no_rune_prefix_mono [OF trim_runes_no_rune])
  then show ?thesis by (simp add: TrimSpace_def)
qed

lemma TrimSpace_Nil [simp]: "TrimSpace [] = []"
  by (simp add: TrimSpace_def trim_runes.simps space_runes_def)

lemma blank_str_Nil [simp]: "blank_str []"
  by (simp add: blank_str_def)

lemma length_TrimSpace: "length (TrimSpace s) \<le> length s"
proof -
  have "length (trim_runes (map rev space_runes) (rev (trim_runes space_runes s)))
    \<le> length (trim_runes space_runes s)"
    using suffix_length_le [OF suffix_trim_runes] by (metis length_rev)
  also have "\<dots> \<le> length s" by (rule suffix_length_le [OF suffix_trim_runes])
  finally show ?thesis by (simp add: TrimSpace_def)
qed

lemma split_on_nonempty [simp]: "split_on c s \<noteq> []"
  by (induction s) (auto split: list.splits)

lemma split_on_no_sep: "x \<in> set (split_on c s) \<Longrightarrow> c \<notin> set x"
proof (induction s arbitrary: x)
  case (Cons d s)
  then show ?case by (cases "split_on c s") (auto split: if_splits)
qed simp

text \<open>Splitting and joining with the same separator is the identity.\<close>

lemma set_Join: "set (Join xs sep) \<subseteq> (\<Union>x\<in>set xs. set x) \<union> set sep"
  by (induction xs rule: induct_list012) auto

lemma Join_split_on: "Join (split_on c s) [c] = s"
proof (induction s)
  case (Cons d s)
  obtain y ys where "split_on c s = y # ys" by (cases "split_on c s") auto
  with Cons show ?case by (cases ys) auto
qed simp

lemma cut_at_here: "prefix sep s \<Longrightarrow> cut_at sep s = Some ([], drop (length sep) s)"
  by (cases s) auto

lemma cut_at_Some: "cut_at sep s = Some (a, b) \<Longrightarrow> s = a @ sep @ b"
proof (induction s arbitrary: a b)
  case (Cons c s)
  show ?case
  proof (cases "prefix sep (c # s)")
    case True
    then obtain t where "c # s = sep @ t" by (auto simp: prefix_def)
    with True Cons.prems show ?thesis by (simp add: cut_at_here)
  next
    case False
    with Cons.prems obtain a' where "cut_at sep s = Some (a', b)" "a = c # a'"
      by (auto split: option.splits)
    with Cons.IH show ?thesis by simp
  qed
qed (auto split: if_splits)

lemma cut_at_append:
  assumes "\<not> Contains (a @ butlast sep) sep"
  shows "cut_at sep (a @ sep @ b) = Some (a, b)"
  using assms
proof (induction a)
  case Nil
  then show ?case by (simp add: cut_at_here)
next
  case (Cons c a)
  have "\<not> prefix sep (c # a @ sep @ b)"
  proof
    assume "prefix sep (c # a @ sep @ b)"
    then have "sep = take (length sep) (c # a @ sep @ b)" by (metis append_eq_conv_conj prefix_def)
    also have "\<dots> = take (length sep) (c # a @ butlast sep)"
      by (cases sep rule: rev_cases) (auto simp: take_Cons')
    finally have "prefix sep (c # a @ butlast sep)" by (metis take_is_prefix)
    with Cons.prems show False by simp
  qed
  with Cons show ?case by auto
qed

lemma firstNonEmpty_in: "firstNonEmpty vs = [] \<or> firstNonEmpty vs \<in> set vs"
  by (induction vs) auto

lemma firstNonEmpty_default [simp]: "d \<noteq> [] \<Longrightarrow> firstNonEmpty (vs @ [d]) \<noteq> []"
  by (induction vs) auto

subsection \<open>Facts about errors\<close>

lemma errors_Is_refl [simp]: "errors_Is e e"
  by (cases e) auto

lemma errors_Is_Sentinel [simp]:
  "errors_Is (Sentinel a) (Sentinel b) \<longleftrightarrow> a = b"
  "\<not> errors_Is (Errorf f as) (Sentinel b)"
  "\<not> errors_Is (External x) (Sentinel b)"
  "errors_Is (Wrap f as e) (Sentinel b) \<longleftrightarrow> errors_Is e (Sentinel b)"
  "\<not> errors_Is (ApprovalRequiredError i t) (Sentinel b)"
  by auto

end
