(* ===== verification/Float64.thy ===== *)
theory Float64
  imports GoLib Complex_Main
begin

text \<open>
  Go's \<open>float64\<close>, for the rate limiter, the finance rules and the dashboard: a finite double is
  the rational it denotes, and every operation is the exact operation followed by \<open>f64\<close>, which
  rounds to the nearest value with a 53-bit significand, ties to even.  Overflow and subnormal
  results are outside the range of the values these services handle and are not modelled.

  The components rely on two laws only, stated as the locale \<open>rounding\<close>: rounding is monotone and
  integers up to \<open>2 ^ 53\<close> are represented exactly.  The interpretation \<open>f64\<close> proves both for the
  binary64 rounding.
\<close>

subsection \<open>The interface\<close>

locale rounding =
  fixes rnd :: "rat \<Rightarrow> rat"
  assumes rnd_mono: "x \<le> y \<Longrightarrow> rnd x \<le> rnd y"
    and rnd_int: "\<bar>i\<bar> \<le> 2 ^ 53 \<Longrightarrow> rnd (of_int i) = of_int i"
begin

lemma rnd_0 [simp]: "rnd 0 = 0"
  using rnd_int [of 0] by simp

lemma rnd_1 [simp]: "rnd 1 = 1"
  using rnd_int [of 1] by simp

lemma rnd_nonneg: "0 \<le> x \<Longrightarrow> 0 \<le> rnd x"
  using rnd_mono [of 0 x] by simp

lemma rnd_le_int: "x \<le> of_int i \<Longrightarrow> \<bar>i\<bar> \<le> 2 ^ 53 \<Longrightarrow> rnd x \<le> of_int i"
  using rnd_mono [of x "of_int i"] by (simp add: rnd_int)

end

subsection \<open>Binary64 rounding\<close>

fun bit_len :: "nat \<Rightarrow> nat" where
  "bit_len n = (if n = 0 then 0 else Suc (bit_len (n div 2)))"

declare bit_len.simps [simp del]

text \<open>The exponent of a positive rational: \<open>2 powi expo2 x \<le> x < 2 powi (expo2 x + 1)\<close>.\<close>

definition expo2 :: "rat \<Rightarrow> int" where
  "expo2 x =
     (if 1 \<le> x then int (bit_len (nat \<lfloor>x\<rfloor>)) - 1 else - int (bit_len (nat (\<lceil>1 / x\<rceil> - 1))))"

definition round_even :: "rat \<Rightarrow> int" where
  "round_even x =
     (let f = \<lfloor>x\<rfloor>; r = x - of_int f
      in if r < 1 / 2 then f else if 1 / 2 < r then f + 1 else if even f then f else f + 1)"

definition f64_pos :: "rat \<Rightarrow> rat" where
  "f64_pos x = (let u = 2 powi (expo2 x - 52) in of_int (round_even (x / u)) * u)"

definition f64 :: "rat \<Rightarrow> rat" where
  "f64 x = (if x = 0 then 0 else if 0 < x then f64_pos x else - f64_pos (- x))"

lemma bit_len_bounds: "0 < n \<Longrightarrow> 2 ^ (bit_len n - 1) \<le> n \<and> n < 2 ^ bit_len n"
proof (induction n rule: bit_len.induct)
  case (1 n)
  show ?case
  proof (cases "n div 2 = 0")
    case True
    with 1 have "n = 1" by simp
    then show ?thesis by (simp add: bit_len.simps)
  next
    case False
    then have "bit_len (n div 2) = Suc (bit_len (n div 2 div 2))" by (simp add: bit_len.simps)
    then have s: "2 ^ bit_len (n div 2) = 2 * (2 ^ (bit_len (n div 2) - 1) :: nat)" by simp
    from 1 False have "2 ^ (bit_len (n div 2) - 1) \<le> n div 2" "n div 2 < 2 ^ bit_len (n div 2)"
      by auto
    with s have "2 ^ bit_len (n div 2) \<le> n" "n < 2 * 2 ^ bit_len (n div 2)" by linarith+
    with 1 show ?thesis by (simp add: bit_len.simps [of n])
  qed
qed

lemma expo2_ge1:
  assumes "1 \<le> x"
  shows "2 powi expo2 x \<le> x \<and> x < 2 powi (expo2 x + 1)"
proof -
  let ?n = "nat \<lfloor>x\<rfloor>"
  let ?k = "bit_len ?n"
  from assms have fl: "1 \<le> \<lfloor>x\<rfloor>" by simp
  then have b: "2 ^ (?k - 1) \<le> ?n \<and> ?n < 2 ^ ?k" by (intro bit_len_bounds) simp
  from fl have k: "0 < ?k" by (simp add: bit_len.simps)
  from fl have "of_nat ?n = (of_int \<lfloor>x\<rfloor> :: rat)" by simp
  then have "of_nat ?n \<le> x" and "x < of_nat ?n + 1" using floor_correct [of x] by auto
  moreover from b have "(2 ^ (?k - 1) :: rat) \<le> of_nat ?n"
    by (metis of_nat_le_iff of_nat_numeral of_nat_power)
  moreover from b have "of_nat ?n + 1 \<le> (2 ^ ?k :: rat)"
    by (metis Suc_leI add.commute of_nat_Suc of_nat_le_iff of_nat_numeral of_nat_power)
  ultimately have "(2 ^ (?k - 1) :: rat) \<le> x" and "x < 2 ^ ?k" by linarith+
  moreover have "expo2 x = int (?k - 1)" and "expo2 x + 1 = int ?k"
    using assms k by (auto simp: expo2_def)
  ultimately show ?thesis by (simp only: power_int_of_nat)
qed

lemma expo2_lt1:
  assumes "0 < x" and "x < 1"
  shows "2 powi expo2 x \<le> x \<and> x < 2 powi (expo2 x + 1)"
proof -
  let ?y = "1 / x"
  let ?n = "nat (\<lceil>?y\<rceil> - 1)"
  let ?k = "bit_len ?n"
  from assms have "1 < ?y" by simp
  then have c: "2 \<le> \<lceil>?y\<rceil>" by (simp add: le_ceiling_iff)
  then have b: "2 ^ (?k - 1) \<le> ?n \<and> ?n < 2 ^ ?k" by (intro bit_len_bounds) simp
  from c have k: "0 < ?k" by (simp add: bit_len.simps)
  from c have "0 \<le> \<lceil>?y\<rceil> - 1" by linarith
  then have "int ?n = \<lceil>?y\<rceil> - 1" by (rule nat_0_le)
  then have n: "of_nat ?n = (of_int \<lceil>?y\<rceil> - 1 :: rat)"
    by (metis of_int_1 of_int_diff of_int_of_nat_eq)
  have "of_nat ?n < ?y" and "?y \<le> of_nat ?n + 1" using ceiling_correct [of ?y] n by auto
  moreover from b have "(2 ^ (?k - 1) :: rat) \<le> of_nat ?n"
    by (metis of_nat_le_iff of_nat_numeral of_nat_power)
  moreover from b have "of_nat ?n + 1 \<le> (2 ^ ?k :: rat)"
    by (metis Suc_leI add.commute of_nat_Suc of_nat_le_iff of_nat_numeral of_nat_power)
  ultimately have "(2 ^ (?k - 1) :: rat) < ?y" and "?y \<le> 2 ^ ?k" by linarith+
  then have lo: "inverse (2 ^ ?k) \<le> x" and hi: "x < inverse (2 ^ (?k - 1))"
    using assms by (auto simp: field_simps)
  have e: "expo2 x = - int ?k" and e1: "expo2 x + 1 = - int (?k - 1)"
    using assms k by (auto simp: expo2_def)
  from lo hi show ?thesis
    by (simp only: e1) (simp add: e power_int_minus)
qed

lemma expo2_bounds: "0 < x \<Longrightarrow> 2 powi expo2 x \<le> x \<and> x < 2 powi (expo2 x + 1)"
  using expo2_ge1 [of x] expo2_lt1 [of x] by linarith

lemma expo2_mono: "0 < x \<Longrightarrow> x \<le> y \<Longrightarrow> expo2 x \<le> expo2 y"
proof (rule ccontr)
  assume xy: "0 < x" "x \<le> y" and "\<not> expo2 x \<le> expo2 y"
  then have "(2 :: rat) powi (expo2 y + 1) \<le> 2 powi expo2 x"
    by (intro power_int_increasing) auto
  with expo2_bounds [of x] expo2_bounds [of y] xy show False by linarith
qed

lemma round_even_int [simp]: "round_even (of_int i) = i"
  by (simp add: round_even_def)

lemma round_even_floor: "\<lfloor>x\<rfloor> \<le> round_even x \<and> round_even x \<le> \<lfloor>x\<rfloor> + 1"
  by (simp add: round_even_def Let_def)

lemma round_even_mono: "x \<le> y \<Longrightarrow> round_even x \<le> round_even y"
proof -
  assume xy: "x \<le> y"
  then have "\<lfloor>x\<rfloor> \<le> \<lfloor>y\<rfloor>" by (rule floor_mono)
  then consider "\<lfloor>x\<rfloor> = \<lfloor>y\<rfloor>" | "\<lfloor>x\<rfloor> + 1 \<le> \<lfloor>y\<rfloor>" by linarith
  then show ?thesis
  proof cases
    case 1
    then show ?thesis using xy by (auto simp: round_even_def Let_def)
  next
    case 2
    then show ?thesis using round_even_floor [of x] round_even_floor [of y] by linarith
  qed
qed

lemma round_even_le_int: "x \<le> of_int i \<Longrightarrow> round_even x \<le> i"
  using round_even_mono [of x "of_int i"] by simp

lemma round_even_ge_int: "of_int i \<le> x \<Longrightarrow> i \<le> round_even x"
  using round_even_mono [of "of_int i" x] by simp

text \<open>A positive value rounds within its binade, ends included.\<close>

lemma f64_pos_binade:
  assumes "0 < x"
  shows "2 powi expo2 x \<le> f64_pos x \<and> f64_pos x \<le> 2 powi (expo2 x + 1)"
proof -
  let ?u = "2 powi (expo2 x - 52) :: rat"
  have u: "0 < ?u" by simp
  have e: "2 powi expo2 x = of_int (2 ^ 52) * ?u" and e1: "2 powi (expo2 x + 1) = of_int (2 ^ 53) * ?u"
    by (simp_all add: power_int_diff power_int_add)
  from expo2_bounds [OF assms] u have "of_int (2 ^ 52) \<le> x / ?u" and "x / ?u \<le> of_int (2 ^ 53)"
    unfolding e e1 by (auto simp: field_simps)
  then have "2 ^ 52 \<le> round_even (x / ?u)" and "round_even (x / ?u) \<le> 2 ^ 53"
    by (blast intro: round_even_le_int round_even_ge_int)+
  then have "of_int (2 ^ 52) * ?u \<le> of_int (round_even (x / ?u)) * ?u"
    and "of_int (round_even (x / ?u)) * ?u \<le> of_int (2 ^ 53) * ?u"
    using u by (simp_all only: of_int_le_iff mult_le_cancel_right_pos)
  then show ?thesis by (simp only: e e1 f64_pos_def Let_def)
qed

lemma f64_pos_mono:
  assumes "0 < x" and "x \<le> y"
  shows "f64_pos x \<le> f64_pos y"
proof (cases "expo2 x = expo2 y")
  case True
  from assms(2) have "x / 2 powi (expo2 y - 52) \<le> y / 2 powi (expo2 y - 52)"
    by (simp add: divide_right_mono)
  then have "round_even (x / 2 powi (expo2 y - 52)) \<le> round_even (y / 2 powi (expo2 y - 52))"
    by (rule round_even_mono)
  then show ?thesis using True by (simp add: f64_pos_def Let_def mult_right_mono)
next
  case False
  with expo2_mono [OF assms] have "expo2 x + 1 \<le> expo2 y" by simp
  then have "(2 :: rat) powi (expo2 x + 1) \<le> 2 powi expo2 y" by (intro power_int_increasing) auto
  with f64_pos_binade [of x] f64_pos_binade [of y] assms show ?thesis by linarith
qed

lemma f64_pos_pos: "0 < x \<Longrightarrow> 0 < f64_pos x"
proof -
  assume "0 < x"
  then have "(2::rat) powi expo2 x \<le> f64_pos x" by (simp add: f64_pos_binade)
  moreover have "(0::rat) < 2 powi expo2 x" by simp
  ultimately show ?thesis by linarith
qed

lemma f64_mono: "x \<le> y \<Longrightarrow> f64 x \<le> f64 y"
proof -
  assume xy: "x \<le> y"
  consider "0 < x" | "x = 0" | "x < 0" "y < 0" | "x < 0" "0 \<le> y" by linarith
  then show ?thesis
  proof cases
    case 1
    with xy show ?thesis by (simp add: f64_def f64_pos_mono)
  next
    case 2
    with xy show ?thesis using f64_pos_pos [of y] by (auto simp: f64_def)
  next
    case 3
    with xy show ?thesis by (simp add: f64_def f64_pos_mono)
  next
    case 4
    with xy show ?thesis using f64_pos_pos [of y] f64_pos_pos [of "- x"] by (auto simp: f64_def)
  qed
qed

text \<open>A positive integer below \<open>2 ^ 53\<close> is a multiple of its unit in the last place.\<close>

lemma f64_pos_int:
  assumes "0 < i" and "i \<le> 2 ^ 53"
  shows "f64_pos (of_int i) = of_int i"
proof -
  let ?e = "expo2 (of_int i)"
  let ?u = "2 powi (?e - 52) :: rat"
  have "0 \<le> ?e" using assms(1) by (simp add: expo2_def bit_len.simps [of "nat i"])
  show ?thesis
  proof (cases "?e \<le> 52")
    case True
    then have "?e - 52 = - int (nat (52 - ?e))" by simp
    then have "?u = inverse (2 ^ nat (52 - ?e))" by (simp only: power_int_minus power_int_of_nat)
    then have "inverse ?u = of_int (2 ^ nat (52 - ?e))" by simp
    then have "of_int i / ?u = of_int (i * 2 ^ nat (52 - ?e))" by (simp add: field_simps)
    then have "of_int (round_even (of_int i / ?u)) = of_int i / ?u" by (metis round_even_int)
    then show ?thesis by (simp add: f64_pos_def Let_def)
  next
    case False
    have lo: "2 powi ?e \<le> (of_int i :: rat)" using assms expo2_bounds [of "of_int i"] by simp
    have hi: "(of_int i :: rat) \<le> 2 powi 53"
      using assms(2) of_int_le_iff [of i "2 ^ 53", where ?'a = rat] by simp
    have "?e < 54"
    proof (rule ccontr)
      assume "\<not> ?e < 54"
      then have "(2 :: rat) powi 54 \<le> 2 powi ?e" by (intro power_int_increasing) auto
      with lo hi show False by simp
    qed
    with False have e: "?e = 53" by simp
    with lo hi have "(of_int i :: rat) = 2 powi 53" by simp
    then have "(of_int i :: rat) / 2 = of_int (2 ^ 52)" by simp
    moreover have "?u = 2" using e by simp
    ultimately have "of_int (round_even (of_int i / ?u)) = of_int i / ?u" by (metis round_even_int)
    then show ?thesis by (simp add: f64_pos_def Let_def)
  qed
qed

lemma f64_int: "\<bar>i\<bar> \<le> 2 ^ 53 \<Longrightarrow> f64 (of_int i) = of_int i"
  using f64_pos_int [of i] f64_pos_int [of "- i"] by (auto simp: f64_def)

interpretation f64: rounding f64
  by unfold_locales (simp_all add: f64_mono f64_int)

end
