(* ===== verification/RateLimits.thy ===== *)
theory RateLimits
  imports Float64
begin

text \<open>
  The gateway's cost control, gateway/internal/limits/limits.go: a token bucket per key and the
  combination of a per-committee and a global limiter.  The clock is an argument (nanoseconds);
  tokens, rate and burst are \<open>float64\<close> values.  Each operation holds the mutex for its whole body,
  so concurrent calls are some sequence of them.  A product and a sum are rounded separately.
\<close>

subsection \<open>Durations\<close>

text \<open>\<open>Time.Sub\<close> saturates; \<open>Duration.Seconds\<close> adds the whole seconds and the fraction.\<close>

definition Sub :: "int \<Rightarrow> int \<Rightarrow> int" where
  "Sub t u = max (- (2 ^ 63)) (min (2 ^ 63 - 1) (t - u))"

definition Seconds :: "int \<Rightarrow> rat" where
  "Seconds d =
     (let sec = go_div d (10 ^ 9); nsec = d - 10 ^ 9 * sec
      in f64 (f64 (of_int sec) + f64 (f64 (of_int nsec) / 10 ^ 9)))"

subsection \<open>The keyed limiter\<close>

record bucket =
  bk_tokens :: rat
  bk_last :: int

record RateLimiter =
  rl_buckets :: "string \<rightharpoonup> bucket"
  rl_rate :: rat
  rl_burst :: rat

definition NewRateLimiter :: "int \<Rightarrow> int \<Rightarrow> RateLimiter" where
  "NewRateLimiter perMinute burst =
     (let burst = (if burst < 1 then 1 else burst)
      in \<lparr>rl_buckets = Map.empty, rl_rate = f64 (f64 (of_int perMinute) / 60),
          rl_burst = f64 (of_int burst)\<rparr>)"

text \<open>The bucket a call looks at: that of its key, or a full one; then the refill.\<close>

definition get_bucket :: "RateLimiter \<Rightarrow> string \<Rightarrow> int \<Rightarrow> bucket" where
  "get_bucket r key now =
     (case rl_buckets r key of None \<Rightarrow> \<lparr>bk_tokens = rl_burst r, bk_last = now\<rparr> | Some b \<Rightarrow> b)"

definition refill :: "RateLimiter \<Rightarrow> bucket \<Rightarrow> int \<Rightarrow> bucket" where
  "refill r b now =
     (let elapsed = Seconds (Sub now (bk_last b))
      in if elapsed > 0
         then let tokens = f64 (bk_tokens b + f64 (elapsed * rl_rate r));
                  tokens = (if tokens > rl_burst r then rl_burst r else tokens)
              in \<lparr>bk_tokens = tokens, bk_last = now\<rparr>
         else b)"

definition RateLimiter_Allow :: "RateLimiter \<Rightarrow> string \<Rightarrow> int \<Rightarrow> bool \<times> RateLimiter" where
  "RateLimiter_Allow r key now =
     (let b = refill r (get_bucket r key now) now
      in if bk_tokens b \<ge> 1
         then (True, r\<lparr>rl_buckets := (rl_buckets r)(key \<mapsto> b\<lparr>bk_tokens := f64 (bk_tokens b - 1)\<rparr>)\<rparr>)
         else (False, r\<lparr>rl_buckets := (rl_buckets r)(key \<mapsto> b)\<rparr>))"

subsection \<open>The combined limiter\<close>

record Limiter =
  lm_committee :: "RateLimiter option"
  lm_global :: "RateLimiter option"

definition NewLimiter :: "int \<Rightarrow> int \<Rightarrow> int \<Rightarrow> int \<Rightarrow> Limiter" where
  "NewLimiter committeePerMinute committeeBurst globalPerMinute globalBurst =
     \<lparr>lm_committee = (if committeePerMinute > 0
         then Some (NewRateLimiter committeePerMinute committeeBurst) else None),
      lm_global = (if globalPerMinute > 0
         then Some (NewRateLimiter globalPerMinute globalBurst) else None)\<rparr>"

text \<open>Each limiter reads the clock itself: \<open>tc\<close> for the committee's, \<open>tg\<close> for the global one.\<close>

definition committee_step :: "Limiter \<Rightarrow> string \<Rightarrow> int \<Rightarrow> bool \<times> Limiter" where
  "committee_step l committee t =
     (case lm_committee l of
        None \<Rightarrow> (True, l)
      | Some r \<Rightarrow> (let (ok, r') = RateLimiter_Allow r committee t
                  in (ok, l\<lparr>lm_committee := Some r'\<rparr>)))"

definition global_step :: "Limiter \<Rightarrow> int \<Rightarrow> bool \<times> Limiter" where
  "global_step l t =
     (case lm_global l of
        None \<Rightarrow> (True, l)
      | Some r \<Rightarrow> (let (ok, r') = RateLimiter_Allow r ''_global'' t
                  in (ok, l\<lparr>lm_global := Some r'\<rparr>)))"

definition Limiter_Allow :: "Limiter \<Rightarrow> string \<Rightarrow> int \<Rightarrow> int \<Rightarrow> bool \<times> Limiter" where
  "Limiter_Allow l committee tc tg =
     (let committee = (if committee = [] then ''_unknown'' else committee);
          (okc, l1) = committee_step l committee tc
      in if \<not> okc then (False, l1)
         else let (okg, l2) = global_step l1 tg
              in if \<not> okg then (False, l2) else (True, l2))"

subsection \<open>Rounding errors\<close>

text \<open>Half a unit in the last place, relative to the value.\<close>

definition eps :: rat where
  "eps = 1 / 2 ^ 53"

lemma eps_nonneg [simp]: "0 \<le> eps" "0 < 1 + eps"
  by (simp_all add: eps_def)

lemma round_even_err: "of_int (round_even x) \<le> x + 1 / 2"
  by (auto simp: round_even_def Let_def) (use floor_correct [of x] in linarith)+

lemma f64_upper:
  assumes "0 \<le> x"
  shows "f64 x \<le> x * (1 + eps)"
proof (cases "x = 0")
  case False
  with assms have pos: "0 < x" by simp
  define u :: rat where "u = 2 powi (expo2 x - 52)"
  have u: "0 < u" by (simp add: u_def)
  have "2 powi expo2 x \<le> x" using expo2_bounds [OF pos] by simp
  moreover have "2 powi expo2 x = 2 ^ 52 * u" by (simp add: u_def power_int_diff)
  ultimately have ux: "u / 2 \<le> x * eps" by (simp add: eps_def)
  have "f64 x = of_int (round_even (x / u)) * u"
    using pos by (simp add: f64_def f64_pos_def u_def Let_def)
  also have "\<dots> \<le> (x / u + 1 / 2) * u" using round_even_err u by (simp add: mult_right_mono)
  also have "\<dots> = x + u / 2" using u by (simp add: field_simps)
  also have "\<dots> \<le> x * (1 + eps)" using ux by (simp add: algebra_simps)
  finally show ?thesis .
qed (simp add: f64_def)

lemma Seconds_upper:
  assumes "0 \<le> d" "d < 2 ^ 63"
  shows "0 \<le> Seconds d" "Seconds d \<le> of_int d / 10 ^ 9 * (1 + eps) ^ 2"
proof -
  define sec nsec where "sec = d div 10 ^ 9" and "nsec = d mod 10 ^ 9"
  have d: "d = 10 ^ 9 * sec + nsec" and n: "0 \<le> nsec" "nsec < 10 ^ 9" and s: "0 \<le> sec" "sec \<le> 2 ^ 53"
    using assms by (simp_all add: sec_def nsec_def)
  have ex: "f64 (of_int sec) = of_int sec" "f64 (of_int nsec) = of_int nsec"
    using n s by (simp_all add: f64.rnd_int)
  have eq: "Seconds d = f64 (of_int sec + f64 (of_int nsec / 10 ^ 9))"
  proof -
    have "go_div d (10 ^ 9) = sec" using assms by (simp add: go_div_nonneg sec_def)
    moreover have "d - 10 ^ 9 * sec = nsec" using d by simp
    ultimately show ?thesis by (simp only: Seconds_def Let_def ex)
  qed
  have fr: "0 \<le> f64 (of_int nsec / 10 ^ 9)" using n by (intro f64.rnd_nonneg) simp
  with s show "0 \<le> Seconds d" unfolding eq by (intro f64.rnd_nonneg) simp
  have "Seconds d \<le> (of_int sec + f64 (of_int nsec / 10 ^ 9)) * (1 + eps)"
    unfolding eq using s fr by (intro f64_upper) simp
  also have "\<dots> \<le> (of_int sec * (1 + eps) + of_int nsec / 10 ^ 9 * (1 + eps)) * (1 + eps)"
    using s n f64_upper [of "of_int nsec / 10 ^ 9"]
    by (intro mult_right_mono add_mono) (simp_all add: mult_left_mono [of 1 "1 + eps", simplified])
  also have "\<dots> = of_int d / 10 ^ 9 * (1 + eps) ^ 2"
    by (simp add: d power2_eq_square field_simps)
  finally show "Seconds d \<le> of_int d / 10 ^ 9 * (1 + eps) ^ 2" .
qed

lemma Seconds_nonpos:
  assumes "d \<le> 0"
  shows "Seconds d \<le> 0"
proof -
  have q: "go_div d (10 ^ 9) = - (- d div 10 ^ 9)"
    using assms by (cases "d = 0") (auto simp: go_div_def)
  have "f64 (of_int (- (- d div 10 ^ 9))) \<le> 0"
    using assms f64_mono [of "of_int (- (- d div 10 ^ 9))" 0] by simp
  moreover have "d - 10 ^ 9 * - (- d div 10 ^ 9) \<le> 0"
    using pos_mod_sign [of "10 ^ 9" "- d"] by (simp add: minus_mult_div_eq_mod [symmetric])
  then have "f64 (of_int (d - 10 ^ 9 * - (- d div 10 ^ 9))) / 10 ^ 9 \<le> 0"
    using f64_mono [of "of_int (d - 10 ^ 9 * - (- d div 10 ^ 9))" 0] by (simp add: divide_nonpos_pos)
  then have "f64 (f64 (of_int (d - 10 ^ 9 * - (- d div 10 ^ 9))) / 10 ^ 9) \<le> 0"
    using f64_mono [of _ 0] by simp
  ultimately have "f64 (of_int (- (- d div 10 ^ 9))) +
      f64 (f64 (of_int (d - 10 ^ 9 * - (- d div 10 ^ 9))) / 10 ^ 9) \<le> 0" by simp
  from f64_mono [OF this] show ?thesis unfolding Seconds_def q Let_def by simp
qed

subsection \<open>The bucket invariant\<close>

definition bucket_ok :: "RateLimiter \<Rightarrow> bucket \<Rightarrow> bool" where
  "bucket_ok r b \<longleftrightarrow> 0 \<le> bk_tokens b \<and> bk_tokens b \<le> rl_burst r"

definition limiter_ok :: "RateLimiter \<Rightarrow> bool" where
  "limiter_ok r \<longleftrightarrow> 0 \<le> rl_rate r \<and> (\<exists>i. 1 \<le> i \<and> i \<le> 2 ^ 53 \<and> rl_burst r = of_int i) \<and>
     (\<forall>k b. rl_buckets r k = Some b \<longrightarrow> bucket_ok r b)"

lemma f64_le_burst: "limiter_ok r \<Longrightarrow> x \<le> rl_burst r \<Longrightarrow> f64 x \<le> rl_burst r"
  by (auto simp: limiter_ok_def intro!: f64.rnd_le_int)

lemma limiter_okD:
  assumes "limiter_ok r"
  shows "0 \<le> rl_rate r" "1 \<le> rl_burst r" "bucket_ok r (get_bucket r k t)"
  using assms by (auto simp: limiter_ok_def get_bucket_def bucket_ok_def split: option.splits)

lemma NewRateLimiter_ok:
  assumes "0 \<le> perMinute" "burst \<le> 2 ^ 53"
  shows "limiter_ok (NewRateLimiter perMinute burst)"
  using assms f64.rnd_int [of "if burst < 1 then 1 else burst"]
  by (auto simp: limiter_ok_def NewRateLimiter_def Let_def intro!: f64.rnd_nonneg
      exI [of _ "if burst < 1 then 1 else burst"])

text \<open>The refill rate per nanosecond, with the rounding of four operations allowed for.\<close>

definition growth :: "RateLimiter \<Rightarrow> rat" where
  "growth r = rl_rate r * (1 + eps) ^ 4 / 10 ^ 9"

lemma growth_nonneg: "limiter_ok r \<Longrightarrow> 0 \<le> growth r"
  by (simp add: growth_def limiter_okD(1))

text \<open>The tokens the elapsed time is worth, with the rounding of the clock's seconds and two more steps.\<close>

lemma elapsed_growth:
  assumes ok: "limiter_ok r" and pos: "0 < Sub now lst"
  shows "Seconds (Sub now lst) * rl_rate r * (1 + eps) ^ 2 \<le> of_int (now - lst) * growth r"
proof -
  from pos have le: "Sub now lst \<le> now - lst" and lt: "Sub now lst < 2 ^ 63" by (auto simp: Sub_def)
  have "Seconds (Sub now lst) \<le> of_int (Sub now lst) / 10 ^ 9 * (1 + eps) ^ 2"
    using pos lt by (intro Seconds_upper(2)) auto
  also have "\<dots> \<le> of_int (now - lst) / 10 ^ 9 * (1 + eps) ^ 2"
    using le by (intro mult_right_mono divide_right_mono) (simp_all del: of_int_diff)
  finally have "Seconds (Sub now lst) * rl_rate r * (1 + eps) ^ 2
      \<le> of_int (now - lst) / 10 ^ 9 * (1 + eps) ^ 2 * rl_rate r * (1 + eps) ^ 2"
    using limiter_okD(1) [OF ok] by (intro mult_right_mono) auto
  also have "\<dots> = of_int (now - lst) * growth r"
    by (simp add: growth_def power2_eq_square power4_eq_xxxx)
  finally show ?thesis .
qed

lemma refill_tokens:
  assumes ok: "limiter_ok r" and b: "bucket_ok r b" and b': "b' = refill r b now"
  shows "bucket_ok r b'" "bk_last b \<le> bk_last b'" "bk_last b' = bk_last b \<or> bk_last b' = now"
    "bk_tokens b' \<le> bk_tokens b + eps * rl_burst r + of_int (bk_last b' - bk_last b) * growth r"
proof -
  define e where "e = Seconds (Sub now (bk_last b))"
  have "bucket_ok r b' \<and> bk_last b \<le> bk_last b' \<and> (bk_last b' = bk_last b \<or> bk_last b' = now) \<and>
    bk_tokens b' \<le> bk_tokens b + eps * rl_burst r + of_int (bk_last b' - bk_last b) * growth r"
  proof (cases "0 < e")
    case False
    then have "b' = b" by (simp add: b' refill_def e_def Let_def)
    with b limiter_okD(2) [OF ok] show ?thesis by simp
  next
    case True
    define w where "w = f64 (bk_tokens b + f64 (e * rl_rate r))"
    have b'_eq: "b' = \<lparr>bk_tokens = min w (rl_burst r), bk_last = now\<rparr>"
      using True by (simp add: b' refill_def e_def [symmetric] w_def Let_def)
    from True have dpos: "0 < Sub now (bk_last b)"
      using Seconds_nonpos not_le unfolding e_def by (metis not_less)
    then have le: "Sub now (bk_last b) \<le> now - bk_last b" by (auto simp: Sub_def)
    have er: "0 \<le> e * rl_rate r" using True limiter_okD(1) [OF ok] by simp
    have w0: "0 \<le> w" using er b
      by (auto simp: w_def bucket_ok_def intro!: f64.rnd_nonneg add_nonneg_nonneg)
    note gr = elapsed_growth [OF ok dpos, folded e_def]
    have "w \<le> (bk_tokens b + f64 (e * rl_rate r)) * (1 + eps)"
      unfolding w_def using b er
      by (intro f64_upper) (auto simp: bucket_ok_def intro!: f64.rnd_nonneg add_nonneg_nonneg)
    also have "\<dots> \<le> (bk_tokens b + e * rl_rate r * (1 + eps)) * (1 + eps)"
      using f64_upper [OF er] by (intro mult_right_mono add_left_mono) auto
    also have "\<dots> = bk_tokens b + eps * bk_tokens b + e * rl_rate r * (1 + eps) ^ 2"
      by (simp add: power2_eq_square algebra_simps)
    also have "\<dots> \<le> bk_tokens b + eps * rl_burst r + of_int (now - bk_last b) * growth r"
      using gr b by (intro add_mono mult_left_mono) (auto simp: bucket_ok_def)
    finally have "w \<le> bk_tokens b + eps * rl_burst r + of_int (now - bk_last b) * growth r" .
    with w0 dpos le limiter_okD(2) [OF ok] show ?thesis by (simp add: b'_eq bucket_ok_def)
  qed
  then show "bucket_ok r b'" "bk_last b \<le> bk_last b'" "bk_last b' = bk_last b \<or> bk_last b' = now"
    "bk_tokens b' \<le> bk_tokens b + eps * rl_burst r + of_int (bk_last b' - bk_last b) * growth r"
    by blast+
qed

subsection \<open>One call\<close>

lemma Allow_frame [frame_simps]:
  assumes "RateLimiter_Allow r key now = (ok, r')"
  shows "rl_rate r' = rl_rate r" "rl_burst r' = rl_burst r"
    "k \<noteq> key \<Longrightarrow> rl_buckets r' k = rl_buckets r k"
  using assms by (auto simp: RateLimiter_Allow_def Let_def split: if_splits)

text \<open>A call spends one token if it is let through, up to the rounding of one subtraction.\<close>

lemma Allow_bucket:
  assumes ok: "limiter_ok r" and a: "RateLimiter_Allow r key now = (res, r')"
  obtains b' where "rl_buckets r' key = Some b'" "bucket_ok r b'"
    "bk_last b' = bk_last (refill r (get_bucket r key now) now)"
    "of_bool res + bk_tokens b' \<le> bk_tokens (refill r (get_bucket r key now) now) + eps * rl_burst r"
    "res \<longleftrightarrow> 1 \<le> bk_tokens (refill r (get_bucket r key now) now)"
proof -
  define b where "b = refill r (get_bucket r key now) now"
  have bok: "bucket_ok r b" by (rule refill_tokens(1) [OF ok limiter_okD(3) [OF ok] b_def])
  show ?thesis
  proof (cases "1 \<le> bk_tokens b")
    case True
    let ?b' = "b\<lparr>bk_tokens := f64 (bk_tokens b - 1)\<rparr>"
    from a True have r': "res" "rl_buckets r' key = Some ?b'"
      by (auto simp: RateLimiter_Allow_def b_def Let_def)
    have "f64 (bk_tokens b - 1) \<le> (bk_tokens b - 1) * (1 + eps)" using True by (intro f64_upper) simp
    also have "\<dots> = bk_tokens b - 1 + eps * (bk_tokens b - 1)" by (simp add: algebra_simps)
    also have "\<dots> \<le> bk_tokens b - 1 + eps * rl_burst r"
      using bok by (intro add_left_mono mult_left_mono) (auto simp: bucket_ok_def)
    finally have up: "1 + f64 (bk_tokens b - 1) \<le> bk_tokens b + eps * rl_burst r" by simp
    have "bucket_ok r ?b'"
      using True bok f64_le_burst [OF ok, of "bk_tokens b - 1"]
      by (auto simp: bucket_ok_def intro!: f64.rnd_nonneg)
    with r' True up show ?thesis by (intro that [of ?b']) (auto simp: b_def)
  next
    case False
    with a have "\<not> res" "rl_buckets r' key = Some b"
      by (auto simp: RateLimiter_Allow_def b_def Let_def)
    with bok False limiter_okD(2) [OF ok] show ?thesis by (intro that [of b]) (auto simp: b_def)
  qed
qed

lemma Allow_limiter_ok [inv_intros]:
  assumes "limiter_ok r" and "RateLimiter_Allow r key now = (res, r')"
  shows "limiter_ok r'"
proof -
  note fr = Allow_frame [OF assms(2)]
  obtain b' where b': "rl_buckets r' key = Some b'" "bucket_ok r b'"
    using Allow_bucket [OF assms] by metis
  have "bucket_ok r' b" if "rl_buckets r' k = Some b" for k b
    using that assms(1) b' fr by (cases "k = key") (auto simp: limiter_ok_def bucket_ok_def)
  with assms(1) fr show ?thesis by (simp add: limiter_ok_def)
qed

subsection \<open>A sequence of calls\<close>

fun run_allow :: "RateLimiter \<Rightarrow> (string \<times> int) list \<Rightarrow> bool list \<times> RateLimiter" where
  "run_allow r [] = ([], r)"
| "run_allow r ((k, t) # ops) =
     (let (ok, r1) = RateLimiter_Allow r k t; (oks, r2) = run_allow r1 ops in (ok # oks, r2))"

definition calls_of :: "string \<Rightarrow> (string \<times> int) list \<Rightarrow> nat" where
  "calls_of key ops = length (filter (\<lambda>op. fst op = key) ops)"

definition allowed_of :: "string \<Rightarrow> RateLimiter \<Rightarrow> (string \<times> int) list \<Rightarrow> nat" where
  "allowed_of key r ops =
     length (filter (\<lambda>(op, ok). fst op = key \<and> ok) (zip ops (fst (run_allow r ops))))"

lemma allowed_of_Cons:
  assumes "RateLimiter_Allow r k t = (res, r1)"
  shows "allowed_of key r ((k, t) # ops) = of_bool (k = key \<and> res) + allowed_of key r1 ops"
  using assms by (auto simp: allowed_of_def split: prod.splits)

text \<open>
  However the calls of several keys interleave and whatever their times, the calls let through
  for one key are at most its tokens plus what the bucket can gain in the time that passed; each
  call may add the rounding of two operations.
\<close>

lemma throughput:
  assumes "limiter_ok r" and "\<forall>(k, t) \<in> set ops. k = key \<longrightarrow> t0 \<le> t \<and> t \<le> T"
    and "bk_last (get_bucket r key t0) \<le> T"
  shows "of_nat (allowed_of key r ops) \<le> bk_tokens (get_bucket r key t0)
    + 2 * eps * of_nat (calls_of key ops) * rl_burst r
    + of_int (T - bk_last (get_bucket r key t0)) * growth r"
  using assms
proof (induction ops arbitrary: r)
  case Nil
  then show ?case
    using limiter_okD(3) [OF Nil(1), of key t0] growth_nonneg [OF Nil(1)]
    by (auto simp: allowed_of_def calls_of_def bucket_ok_def intro!: add_nonneg_nonneg mult_nonneg_nonneg)
next
  case (Cons op ops)
  obtain k t where op: "op = (k, t)" by force
  obtain res r1 where a: "RateLimiter_Allow r k t = (res, r1)" by force
  note ok1 = Allow_limiter_ok [OF Cons.prems(1) a] and fr = Allow_frame [OF a]
  have gr: "growth r1 = growth r" by (simp add: growth_def fr)
  show ?case
  proof (cases "k = key")
    case False
    then have "get_bucket r1 key t0 = get_bucket r key t0" using fr by (simp add: get_bucket_def split: option.splits)
    with False Cons.IH [OF ok1] Cons.prems show ?thesis
      by (simp add: op allowed_of_Cons [OF a] calls_of_def gr fr)
  next
    case True
    with Cons.prems(2) have t: "t0 \<le> t" "t \<le> T" by (auto simp: op)
    let ?b = "get_bucket r key t0" and ?c = "get_bucket r key t"
    let ?f = "refill r ?c t"
    obtain b' where b': "rl_buckets r1 key = Some b'" "bk_last b' = bk_last ?f"
      "of_bool res + bk_tokens b' \<le> bk_tokens ?f + eps * rl_burst r"
      using Allow_bucket [OF Cons.prems(1) a] True by metis
    have bc: "bk_tokens ?c = bk_tokens ?b" "bk_last ?b \<le> bk_last ?c" "bk_last ?c \<le> T"
      using t Cons.prems(3) by (auto simp: get_bucket_def split: option.splits)
    note f = refill_tokens [OF Cons.prems(1) limiter_okD(3) [OF Cons.prems(1)] refl, of key t t]
    have "of_int (bk_last ?f - bk_last ?c) * growth r \<le> of_int (bk_last ?f - bk_last ?b) * growth r"
      using bc growth_nonneg [OF Cons.prems(1)] by (intro mult_right_mono) auto
    with f(4) bc b'(3) have step: "of_bool res + bk_tokens b' \<le> bk_tokens ?b + 2 * eps * rl_burst r
        + of_int (bk_last b' - bk_last ?b) * growth r"
      by (simp add: b'(2))
    have g1: "get_bucket r1 key t0 = b'" using b'(1) by (simp add: get_bucket_def)
    have "bk_last b' \<le> T" using f(3) bc(3) t by (auto simp: b'(2))
    with Cons.IH [OF ok1] Cons.prems(2) g1
    have "of_nat (allowed_of key r1 ops) \<le> bk_tokens b' + 2 * eps * of_nat (calls_of key ops) * rl_burst r
        + of_int (T - bk_last b') * growth r"
      by (simp add: gr fr)
    moreover have "allowed_of key r ((k, t) # ops) = of_bool res + allowed_of key r1 ops"
      unfolding allowed_of_Cons [OF a] using True by simp
    ultimately show ?thesis using step True by (simp add: op calls_of_def algebra_simps)
  qed
qed

lemma run_allow_ok:
  "limiter_ok r \<Longrightarrow> limiter_ok (snd (run_allow r ops)) \<and> rl_burst (snd (run_allow r ops)) = rl_burst r"
proof (induction ops arbitrary: r)
  case (Cons op ops)
  obtain k t res r1 where a: "op = (k, t)" "RateLimiter_Allow r k t = (res, r1)"
    by (metis prod.exhaust)
  with Cons.IH [OF Allow_limiter_ok [OF Cons.prems a(2)]] Allow_frame(2) [OF a(2)]
  show ?case by (cases "run_allow r1 ops") simp
qed simp

subsection \<open>A burst at one instant\<close>

lemma Seconds_0 [simp]: "Seconds 0 = 0"
  using Seconds_upper(1) [of 0] Seconds_nonpos [of 0] by simp

lemma refill_same_instant: "bk_last b = now \<Longrightarrow> refill r b now = b"
  by (simp add: refill_def Sub_def)

lemma Allow_same_instant:
  assumes "get_bucket r key t = \<lparr>bk_tokens = of_int i, bk_last = t\<rparr>" "0 \<le> i" "i \<le> 2 ^ 53"
  obtains r' where "RateLimiter_Allow r key t = (1 \<le> i, r')"
    "get_bucket r' key t = \<lparr>bk_tokens = of_int (max 0 (i - 1)), bk_last = t\<rparr>"
proof -
  have eq: "refill r (get_bucket r key t) t = \<lparr>bk_tokens = of_int i, bk_last = t\<rparr>"
    using refill_same_instant [of "get_bucket r key t" t r] assms(1) by simp
  have "f64 (of_int i - 1) = of_int (i - 1)" if "1 \<le> i"
    using that assms f64.rnd_int [of "i - 1"] by simp
  with eq assms(2) show ?thesis
    by (intro that [of "snd (RateLimiter_Allow r key t)"])
      (auto simp: RateLimiter_Allow_def Let_def get_bucket_def max_def)
qed

lemma burst_exact:
  assumes "get_bucket r key t = \<lparr>bk_tokens = of_int i, bk_last = t\<rparr>" "0 \<le> i" "i \<le> 2 ^ 53"
  shows "fst (run_allow r (replicate n (key, t))) = map (\<lambda>k. int k < i) [0..<n]"
  using assms
proof (induction n arbitrary: r i)
  case (Suc n)
  obtain r' where a: "RateLimiter_Allow r key t = (1 \<le> i, r')"
    and b: "get_bucket r' key t = \<lparr>bk_tokens = of_int (max 0 (i - 1)), bk_last = t\<rparr>"
    using Allow_same_instant [OF Suc.prems] by metis
  have m: "0 \<le> max 0 (i - 1)" "max 0 (i - 1) \<le> 2 ^ 53" using Suc.prems by auto
  have "fst (run_allow r (replicate (Suc n) (key, t)))
      = (1 \<le> i) # map (\<lambda>k. int k < max 0 (i - 1)) [0..<n]"
    using Suc.IH [OF b m] by (cases "run_allow r' (replicate n (key, t))") (simp add: a)
  also have "\<dots> = map (\<lambda>k. int k < i) (0 # map Suc [0..<n])" by auto
  finally show ?case by (simp only: upt_conv_Cons map_Suc_upt zero_less_Suc)
qed simp

subsection \<open>Properties\<close>

text \<open>
  C10. A key that starts with a fresh limiter of \<open>perMinute\<close> calls a minute and a burst of
  \<open>burst\<close>: of all its calls between the times \<open>t0\<close> and \<open>T\<close>, interleaved in any way with the
  calls of other keys, at most \<open>burst\<close> plus the refill of the time between are let through, up to
  the relative rounding \<open>2 ^ -53\<close> of the float64 operations (four on the refill, two per call).
\<close>

theorem rate_limit_bound:
  assumes "0 \<le> perMinute" "1 \<le> burst" "burst \<le> 2 ^ 53" "t0 \<le> T"
    and "\<forall>(k, t) \<in> set ops. k = key \<longrightarrow> t0 \<le> t \<and> t \<le> T"
  shows "of_nat (allowed_of key (NewRateLimiter perMinute burst) ops)
    \<le> of_int burst * (1 + 2 * of_nat (calls_of key ops) / 2 ^ 53)
      + of_int (T - t0) / 10 ^ 9 * f64 (f64 (of_int perMinute) / 60) * (1 + 1 / 2 ^ 53) ^ 4"
proof -
  let ?r = "NewRateLimiter perMinute burst"
  have ok: "limiter_ok ?r" using assms(1,3) by (rule NewRateLimiter_ok)
  have b: "rl_burst ?r = of_int burst" "get_bucket ?r key t0 = \<lparr>bk_tokens = of_int burst, bk_last = t0\<rparr>"
    using assms f64.rnd_int [of burst] by (simp_all add: NewRateLimiter_def get_bucket_def)
  have "rl_rate ?r = f64 (f64 (of_int perMinute) / 60)" by (simp add: NewRateLimiter_def)
  with throughput [OF ok assms(5)] assms(4) show ?thesis
    by (simp add: b growth_def eps_def algebra_simps)
qed

theorem rate_limit_bound_witness:
  "of_nat (allowed_of ''finance'' (NewRateLimiter 60 2) [(''finance'', 0), (''tech'', 5), (''finance'', 7)])
    \<le> of_int 2 * (1 + 2 * of_nat (calls_of ''finance'' [(''finance'', 0), (''tech'', 5), (''finance'', 7)])
        / 2 ^ 53) + of_int (7 - 0) / 10 ^ 9 * f64 (f64 (of_int 60) / 60) * (1 + 1 / 2 ^ 53 :: rat) ^ 4"
  by (rule rate_limit_bound) auto

text \<open>
  Every call keeps the buckets in range: starting from a limiter built with a non-negative
  rate, after any sequence of calls of any keys every bucket holds between 0 and \<open>burst\<close> tokens.
\<close>

theorem bucket_tokens_bounds:
  assumes "0 \<le> perMinute" "burst \<le> 2 ^ 53"
    and "rl_buckets (snd (run_allow (NewRateLimiter perMinute burst) ops)) key = Some b"
  shows "0 \<le> bk_tokens b \<and> bk_tokens b \<le> of_int (max 1 burst)"
proof -
  let ?r = "snd (run_allow (NewRateLimiter perMinute burst) ops)"
  have "limiter_ok ?r" "rl_burst ?r = f64 (of_int (max 1 burst))"
    using run_allow_ok [OF NewRateLimiter_ok [OF assms(1,2)]]
    by (auto simp: NewRateLimiter_def max_def)
  moreover have "f64 (of_int (max 1 burst)) = of_int (max 1 burst)"
    using assms(2) by (intro f64.rnd_int) auto
  ultimately show ?thesis using assms(3) by (auto simp: limiter_ok_def bucket_ok_def)
qed

theorem bucket_tokens_bounds_witness:
  "\<exists>b. rl_buckets (snd (run_allow (NewRateLimiter 60 2) [(''ops'', 0)])) ''ops'' = Some b \<and>
     0 \<le> bk_tokens b \<and> bk_tokens b \<le> of_int (max 1 2)"
proof -
  obtain r where a: "RateLimiter_Allow (NewRateLimiter 60 2) ''ops'' 0 = (True, r)"
    "rl_buckets r ''ops'' \<noteq> None"
    using f64.rnd_int [of 2]
    by (auto simp: RateLimiter_Allow_def get_bucket_def refill_same_instant NewRateLimiter_def Let_def)
  then obtain b where "rl_buckets (snd (run_allow (NewRateLimiter 60 2) [(''ops'', 0)])) ''ops'' = Some b"
    by auto
  with bucket_tokens_bounds [OF _ _ this] show ?thesis by simp
qed

text \<open>
  At one instant a fresh key gets exactly its burst: of \<open>n\<close> simultaneous calls the first
  \<open>max 1 burst\<close> are let through and the rest are refused.
\<close>

theorem burst_then_denied:
  assumes "burst \<le> 2 ^ 53"
  shows "fst (run_allow (NewRateLimiter perMinute burst) (replicate n (key, t)))
    = map (\<lambda>k. int k < max 1 burst) [0..<n]"
proof (rule burst_exact)
  show "get_bucket (NewRateLimiter perMinute burst) key t
      = \<lparr>bk_tokens = of_int (max 1 burst), bk_last = t\<rparr>"
    using assms f64.rnd_int [of "max 1 burst"]
    by (auto simp: NewRateLimiter_def get_bucket_def max_def)
qed (use assms in auto)

theorem burst_then_denied_witness:
  "fst (run_allow (NewRateLimiter 6 2) (replicate 3 (''tech'', 5))) = [True, True, False]"
  using burst_then_denied [of 2 6 3 "''tech''" 5] by (simp add: upt_rec)

text \<open>
  The combined limiter asks the committee's bucket first and spends a token of it; when the
  global bucket then refuses, the call is refused and that committee token stays spent.
\<close>

theorem global_denial_spends_committee_token:
  assumes "lm_committee l = Some rc" "lm_global l = Some rg" "c \<noteq> []"
    and "RateLimiter_Allow rc c tc = (True, rc')" "RateLimiter_Allow rg ''_global'' tg = (False, rg')"
  shows "Limiter_Allow l c tc tg = (False, l\<lparr>lm_committee := Some rc', lm_global := Some rg'\<rparr>) \<and>
    rl_buckets rc' c =
      Some \<lparr>bk_tokens = f64 (bk_tokens (refill rc (get_bucket rc c tc) tc) - 1),
            bk_last = bk_last (refill rc (get_bucket rc c tc) tc)\<rparr>"
  using assms
  by (auto simp: Limiter_Allow_def committee_step_def global_step_def RateLimiter_Allow_def Let_def
      split: if_splits)

theorem global_denial_spends_committee_token_witness:
  "\<exists>rc' rg'. Limiter_Allow
      \<lparr>lm_committee = Some (NewRateLimiter 60 2),
       lm_global = Some \<lparr>rl_buckets = [''_global'' \<mapsto> \<lparr>bk_tokens = 0, bk_last = 9\<rparr>],
                         rl_rate = 1, rl_burst = 1\<rparr>\<rparr> ''finance'' 9 9
    = (False, \<lparr>lm_committee = Some rc', lm_global = Some rg'\<rparr>) \<and>
    rl_buckets rc' ''finance'' = Some \<lparr>bk_tokens = 1, bk_last = 9\<rparr>"
proof -
  let ?rc = "NewRateLimiter 60 2"
  let ?rg = "\<lparr>rl_buckets = [''_global'' \<mapsto> \<lparr>bk_tokens = 0, bk_last = 9\<rparr>], rl_rate = 1, rl_burst = 1\<rparr>"
  have b: "get_bucket ?rc ''finance'' 9 = \<lparr>bk_tokens = 2, bk_last = 9\<rparr>"
    using f64.rnd_int [of 2] by (simp add: get_bucket_def NewRateLimiter_def)
  have c: "\<exists>rc'. RateLimiter_Allow ?rc ''finance'' 9 = (True, rc')"
    by (simp add: RateLimiter_Allow_def b refill_same_instant)
  have g: "\<exists>rg'. RateLimiter_Allow ?rg ''_global'' 9 = (False, rg')"
    by (simp add: RateLimiter_Allow_def get_bucket_def refill_same_instant)
  from c g obtain rc' rg' where "RateLimiter_Allow ?rc ''finance'' 9 = (True, rc')"
    "RateLimiter_Allow ?rg ''_global'' 9 = (False, rg')" by blast
  from global_denial_spends_committee_token
    [of "\<lparr>lm_committee = Some ?rc, lm_global = Some ?rg\<rparr>", OF _ _ _ this]
  show ?thesis using f64.rnd_int [of 1] by (auto simp: b refill_same_instant)
qed

end
