(* ===== verification/Json.thy ===== *)
theory Json
  imports GoLib
begin

text \<open>
  JSON values as \<open>encoding/json\<close> decodes them, and \<open>json.RawMessage\<close>.  The text codec itself is
  not modelled: a raw message is what decoding makes of its bytes, nothing (\<open>len = 0\<close>), a JSON
  value, or bytes that are no JSON.  A Go \<open>map[string]any\<close> is an object with distinct keys;
  \<open>json.Marshal\<close> writes its keys in byte order.
\<close>

datatype json =
    JNull
  | JBool bool
  | JNum string
  | JStr string
  | JArr "json list"
  | JObj "(string \<times> json) list"

datatype raw = Raw_Empty | Raw_JSON json | Raw_Bad string

text \<open>Decoding an object into a map: of duplicate keys the last one counts.\<close>

fun obj_put :: "string \<Rightarrow> json \<Rightarrow> (string \<times> json) list \<Rightarrow> (string \<times> json) list" where
  "obj_put k v [] = [(k, v)]"
| "obj_put k v ((k', v') # kvs) = (if k = k' then (k, v) # kvs else (k', v') # obj_put k v kvs)"

definition obj_map :: "(string \<times> json) list \<Rightarrow> (string \<times> json) list" where
  "obj_map kvs = foldl (\<lambda>m (k, v). obj_put k v m) [] kvs"

text \<open>\<open>json.Marshal\<close> of a map: the entries in the order of their keys.\<close>

definition marshal_map :: "(string \<times> json) list \<Rightarrow> json" where
  "marshal_map m = JObj (sort_key fst m)"

lemma set_obj_put:
  "set (obj_put k v m) \<subseteq> insert (k, v) (set m)"
  by (induction m) (auto split: if_splits)

lemma obj_put_keys: "fst ` set (obj_put k v m) = insert k (fst ` set m)"
proof (induction m)
  case (Cons x m)
  then show ?case by (cases x) (simp add: insert_commute)
qed simp

lemma distinct_obj_put: "distinct (map fst m) \<Longrightarrow> distinct (map fst (obj_put k v m))"
proof (induction m)
  case (Cons x m)
  then show ?case by (cases x) (use obj_put_keys [of k v m] in \<open>auto simp: image_iff\<close>)
qed simp

lemma map_of_obj_put: "map_of (obj_put k v m) = (map_of m)(k \<mapsto> v)"
  by (induction m) (auto simp: fun_eq_iff)

lemma foldl_obj_put:
  "distinct (map fst m) \<Longrightarrow>
     distinct (map fst (foldl (\<lambda>m (k, v). obj_put k v m) m kvs)) \<and>
     map_of (foldl (\<lambda>m (k, v). obj_put k v m) m kvs) = map_of m ++ map_of (rev kvs)"
proof (induction kvs arbitrary: m)
  case (Cons x kvs)
  obtain k v where "x = (k, v)" by force
  with Cons.IH [of "obj_put k v m"] Cons.prems show ?case
    by (simp add: distinct_obj_put map_of_obj_put map_add_def fun_eq_iff split: option.splits)
qed simp

lemma distinct_obj_map: "distinct (map fst (obj_map kvs))"
  using foldl_obj_put [of "[]" kvs] by (simp add: obj_map_def)

text \<open>Looking a key up in the decoded map finds the last entry written for it.\<close>

lemma map_of_obj_map: "map_of (obj_map kvs) = map_of (rev kvs)"
  using foldl_obj_put [of "[]" kvs] by (simp add: obj_map_def)

end
