(* ===== verification/Redact.thy ===== *)
theory Redact
  imports Json
begin

text \<open>
  Masking of secrets before arguments reach the audit log or an approval:
  gateway/internal/policy/redact.go.  \<open>uni\<close> lowers text that is not ASCII (see \<open>ToLower\<close>);
  \<open>num\<close> is how \<open>encoding/json\<close> writes a number it has read into a \<open>float64\<close>, or \<open>None\<close> when it
  does not fit one (then decoding fails).
\<close>

definition sensitiveKeys :: "string list" where
  "sensitiveKeys = [''authorization'', ''token'', ''api_key'', ''apikey'',
     ''password'', ''secret'', ''access_token'', ''refresh_token'']"

text \<open>Decoding a value into \<open>any\<close> and encoding it again.\<close>

lemma size_obj_value [termination_simp]:
  "kv \<in> set kvs \<Longrightarrow> size (snd kv) < Suc (size_list (size_prod (\<lambda>_. 0) size) kvs)"
  using size_list_estimation' [of kv kvs "size (snd kv)" "size_prod (\<lambda>_. 0) size"]
  by (cases kv) simp

fun any_json :: "(string \<Rightarrow> string option) \<Rightarrow> json \<Rightarrow> json option" where
  "any_json num (JNum s) = map_option JNum (num s)"
| "any_json num (JArr xs) =
     (let ys = map (any_json num) xs
      in if None \<in> set ys then None else Some (JArr (map the ys)))"
| "any_json num (JObj kvs) =
     (let vs = map (\<lambda>kv. (fst kv, any_json num (snd kv))) kvs
      in if None \<in> snd ` set vs then None
         else Some (marshal_map (obj_map (map (\<lambda>kv. (fst kv, the (snd kv))) vs))))"
| "any_json num j = Some j"

definition mask_kv :: "(string \<Rightarrow> string) \<Rightarrow> string \<times> json \<Rightarrow> string \<times> json" where
  "mask_kv uni kv = (if ToLower uni (fst kv) \<in> set sensitiveKeys then (fst kv, JStr ''***'') else kv)"

text \<open>The decoded object; \<open>null\<close> leaves the map nil, which is encoded as \<open>null\<close> again.\<close>

definition RedactArgs :: "(string \<Rightarrow> string) \<Rightarrow> (string \<Rightarrow> string option) \<Rightarrow> raw \<Rightarrow> raw" where
  "RedactArgs uni num args =
     (case args of
        Raw_Empty \<Rightarrow> Raw_JSON (JObj [])
      | Raw_JSON (JObj kvs) \<Rightarrow>
          (let vs = map (\<lambda>kv. (fst kv, any_json num (snd kv))) kvs
           in if None \<in> snd ` set vs then args
              else Raw_JSON (marshal_map (map (mask_kv uni)
                (obj_map (map (\<lambda>kv. (fst kv, the (snd kv))) vs)))))
      | _ \<Rightarrow> args)"

subsection \<open>Facts\<close>

lemma fst_mask [simp]: "fst (mask_kv uni kv) = fst kv"
  by (simp add: mask_kv_def)

lemma mask_sensitive:
  "ToLower uni k \<in> set sensitiveKeys \<Longrightarrow> (k, v) \<in> mask_kv uni ` S \<Longrightarrow> v = JStr ''***''"
  by (auto simp: mask_kv_def split: if_splits)

text \<open>The audit column takes JSON only; redaction gives JSON whenever the arguments were JSON.\<close>

lemma RedactArgs_json:
  "(\<forall>s. args \<noteq> Raw_Bad s) \<Longrightarrow> \<exists>j. RedactArgs uni num args = Raw_JSON j"
  by (cases args) (auto simp: RedactArgs_def Let_def split: json.splits)

text \<open>
  The numbers written in a value: decoding fails exactly when one of them does not fit a
  \<open>float64\<close>.
\<close>

fun numbers :: "json \<Rightarrow> string list" where
  "numbers (JNum s) = [s]"
| "numbers (JArr xs) = concat (map numbers xs)"
| "numbers (JObj kvs) = concat (map (\<lambda>kv. numbers (snd kv)) kvs)"
| "numbers j = []"

lemma any_json_None: "any_json num j = None \<longleftrightarrow> \<not> list_all (\<lambda>s. num s \<noteq> None) (numbers j)"
proof (induction num j rule: any_json.induct)
  case (2 num xs)
  have "None \<in> set (map (any_json num) xs) \<longleftrightarrow> (\<exists>x \<in> set xs. any_json num x = None)" by force
  with 2 show ?case by (auto simp: Let_def list_all_iff)
next
  case (3 num kvs)
  have "None \<in> (\<lambda>kv. any_json num (snd kv)) ` set kvs \<longleftrightarrow> (\<exists>kv \<in> set kvs. any_json num (snd kv) = None)"
    by force
  with 3 show ?case by (auto simp: Let_def list_all_iff image_image)
qed auto

lemma values_decode:
  "None \<in> (\<lambda>kv. any_json num (snd kv)) ` set kvs
     \<longleftrightarrow> \<not> list_all (\<lambda>s. num s \<noteq> None) (numbers (JObj kvs))"
  using any_json_None [of num "JObj kvs"]
  by (cases "None \<in> (\<lambda>kv. any_json num (snd kv)) ` set kvs") (simp_all add: Let_def image_image)

lemma RedactArgs_undecodable:
  assumes "\<not> list_all (\<lambda>s. num s \<noteq> None) (numbers (JObj kvs))"
  shows "RedactArgs uni num (Raw_JSON (JObj kvs)) = Raw_JSON (JObj kvs)"
  using assms unfolding values_decode [symmetric] by (simp add: RedactArgs_def Let_def image_image)

lemma RedactArgs_object:
  assumes "list_all (\<lambda>s. num s \<noteq> None) (numbers (JObj kvs))"
  shows "\<exists>m. RedactArgs uni num (Raw_JSON (JObj kvs)) = Raw_JSON (JObj m) \<and>
    fst ` set m = fst ` set kvs \<and> distinct (map fst m) \<and>
    (\<forall>(k, v) \<in> set m. if ToLower uni k \<in> set sensitiveKeys then v = JStr ''***''
       else \<exists>w. map_of (rev kvs) k = Some w \<and> any_json num w = Some v)"
proof -
  from assms have nn: "None \<notin> (\<lambda>kv. any_json num (snd kv)) ` set kvs" by (simp only: values_decode not_not)
  then have tot: "any_json num w \<noteq> None" if "(k, w) \<in> set kvs" for k w using that by force
  let ?f = "\<lambda>kv. (fst kv, the (any_json num (snd kv)))"
  let ?o = "obj_map (map ?f kvs)"
  let ?m = "sort_key fst (map (mask_kv uni) ?o)"
  from nn have red: "RedactArgs uni num (Raw_JSON (JObj kvs)) = Raw_JSON (JObj ?m)"
    by (simp add: RedactArgs_def Let_def marshal_map_def comp_def image_image)
  have look: "map_of ?o k = map_option (\<lambda>w. the (any_json num w)) (map_of (rev kvs) k)" for k
  proof -
    have "map_of (map ?f xs) k = map_option (\<lambda>w. the (any_json num w)) (map_of xs k)" for xs
      by (induction xs) auto
    then show ?thesis by (simp add: map_of_obj_map rev_map)
  qed
  have keys: "fst ` set ?m = fst ` set kvs"
  proof -
    have "fst ` set ?o = dom (map_of ?o)" by (simp add: dom_map_of_conv_image_fst)
    also have "\<dots> = dom (map_of (rev kvs))" by (auto simp: look dom_def)
    finally show ?thesis by (simp add: image_image dom_map_of_conv_image_fst)
  qed
  have dist: "distinct (map fst ?m)"
  proof -
    have "mset (map fst ?m) = mset (map fst ?o)"
      by (simp add: image_mset.compositionality comp_def)
    from mset_eq_imp_distinct_iff [OF this] distinct_obj_map [of "map ?f kvs"] show ?thesis by simp
  qed
  have "if ToLower uni k \<in> set sensitiveKeys then v = JStr ''***''
       else \<exists>w. map_of (rev kvs) k = Some w \<and> any_json num w = Some v" if "(k, v) \<in> set ?m" for k v
  proof (cases "ToLower uni k \<in> set sensitiveKeys")
    case True
    with that show ?thesis by (auto dest: mask_sensitive)
  next
    case False
    with that have "(k, v) \<in> set ?o" by (auto simp: mask_kv_def split: if_splits)
    then have "map_of ?o k = Some v" using distinct_obj_map [of "map ?f kvs"] by simp
    then obtain w where w: "map_of (rev kvs) k = Some w" "v = the (any_json num w)"
      by (auto simp: look)
    from map_of_SomeD [OF w(1)] have "any_json num w \<noteq> None" by (auto dest: tot)
    with w False show ?thesis by auto
  qed
  then have "\<forall>(k, v) \<in> set ?m. if ToLower uni k \<in> set sensitiveKeys then v = JStr ''***''
       else \<exists>w. map_of (rev kvs) k = Some w \<and> any_json num w = Some v" by blast
  with red keys dist show ?thesis by blast
qed

end
