(* ===== verification/Postgres.thy ===== *)
theory Postgres
  imports Json
begin

text \<open>
  The durable state of the platform (services/session-memory/store/models.go, registry.go and the
  schema in store/migrations): the Go structs, the tables, and what running one SQL statement
  does.  The database server is outside the repository; what a statement needs from it is the
  record \<open>pg\<close>, an argument of every repository operation:
  whether the \<open>n\<close>-th statement fails for a reason outside the schema (connection lost, context
  cancelled, value not encodable) and with which text, what \<open>now()\<close>, \<open>gen_random_uuid()\<close> and an
  identity column give in it, how a \<open>uuid\<close> argument is read (\<open>None\<close>: syntax error) and the key by
  which the database's collation orders text.

  A statement that the schema refuses (primary key, unique key, foreign key, CHECK, type of an
  argument) returns an error and changes no table.
\<close>

subsection \<open>The structs of package store\<close>

record User =
  usr_ID :: string
  usr_SlackID :: string
  usr_Name :: string
  usr_Email :: string
  usr_CreatedAt :: int

record CommitteeRole =
  cr_UserID :: string
  cr_Committee :: string
  cr_Role :: string
  cr_CreatedAt :: int

record Session =
  ses_ID :: string
  ses_UserID :: string
  ses_Channel :: string
  ses_ThreadTS :: string
  ses_Recipe :: string
  ses_Status :: string
  ses_CreatedAt :: int
  ses_UpdatedAt :: int

record Turn =
  trn_ID :: int
  trn_SessionID :: string
  trn_Role :: string
  trn_Content :: string
  trn_Tokens :: int
  trn_CreatedAt :: int

record Summary =
  sum_SessionID :: string
  sum_Summary :: string
  sum_UpdatedAt :: int

record Fact =
  fct_ID :: string
  fct_ScopeType :: string
  fct_ScopeID :: string
  fct_Key :: string
  fct_Value :: string
  fct_Tags :: "string list"
  fct_Source :: string
  fct_CreatedAt :: int
  fct_ExpiresAt :: "int option"

record FactInput =
  fin_ScopeType :: string
  fin_ScopeID :: string
  fin_Key :: string
  fin_Value :: string
  fin_Tags :: "string list"
  fin_Source :: string
  fin_ExpiresAt :: "int option"

record FactQuery =
  fq_ScopeType :: string
  fq_ScopeID :: string
  fq_Tags :: "string list"
  fq_Limit :: int
  fq_IncludeExpired :: bool

record Approval =
  ap_ID :: string
  ap_SessionID :: string
  ap_Tool :: string
  ap_ArgsRedacted :: raw
  ap_Status :: string
  ap_DecidedBy :: string
  ap_DecidedAt :: "int option"
  ap_CreatedAt :: int

record AuditEntry =
  au_ID :: int
  au_Actor :: string
  au_Tool :: string
  au_ArgsRedacted :: raw
  au_Result :: string
  au_LatencyMS :: int
  au_CreatedAt :: int

record AuditInput =
  ain_Actor :: string
  ain_Tool :: string
  ain_ArgsRedacted :: raw
  ain_Result :: string
  ain_LatencyMS :: int

record ToolInput =
  tin_Name :: string
  tin_Scope :: string
  tin_Impact :: string

record ServerInput =
  sin_Name :: string
  sin_Owner :: string
  sin_Description :: string
  sin_Endpoint :: string
  sin_Transport :: string
  sin_Auth :: string
  sin_Tools :: "ToolInput list"
  sin_Committees :: "string list"

record Tool =
  tl_ID :: string
  tl_ServerID :: string
  tl_Name :: string
  tl_Scope :: string
  tl_Impact :: string

record Server =
  srv_ID :: string
  srv_Name :: string
  srv_Owner :: string
  srv_Description :: string
  srv_Endpoint :: string
  srv_Transport :: string
  srv_Auth :: string
  srv_Lifecycle :: string
  srv_Enabled :: bool
  srv_Health :: string
  srv_CreatedAt :: int
  srv_UpdatedAt :: int
  srv_Tools :: "Tool list"
  srv_Committees :: "string list"

record VisibleTool =
  vt_ServerName :: string
  vt_ServerID :: string
  vt_ToolName :: string
  vt_Scope :: string
  vt_Impact :: string

record ToolBinding =
  tb_Server :: Server
  tb_Tool :: Tool

subsection \<open>The tables\<close>

text \<open>
  Rows with a nullable column have a type of their own; the other tables hold the structs
  (a row of \<open>mcp_servers\<close> is a server with no tools and no committees yet, as \<open>scanServer\<close>
  returns it).
\<close>

record SessionRow =
  sr_id :: string
  sr_user_id :: "string option"
  sr_channel :: string
  sr_thread_ts :: string
  sr_recipe :: string
  sr_status :: string
  sr_created_at :: int
  sr_updated_at :: int

record ApprovalRow =
  ar_id :: string
  ar_session_id :: "string option"
  ar_tool :: string
  ar_args_redacted :: json
  ar_status :: string
  ar_decided_by :: string
  ar_decided_at :: "int option"
  ar_created_at :: int

record AuditRow =
  lr_id :: int
  lr_actor :: string
  lr_tool :: string
  lr_args_redacted :: json
  lr_result :: string
  lr_latency_ms :: int
  lr_created_at :: int

record db =
  users :: "User list"
  committee_roles :: "CommitteeRole list"
  sessions :: "SessionRow list"
  turns :: "Turn list"
  summaries :: "Summary list"
  memory_facts :: "Fact list"
  approvals :: "ApprovalRow list"
  audit_log :: "AuditRow list"
  mcp_servers :: "Server list"
  mcp_tools :: "Tool list"
  server_committees :: "(string \<times> string) list"
  stmts :: nat

definition empty_db :: db where
  "empty_db = \<lparr>users = [], committee_roles = [], sessions = [], turns = [], summaries = [],
     memory_facts = [], approvals = [], audit_log = [], mcp_servers = [], mcp_tools = [],
     server_committees = [], stmts = 0\<rparr>"

subsection \<open>Running a statement\<close>

record pg =
  pg_fault :: "nat \<Rightarrow> string option"
  pg_now :: "nat \<Rightarrow> int"
  pg_uuid :: "nat \<Rightarrow> string"
  pg_serial :: "nat \<Rightarrow> int"
  pg_uuid_in :: "string \<Rightarrow> string option"
  pg_coll :: "string \<Rightarrow> string"

type_synonym 'a res = "goerr + 'a"

type_synonym 'a query = "nat \<Rightarrow> db \<Rightarrow> goerr + 'a \<times> db"

definition exec :: "pg \<Rightarrow> 'a query \<Rightarrow> db \<Rightarrow> 'a res \<times> db" where
  "exec p q d =
     (let n = stmts d; d0 = d\<lparr>stmts := Suc n\<rparr>
      in case pg_fault p n of
           Some m \<Rightarrow> (Inl (External m), d0)
         | None \<Rightarrow> (case q n d0 of Inl e \<Rightarrow> (Inl e, d0) | Inr (x, d1) \<Rightarrow> (Inr x, d1)))"

text \<open>A SELECT: no table changes.\<close>

definition select :: "(nat \<Rightarrow> db \<Rightarrow> goerr + 'a) \<Rightarrow> 'a query" where
  "select f n d = (case f n d of Inl e \<Rightarrow> Inl e | Inr x \<Rightarrow> Inr (x, d))"

definition wrap_errf :: "string \<Rightarrow> string list \<Rightarrow> 'a res \<times> 'b \<Rightarrow> 'a res \<times> 'b" where
  "wrap_errf f as rd = (map_err (Wrap f as) (fst rd), snd rd)"

definition wrap_err :: "string \<Rightarrow> 'a res \<times> 'b \<Rightarrow> 'a res \<times> 'b" where
  "wrap_err f rd = (map_err (Wrap f []) (fst rd), snd rd)"

text \<open>Sequencing: a later call runs only if the earlier one succeeded.\<close>

definition and_then :: "'a res \<times> 'd \<Rightarrow> ('a \<Rightarrow> 'd \<Rightarrow> 'b res \<times> 'd) \<Rightarrow> 'b res \<times> 'd" where
  "and_then rd k = (case rd of (Inl e, d) \<Rightarrow> (Inl e, d) | (Inr x, d) \<Rightarrow> k x d)"

text \<open>\<open>QueryRowContext(...).Scan\<close>: the first row, or \<open>sql.ErrNoRows\<close>.\<close>

definition sql_ErrNoRows :: goerr where
  "sql_ErrNoRows = Sentinel ''sql: no rows in result set''"

definition ErrNotFound :: goerr where
  "ErrNotFound = Sentinel ''store: not found''"

fun query_row :: "'a list \<Rightarrow> 'a res" where
  "query_row [] = Inl sql_ErrNoRows"
| "query_row (x # xs) = Inr x"

text \<open>The repository's \<open>errors.Is(err, sql.ErrNoRows)\<close> test, then the wrapped error.\<close>

definition not_found_or :: "string \<Rightarrow> 'a res \<times> 'b \<Rightarrow> 'a res \<times> 'b" where
  "not_found_or f rd =
     (map_err (\<lambda>e. if errors_Is e sql_ErrNoRows then ErrNotFound else Wrap f [] e) (fst rd), snd rd)"

definition uuid_arg :: "pg \<Rightarrow> string \<Rightarrow> string res" where
  "uuid_arg p s =
     (case pg_uuid_in p s of
        None \<Rightarrow> Inl (External ''invalid input syntax for type uuid'')
      | Some u \<Rightarrow> Inr u)"

text \<open>The errors of the schema.\<close>

definition pk_violation :: goerr where
  "pk_violation = External ''duplicate key value violates unique constraint''"

definition fk_violation :: goerr where
  "fk_violation = External ''insert or update violates foreign key constraint''"

definition check_violation :: goerr where
  "check_violation = External ''new row violates check constraint''"

definition out_of_range :: goerr where
  "out_of_range = External ''value out of range for type integer''"

definition bad_json :: goerr where
  "bad_json = External ''invalid input syntax for type json''"

text \<open>A reference that is not NULL and names no row.\<close>

definition fk_missing :: "'a option \<Rightarrow> 'a set \<Rightarrow> bool" where
  "fk_missing r keys \<longleftrightarrow> (case r of None \<Rightarrow> False | Some v \<Rightarrow> v \<notin> keys)"

lemma fk_missing_iff [simp]: "fk_missing r keys \<longleftrightarrow> (\<exists>v. r = Some v \<and> v \<notin> keys)"
  by (auto simp: fk_missing_def split: option.splits)

definition int4 :: "int \<Rightarrow> bool" where
  "int4 i \<longleftrightarrow> - (2 ^ 31) \<le> i \<and> i < 2 ^ 31"

text \<open>\<open>defaultJSON\<close> and the \<open>jsonb\<close> column that takes its result.\<close>

definition defaultJSON :: "raw \<Rightarrow> raw" where
  "defaultJSON b = (if b = Raw_Empty then Raw_JSON (JObj []) else b)"

fun jsonb_in :: "raw \<Rightarrow> json res" where
  "jsonb_in (Raw_JSON j) = Inr j"
| "jsonb_in _ = Inl bad_json"

subsection \<open>What a statement leaves unchanged\<close>

text \<open>Two states with the same tables.\<close>

definition same_tables :: "db \<Rightarrow> db \<Rightarrow> bool" where
  "same_tables d d' \<longleftrightarrow> d'\<lparr>stmts := stmts d\<rparr> = d"

lemma same_tables_refl [simp]: "same_tables d d"
  by (simp add: same_tables_def)

lemma same_tables_stmts [simp]: "same_tables d (d\<lparr>stmts := n\<rparr>)"
  by (simp add: same_tables_def)

lemma same_tables_upd_stmts [simp]: "same_tables d (d'\<lparr>stmts := n\<rparr>) = same_tables d d'"
  unfolding same_tables_def by (cases d, cases d') simp

lemma same_tables_trans: "same_tables a b \<Longrightarrow> same_tables b c \<Longrightarrow> same_tables a c"
  unfolding same_tables_def by (cases a, cases b, cases c) simp

lemma same_tables_sym: "same_tables a b \<Longrightarrow> same_tables b a"
  unfolding same_tables_def by (cases a, cases b) simp

lemma same_tablesD [dest?]:
  assumes "same_tables d d'"
  shows "users d' = users d" "committee_roles d' = committee_roles d" "sessions d' = sessions d"
    "turns d' = turns d" "summaries d' = summaries d" "memory_facts d' = memory_facts d"
    "approvals d' = approvals d" "audit_log d' = audit_log d" "mcp_servers d' = mcp_servers d"
    "mcp_tools d' = mcp_tools d" "server_committees d' = server_committees d"
  using assms unfolding same_tables_def by (cases d, cases d', simp)+

lemma exec_cases:
  obtains (fault) m where "pg_fault p (stmts d) = Some m"
      "exec p q d = (Inl (External m), d\<lparr>stmts := Suc (stmts d)\<rparr>)"
  | (refused) e where "pg_fault p (stmts d) = None" "q (stmts d) (d\<lparr>stmts := Suc (stmts d)\<rparr>) = Inl e"
      "exec p q d = (Inl e, d\<lparr>stmts := Suc (stmts d)\<rparr>)"
  | (ran) x d1 where "pg_fault p (stmts d) = None"
      "q (stmts d) (d\<lparr>stmts := Suc (stmts d)\<rparr>) = Inr (x, d1)" "exec p q d = (Inr x, d1)"
proof (cases "pg_fault p (stmts d)")
  case None
  then show ?thesis
    using refused ran
    by (cases "q (stmts d) (d\<lparr>stmts := Suc (stmts d)\<rparr>)") (auto simp: exec_def Let_def)
next
  case (Some m)
  then show ?thesis using fault by (auto simp: exec_def Let_def)
qed

lemma exec_done:
  assumes "pg_fault p (stmts d) = None" and "q (stmts d) (d\<lparr>stmts := Suc (stmts d)\<rparr>) = Inr (x, d1)"
  shows "exec p q d = (Inr x, d1)"
  using assms by (simp add: exec_def)

lemma exec_Inr: "exec p q d = (Inr x, d') \<Longrightarrow>
    pg_fault p (stmts d) = None \<and> q (stmts d) (d\<lparr>stmts := Suc (stmts d)\<rparr>) = Inr (x, d')"
  by (cases p q d rule: exec_cases) auto

lemma exec_Inl: "exec p q d = (Inl e, d') \<Longrightarrow> d' = d\<lparr>stmts := Suc (stmts d)\<rparr>"
  by (cases p q d rule: exec_cases) auto

text \<open>
  An invariant of the tables that every successful run of a query keeps is kept by the statement.
\<close>

lemma exec_invariant:
  assumes "P d" and "\<And>n. P (d\<lparr>stmts := n\<rparr>)"
    and "\<And>n x d1. q n (d\<lparr>stmts := Suc (stmts d)\<rparr>) = Inr (x, d1) \<Longrightarrow> P d1"
  shows "P (snd (exec p q d))"
  using assms by (cases p q d rule: exec_cases) auto

text \<open>A failed statement changes no table.\<close>

lemma exec_error_same: "exec p q d = (Inl e, d') \<Longrightarrow> same_tables d d'"
  by (cases p q d rule: exec_cases) auto

lemma exec_select_same: "exec p (select f) d = (r, d') \<Longrightarrow> same_tables d d'"
  by (cases p "select f" d rule: exec_cases) (auto simp: select_def split: sum.splits)

lemma exec_select_ok:
  "exec p (select f) d = (Inr x, d') \<Longrightarrow> f (stmts d) (d\<lparr>stmts := Suc (stmts d)\<rparr>) = Inr x"
  by (cases p "select f" d rule: exec_cases) (auto simp: select_def split: sum.splits)

lemma exec_selectE:
  assumes "exec p (select f) d = (r, d')"
  obtains e where "r = Inl e" "d' = d\<lparr>stmts := Suc (stmts d)\<rparr>"
  | x where "r = Inr x" "d' = d\<lparr>stmts := Suc (stmts d)\<rparr>" "f (stmts d) (d\<lparr>stmts := Suc (stmts d)\<rparr>) = Inr x"
  using assms
  by (cases p "select f" d rule: exec_cases) (auto simp: select_def split: sum.splits)

lemma exec_select_state [simp]: "snd (exec p (select f) d) = d\<lparr>stmts := Suc (stmts d)\<rparr>"
  by (cases p "select f" d rule: exec_cases) (auto simp: select_def split: sum.splits)

lemma snd_wrap_err [simp]: "snd (wrap_err f rd) = snd rd"
  by (simp add: wrap_err_def)

lemma snd_wrap_errf [simp]: "snd (wrap_errf f as rd) = snd rd"
  by (simp add: wrap_errf_def)

lemma wrap_errf_Inr [simp]: "wrap_errf f as rd = (Inr x, d) \<longleftrightarrow> rd = (Inr x, d)"
  by (cases rd) (simp add: wrap_errf_def)

lemma snd_not_found_or [simp]: "snd (not_found_or f rd) = snd rd"
  by (simp add: not_found_or_def)

lemma wrap_err_Inr [simp]: "wrap_err f rd = (Inr x, d) \<longleftrightarrow> rd = (Inr x, d)"
  by (cases rd) (simp add: wrap_err_def)

lemma not_found_or_Inr [simp]: "not_found_or f rd = (Inr x, d) \<longleftrightarrow> rd = (Inr x, d)"
  by (cases rd) (simp add: not_found_or_def)

lemma wrap_err_Inl:
  "wrap_err f rd = (Inl e, d) \<longleftrightarrow> (\<exists>e'. rd = (Inl e', d) \<and> e = Wrap f [] e')"
  by (cases rd) (auto simp: wrap_err_def map_err_Inl_iff)

lemma not_found_or_Inl:
  "not_found_or f rd = (Inl e, d) \<longleftrightarrow>
     (\<exists>e'. rd = (Inl e', d) \<and> e = (if errors_Is e' sql_ErrNoRows then ErrNotFound else Wrap f [] e'))"
  by (cases rd) (auto simp: not_found_or_def map_err_Inl_iff)

lemma and_then_simps [simp]:
  "and_then (Inl e, d) k = (Inl e, d)"
  "and_then (Inr x, d) k = k x d"
  by (simp_all add: and_then_def)

lemma and_then_Inr:
  "and_then rd k = (Inr y, d') \<longleftrightarrow> (\<exists>x d. rd = (Inr x, d) \<and> k x d = (Inr y, d'))"
  by (auto simp: and_then_def split: prod.splits sum.splits)

lemma and_then_invariant:
  assumes "P (snd rd)" and "\<And>x d. rd = (Inr x, d) \<Longrightarrow> P d \<Longrightarrow> P (snd (k x d))"
  shows "P (snd (and_then rd k))"
  using assms by (auto simp: and_then_def split: prod.splits sum.splits)

lemma query_row_Inr: "query_row xs = Inr x \<longleftrightarrow> (\<exists>ys. xs = x # ys)"
  by (cases xs) auto

lemma query_row_Inl: "query_row xs = Inl e \<longleftrightarrow> xs = [] \<and> e = sql_ErrNoRows"
  by (cases xs) auto

end
