(* ===== verification/StoreIdentity.thy ===== *)
theory StoreIdentity
  imports Postgres
begin

text \<open>
  Users and committee roles: services/session-memory/store/identity.go.  Each operation is one
  SQL statement on the tables \<open>users\<close> and \<open>committee_roles\<close>.
\<close>

definition UpsertUser :: "pg \<Rightarrow> string \<Rightarrow> string \<Rightarrow> string \<Rightarrow> db \<Rightarrow> User res \<times> db" where
  "UpsertUser p slackID name email d =
     wrap_err ''store: upsert user: '' (exec p (\<lambda>n d.
       (case find (\<lambda>u. usr_SlackID u = slackID) (users d) of
          Some u \<Rightarrow>
            (let f = (\<lambda>v. v\<lparr>usr_Name := name, usr_Email := email\<rparr>)
             in Inr (f u, d\<lparr>users := upd_where (\<lambda>v. usr_SlackID v = slackID) f (users d)\<rparr>))
        | None \<Rightarrow>
            (let u = \<lparr>usr_ID = pg_uuid p n, usr_SlackID = slackID, usr_Name = name,
                      usr_Email = email, usr_CreatedAt = pg_now p n\<rparr>
             in if usr_ID u \<in> usr_ID ` set (users d) then Inl pk_violation
                else Inr (u, d\<lparr>users := users d @ [u]\<rparr>)))) d)"

definition GetUserBySlackID :: "pg \<Rightarrow> string \<Rightarrow> db \<Rightarrow> User res \<times> db" where
  "GetUserBySlackID p slackID d =
     not_found_or ''store: get user by slack id: '' (exec p (select (\<lambda>n d.
       query_row (filter (\<lambda>u. usr_SlackID u = slackID) (users d)))) d)"

definition SetCommitteeRole :: "pg \<Rightarrow> string \<Rightarrow> string \<Rightarrow> string \<Rightarrow> db \<Rightarrow> unit res \<times> db" where
  "SetCommitteeRole p userID committee role d =
     wrap_err ''store: set committee role: '' (exec p (\<lambda>n d.
       (case uuid_arg p userID of
          Inl e \<Rightarrow> Inl e
        | Inr u \<Rightarrow>
            (if \<exists>r \<in> set (committee_roles d). cr_UserID r = u \<and> cr_Committee r = committee
             then Inr ((), d\<lparr>committee_roles :=
                    upd_where (\<lambda>r. cr_UserID r = u \<and> cr_Committee r = committee)
                      (\<lambda>r. r\<lparr>cr_Role := role\<rparr>) (committee_roles d)\<rparr>)
             else if u \<notin> usr_ID ` set (users d) then Inl fk_violation
             else Inr ((), d\<lparr>committee_roles := committee_roles d @
                    [\<lparr>cr_UserID = u, cr_Committee = committee, cr_Role = role,
                      cr_CreatedAt = pg_now p n\<rparr>]\<rparr>)))) d)"

definition ListCommitteeRoles :: "pg \<Rightarrow> string \<Rightarrow> db \<Rightarrow> CommitteeRole list res \<times> db" where
  "ListCommitteeRoles p userID d =
     wrap_err ''store: list committee roles: '' (exec p (select (\<lambda>n d.
       (case uuid_arg p userID of
          Inl e \<Rightarrow> Inl e
        | Inr u \<Rightarrow> Inr (sort_key (\<lambda>r. pg_coll p (cr_Committee r))
                     (filter (\<lambda>r. cr_UserID r = u) (committee_roles d)))))) d)"

definition RemoveCommitteeRole :: "pg \<Rightarrow> string \<Rightarrow> string \<Rightarrow> db \<Rightarrow> bool res \<times> db" where
  "RemoveCommitteeRole p userID committee d =
     wrap_err ''store: remove committee role: '' (exec p (\<lambda>n d.
       (case uuid_arg p userID of
          Inl e \<Rightarrow> Inl e
        | Inr u \<Rightarrow>
            (let hit = (\<lambda>r. cr_UserID r = u \<and> cr_Committee r = committee)
             in Inr (0 < length (filter hit (committee_roles d)),
                     d\<lparr>committee_roles := filter (\<lambda>r. \<not> hit r) (committee_roles d)\<rparr>)))) d)"

subsection \<open>Round trips\<close>

text \<open>
  After a successful upsert the user is found under the Slack id with the new name and email, and
  the row that was there before keeps its id.
\<close>

lemma UpsertUser_row:
  assumes "UpsertUser p s nm em d = (Inr u, d')"
  shows "usr_SlackID u = s" "usr_Name u = nm" "usr_Email u = em" "u \<in> set (users d')"
  using assms
  by (auto simp: UpsertUser_def Let_def set_upd_where split: option.splits if_splits
      dest!: exec_Inr find_SomeD)

end
