(* ===== verification/StoreSessions.thy ===== *)
theory StoreSessions
  imports StoreIdentity
begin

text \<open>
  Sessions, conversation turns and rolling summaries:
  services/session-memory/store/sessions.go.
\<close>

text \<open>\<open>nullable\<close>: the empty string is SQL NULL, anything else a value of the column's type.\<close>

definition nullable :: "pg \<Rightarrow> string \<Rightarrow> string option res" where
  "nullable p s = (if s = [] then Inr None
                   else case uuid_arg p s of Inl e \<Rightarrow> Inl e | Inr u \<Rightarrow> Inr (Some u))"

definition scanSession :: "SessionRow \<Rightarrow> Session" where
  "scanSession r =
     \<lparr>ses_ID = sr_id r, ses_UserID = (case sr_user_id r of None \<Rightarrow> [] | Some u \<Rightarrow> u),
      ses_Channel = sr_channel r, ses_ThreadTS = sr_thread_ts r, ses_Recipe = sr_recipe r,
      ses_Status = sr_status r, ses_CreatedAt = sr_created_at r, ses_UpdatedAt = sr_updated_at r\<rparr>"

definition CreateSession ::
  "pg \<Rightarrow> string \<Rightarrow> string \<Rightarrow> string \<Rightarrow> string \<Rightarrow> db \<Rightarrow> Session res \<times> db" where
  "CreateSession p userID channel threadTS recipe d =
     wrap_err ''store: create session: '' (exec p (\<lambda>n d.
       (case nullable p userID of
          Inl e \<Rightarrow> Inl e
        | Inr u \<Rightarrow>
            (let r = \<lparr>sr_id = pg_uuid p n, sr_user_id = u, sr_channel = channel,
                      sr_thread_ts = threadTS, sr_recipe = recipe, sr_status = ''active'',
                      sr_created_at = pg_now p n, sr_updated_at = pg_now p n\<rparr>
             in if sr_id r \<in> sr_id ` set (sessions d) then Inl pk_violation
                else if fk_missing u (usr_ID ` set (users d)) then Inl fk_violation
                else Inr (scanSession r, d\<lparr>sessions := sessions d @ [r]\<rparr>)))) d)"

definition GetSession :: "pg \<Rightarrow> string \<Rightarrow> db \<Rightarrow> Session res \<times> db" where
  "GetSession p sid d =
     not_found_or ''store: get session: '' (exec p (select (\<lambda>n d.
       (case uuid_arg p sid of
          Inl e \<Rightarrow> Inl e
        | Inr u \<Rightarrow> query_row (map scanSession (filter (\<lambda>r. sr_id r = u) (sessions d)))))) d)"

definition GetSessionByThread :: "pg \<Rightarrow> string \<Rightarrow> string \<Rightarrow> db \<Rightarrow> Session res \<times> db" where
  "GetSessionByThread p channel threadTS d =
     not_found_or ''store: get session by thread: '' (exec p (select (\<lambda>n d.
       query_row (take 1 (map scanSession (sort_key (\<lambda>r. - sr_created_at r)
         (filter (\<lambda>r. sr_channel r = channel \<and> sr_thread_ts r = threadTS) (sessions d))))))) d)"

definition UpdateSessionStatus :: "pg \<Rightarrow> string \<Rightarrow> string \<Rightarrow> db \<Rightarrow> unit res \<times> db" where
  "UpdateSessionStatus p sid status d =
     (case exec p (\<lambda>n d.
         (case uuid_arg p sid of
            Inl e \<Rightarrow> Inl e
          | Inr u \<Rightarrow> Inr (length (filter (\<lambda>r. sr_id r = u) (sessions d)),
              d\<lparr>sessions := upd_where (\<lambda>r. sr_id r = u)
                  (\<lambda>r. r\<lparr>sr_status := status, sr_updated_at := pg_now p n\<rparr>) (sessions d)\<rparr>))) d of
        (Inl e, d') \<Rightarrow> (Inl (Wrap ''store: update session status: '' [] e), d')
      | (Inr k, d') \<Rightarrow> (if k = 0 then (Inl ErrNotFound, d') else (Inr (), d')))"

definition turn_role :: "string \<Rightarrow> bool" where
  "turn_role r \<longleftrightarrow> r \<in> set [''system'', ''user'', ''assistant'', ''tool'']"

definition AddTurn :: "pg \<Rightarrow> string \<Rightarrow> string \<Rightarrow> string \<Rightarrow> int \<Rightarrow> db \<Rightarrow> Turn res \<times> db" where
  "AddTurn p sessionID role content tokens d =
     wrap_err ''store: add turn: '' (exec p (\<lambda>n d.
       (case uuid_arg p sessionID of
          Inl e \<Rightarrow> Inl e
        | Inr s \<Rightarrow>
            (let t = \<lparr>trn_ID = pg_serial p n, trn_SessionID = s, trn_Role = role,
                      trn_Content = content, trn_Tokens = tokens, trn_CreatedAt = pg_now p n\<rparr>
             in if \<not> int4 tokens then Inl out_of_range
                else if \<not> turn_role role then Inl check_violation
                else if trn_ID t \<in> trn_ID ` set (turns d) then Inl pk_violation
                else if s \<notin> sr_id ` set (sessions d) then Inl fk_violation
                else Inr (t, d\<lparr>turns := turns d @ [t]\<rparr>)))) d)"

definition ListTurns :: "pg \<Rightarrow> string \<Rightarrow> int \<Rightarrow> db \<Rightarrow> Turn list res \<times> db" where
  "ListTurns p sessionID limit d =
     wrap_err ''store: list turns: '' (exec p (select (\<lambda>n d.
       (case uuid_arg p sessionID of
          Inl e \<Rightarrow> Inl e
        | Inr s \<Rightarrow>
            (let rows = filter (\<lambda>t. trn_SessionID t = s) (turns d)
             in Inr (if limit > 0
                     then sort_key trn_ID (take (nat limit) (sort_key (\<lambda>t. - trn_ID t) rows))
                     else sort_key trn_ID rows))))) d)"

definition UpsertSummary :: "pg \<Rightarrow> string \<Rightarrow> string \<Rightarrow> db \<Rightarrow> Summary res \<times> db" where
  "UpsertSummary p sessionID summary d =
     wrap_err ''store: upsert summary: '' (exec p (\<lambda>n d.
       (case uuid_arg p sessionID of
          Inl e \<Rightarrow> Inl e
        | Inr s \<Rightarrow>
            (let r = \<lparr>sum_SessionID = s, sum_Summary = summary, sum_UpdatedAt = pg_now p n\<rparr>
             in if s \<in> sum_SessionID ` set (summaries d)
                then Inr (r, d\<lparr>summaries := upd_where (\<lambda>v. sum_SessionID v = s) (\<lambda>v. r) (summaries d)\<rparr>)
                else if s \<notin> sr_id ` set (sessions d) then Inl fk_violation
                else Inr (r, d\<lparr>summaries := summaries d @ [r]\<rparr>)))) d)"

definition GetSummary :: "pg \<Rightarrow> string \<Rightarrow> db \<Rightarrow> Summary res \<times> db" where
  "GetSummary p sessionID d =
     not_found_or ''store: get summary: '' (exec p (select (\<lambda>n d.
       (case uuid_arg p sessionID of
          Inl e \<Rightarrow> Inl e
        | Inr s \<Rightarrow> query_row (filter (\<lambda>v. sum_SessionID v = s) (summaries d))))) d)"

subsection \<open>The last turns of a session\<close>

text \<open>Turns are appended with increasing ids, so each session's turns are in id order.\<close>

definition turns_ordered :: "db \<Rightarrow> bool" where
  "turns_ordered d \<longleftrightarrow> sorted_wrt (<) (map trn_ID (turns d))"

lemma ListTurns_rows:
  assumes "turns_ordered d" and "ListTurns p s limit d = (Inr ts, d')"
  obtains u where "pg_uuid_in p s = Some u"
    "ts = (let rows = filter (\<lambda>t. trn_SessionID t = u) (turns d)
           in if limit > 0 then last_n (nat limit) rows else rows)"
    "d' = d\<lparr>stmts := Suc (stmts d)\<rparr>"
proof -
  from assms(1) have srt: "\<And>u. sorted_wrt (<) (map trn_ID (filter (\<lambda>t. trn_SessionID t = u) (turns d)))"
    by (auto simp: turns_ordered_def intro: sorted_wrt_map_filter)
  have "sort_key trn_ID (take n (sort_key (\<lambda>t. - trn_ID t) (filter (\<lambda>t. trn_SessionID t = u) (turns d))))
      = last_n n (filter (\<lambda>t. trn_SessionID t = u) (turns d))" for u n
  proof -
    let ?rows = "filter (\<lambda>t. trn_SessionID t = u) (turns d)"
    have "take n (sort_key (\<lambda>t. - trn_ID t) ?rows) = rev (last_n n ?rows)"
      using srt [of u] by (simp add: sort_key_desc rev_take_rev [symmetric])
    moreover have "sort_key trn_ID (rev (last_n n ?rows)) = last_n n ?rows"
      using srt [of u] by (intro sort_key_rev_strict) (simp add: last_n_def sorted_wrt_map_drop)
    ultimately show ?thesis by simp
  qed
  with srt assms(2) show ?thesis
    by (auto simp: ListTurns_def uuid_arg_def select_def Let_def strict_sorted_sort_key
        split: option.splits sum.splits if_splits dest!: exec_Inr intro!: that)
qed

end
