(* ===== verification/StoreMemory.thy ===== *)
theory StoreMemory
  imports StoreSessions
begin

text \<open>
  Scoped long-term memory: services/session-memory/store/memory.go and the scope constants of
  store/store.go.  Tags travel as a JSON array and come back as the same list.
\<close>

definition ScopeUser :: string where "ScopeUser = ''user''"
definition ScopeCommittee :: string where "ScopeCommittee = ''committee''"
definition ScopeOrg :: string where "ScopeOrg = ''org''"

definition validScope :: "string \<Rightarrow> bool" where
  "validScope t \<longleftrightarrow> t = ScopeUser \<or> t = ScopeCommittee \<or> t = ScopeOrg"

subsection \<open>Tags on the wire\<close>

text \<open>
  The driver does not convert Postgres arrays, so tags are bound as a JSON array and read back as one.
  \<open>tagsToArraySQL\<close> is the fragment's value for the bound parameter: the elements as text, which the
  code only ever binds as strings; \<open>tags_column\<close> is the tags expression of \<open>factCols\<close>.
\<close>

definition encodeTags :: "string list \<Rightarrow> json res" where
  "encodeTags tags = (if length tags = 0 then Inr (JArr []) else Inr (JArr (map JStr tags)))"

fun json_text :: "json \<Rightarrow> string option" where
  "json_text (JStr s) = Some s"
| "json_text _ = None"

fun tagsToArraySQL :: "json \<Rightarrow> string list res" where
  "tagsToArraySQL (JArr js) =
     (case those (map json_text js) of None \<Rightarrow> Inl (External ''element is not text'') | Some ts \<Rightarrow> Inr ts)"
| "tagsToArraySQL _ = Inl (External ''cannot extract elements from a scalar'')"

definition tags_column :: "string list \<Rightarrow> json" where
  "tags_column tags = JArr (map JStr tags)"

text \<open>\<open>json.Unmarshal\<close> into a nil \<open>[]string\<close>; \<open>null\<close> leaves it nil and a null element is the empty string.\<close>

fun json_tag :: "json \<Rightarrow> string option" where
  "json_tag (JStr s) = Some s"
| "json_tag JNull = Some []"
| "json_tag _ = None"

fun decode_tags :: "json \<Rightarrow> string list res" where
  "decode_tags (JArr js) = (case those (map json_tag js) of
     None \<Rightarrow> Inl (External ''json: cannot unmarshal into Go value of type string'') | Some ts \<Rightarrow> Inr ts)"
| "decode_tags JNull = Inr []"
| "decode_tags _ = Inl (External ''json: cannot unmarshal into Go value of type []string'')"

definition scanFact :: "Fact \<Rightarrow> Fact res" where
  "scanFact row =
     (case decode_tags (tags_column (fct_Tags row)) of
        Inl e \<Rightarrow> Inl (Wrap ''store: decode tags: '' [] e)
      | Inr ts \<Rightarrow> Inr (row\<lparr>fct_Tags := ts\<rparr>))"

lemma those_map_Some: "(\<And>x. f (g x) = Some x) \<Longrightarrow> those (map (f \<circ> g) xs) = Some xs"
  by (induction xs) simp_all

text \<open>Tags come back as they were written.\<close>

lemma encodeTags_round_trip: "encodeTags tags = Inr (tags_column tags)" "tagsToArraySQL (tags_column tags) = Inr tags"
  by (simp_all add: encodeTags_def tags_column_def those_map_Some)

lemma scanFact_row [simp]: "scanFact row = Inr row"
  by (simp add: scanFact_def tags_column_def those_map_Some)

text \<open>The rows of a result set, scanned one by one until one fails.\<close>

fun scan_facts :: "Fact list \<Rightarrow> Fact list res" where
  "scan_facts [] = Inr []"
| "scan_facts (row # rows) =
     (case scanFact row of Inl e \<Rightarrow> Inl e | Inr f \<Rightarrow>
       (case scan_facts rows of Inl e \<Rightarrow> Inl e | Inr fs \<Rightarrow> Inr (f # fs)))"

lemma scan_facts_rows [simp]: "scan_facts rows = Inr rows"
  by (induction rows) simp_all

subsection \<open>The operations\<close>

definition expiresArg :: "int option \<Rightarrow> int option" where
  "expiresArg t = (case t of None \<Rightarrow> None | Some v \<Rightarrow> Some v)"

lemma expiresArg_same [simp]: "expiresArg t = t"
  by (cases t) (simp_all add: expiresArg_def)

definition WriteFact :: "pg \<Rightarrow> FactInput \<Rightarrow> db \<Rightarrow> Fact res \<times> db" where
  "WriteFact p inp d =
     (if \<not> validScope (fin_ScopeType inp)
      then (Inl (Errorf ''store: write fact: invalid scope_type %q'' [fin_ScopeType inp]), d)
      else (case encodeTags (fin_Tags inp) of
        Inl e \<Rightarrow> (Inl e, d)
      | Inr tagsJSON \<Rightarrow> wrap_err ''store: write fact: '' (exec p (\<lambda>n d.
          (case tagsToArraySQL tagsJSON of
             Inl e \<Rightarrow> Inl e
           | Inr tags \<Rightarrow>
               (let f = \<lparr>fct_ID = pg_uuid p n, fct_ScopeType = fin_ScopeType inp,
                         fct_ScopeID = fin_ScopeID inp, fct_Key = fin_Key inp, fct_Value = fin_Value inp,
                         fct_Tags = tags, fct_Source = fin_Source inp,
                         fct_CreatedAt = pg_now p n, fct_ExpiresAt = expiresArg (fin_ExpiresAt inp)\<rparr>
                in if fct_ID f \<in> fct_ID ` set (memory_facts d) then Inl pk_violation
                   else (case scanFact f of Inl e \<Rightarrow> Inl e
                     | Inr f' \<Rightarrow> Inr (f', d\<lparr>memory_facts := memory_facts d @ [f]\<rparr>))))) d)))"

lemma WriteFact_eq:
  "WriteFact p inp d =
     (if \<not> validScope (fin_ScopeType inp)
      then (Inl (Errorf ''store: write fact: invalid scope_type %q'' [fin_ScopeType inp]), d)
      else wrap_err ''store: write fact: '' (exec p (\<lambda>n d.
        (let f = \<lparr>fct_ID = pg_uuid p n, fct_ScopeType = fin_ScopeType inp,
                  fct_ScopeID = fin_ScopeID inp, fct_Key = fin_Key inp, fct_Value = fin_Value inp,
                  fct_Tags = fin_Tags inp, fct_Source = fin_Source inp,
                  fct_CreatedAt = pg_now p n, fct_ExpiresAt = fin_ExpiresAt inp\<rparr>
         in if fct_ID f \<in> fct_ID ` set (memory_facts d) then Inl pk_violation
            else Inr (f, d\<lparr>memory_facts := memory_facts d @ [f]\<rparr>))) d))"
  by (simp add: WriteFact_def encodeTags_round_trip cong: if_cong)

text \<open>The WHERE clause of a search, as the conjuncts the code appends.\<close>

definition live_at :: "int \<Rightarrow> Fact \<Rightarrow> bool" where
  "live_at now f \<longleftrightarrow> (case fct_ExpiresAt f of None \<Rightarrow> True | Some e \<Rightarrow> e > now)"

definition fact_matches :: "FactQuery \<Rightarrow> int \<Rightarrow> Fact \<Rightarrow> bool" where
  "fact_matches q now f \<longleftrightarrow>
     fct_ScopeType f = fq_ScopeType q \<and> fct_ScopeID f = fq_ScopeID q \<and>
     (if fq_IncludeExpired q then True else live_at now f) \<and>
     (if fq_Tags q \<noteq> [] then set (fct_Tags f) \<inter> set (fq_Tags q) \<noteq> {} else True)"

text \<open>The tags of a query are bound in the same way as those of a fact.\<close>

definition SearchFacts :: "pg \<Rightarrow> FactQuery \<Rightarrow> db \<Rightarrow> Fact list res \<times> db" where
  "SearchFacts p q d =
     (if \<not> validScope (fq_ScopeType q)
      then (Inl (Errorf ''store: search facts: invalid scope_type %q'' [fq_ScopeType q]), d)
      else (case encodeTags (fq_Tags q) of
        Inl e \<Rightarrow> (Inl e, d)
      | Inr tagsJSON \<Rightarrow> wrap_err ''store: search facts: '' (exec p (select (\<lambda>n d.
          (case tagsToArraySQL tagsJSON of
             Inl e \<Rightarrow> Inl e
           | Inr tags \<Rightarrow>
               (let rows = sort_key (\<lambda>f. - fct_CreatedAt f)
                             (sort_key (\<lambda>f. pg_coll p (fct_Key f))
                               (filter (fact_matches (q\<lparr>fq_Tags := tags\<rparr>) (pg_now p n)) (memory_facts d)))
                in scan_facts (if fq_Limit q > 0 then take (nat (fq_Limit q)) rows else rows))))) d)))"

lemma SearchFacts_eq:
  "SearchFacts p q d =
     (if \<not> validScope (fq_ScopeType q)
      then (Inl (Errorf ''store: search facts: invalid scope_type %q'' [fq_ScopeType q]), d)
      else wrap_err ''store: search facts: '' (exec p (select (\<lambda>n d.
        (let rows = sort_key (\<lambda>f. - fct_CreatedAt f)
                      (sort_key (\<lambda>f. pg_coll p (fct_Key f))
                        (filter (fact_matches q (pg_now p n)) (memory_facts d)))
         in Inr (if fq_Limit q > 0 then take (nat (fq_Limit q)) rows else rows)))) d))"
  by (simp add: SearchFacts_def encodeTags_round_trip)

definition ForgetFact :: "pg \<Rightarrow> string \<Rightarrow> db \<Rightarrow> bool res \<times> db" where
  "ForgetFact p fid d =
     wrap_err ''store: forget fact: '' (exec p (\<lambda>n d.
       (case uuid_arg p fid of
          Inl e \<Rightarrow> Inl e
        | Inr u \<Rightarrow> Inr (0 < length (filter (\<lambda>f. fct_ID f = u) (memory_facts d)),
                      d\<lparr>memory_facts := filter (\<lambda>f. fct_ID f \<noteq> u) (memory_facts d)\<rparr>))) d)"

definition ForgetFactsByKey :: "pg \<Rightarrow> string \<Rightarrow> string \<Rightarrow> string \<Rightarrow> db \<Rightarrow> int res \<times> db" where
  "ForgetFactsByKey p scopeType scopeID key d =
     wrap_err ''store: forget facts by key: '' (exec p (\<lambda>n d.
       (let hit = (\<lambda>f. fct_ScopeType f = scopeType \<and> fct_ScopeID f = scopeID \<and> fct_Key f = key)
        in Inr (int (length (filter hit (memory_facts d))),
                d\<lparr>memory_facts := filter (\<lambda>f. \<not> hit f) (memory_facts d)\<rparr>))) d)"

definition expired_by :: "int \<Rightarrow> Fact \<Rightarrow> bool" where
  "expired_by t f \<longleftrightarrow> (case fct_ExpiresAt f of None \<Rightarrow> False | Some e \<Rightarrow> e \<le> t)"

definition DeleteExpiredFacts :: "pg \<Rightarrow> int \<Rightarrow> db \<Rightarrow> int res \<times> db" where
  "DeleteExpiredFacts p before d =
     wrap_err ''store: delete expired facts: '' (exec p (\<lambda>n d.
       Inr (int (length (filter (expired_by before) (memory_facts d))),
            d\<lparr>memory_facts := filter (\<lambda>f. \<not> expired_by before f) (memory_facts d)\<rparr>)) d)"

subsection \<open>What a search returns\<close>

lemma live_at_iff_not_expired: "live_at t f \<longleftrightarrow> \<not> expired_by t f"
  by (auto simp: live_at_def expired_by_def split: option.splits)

lemma SearchFacts_rows:
  assumes "SearchFacts p q d = (Inr fs, d')"
  shows "validScope (fq_ScopeType q)" and "d' = d\<lparr>stmts := Suc (stmts d)\<rparr>"
    and "fs = (let rows = sort_key (\<lambda>f. - fct_CreatedAt f)
                      (sort_key (\<lambda>f. pg_coll p (fct_Key f))
                        (filter (fact_matches q (pg_now p (stmts d))) (memory_facts d)))
         in if fq_Limit q > 0 then take (nat (fq_Limit q)) rows else rows)"
  using assms
  by (auto simp: SearchFacts_eq select_def Let_def split: if_splits dest!: exec_Inr)

lemma SearchFacts_mem:
  assumes "SearchFacts p q d = (Inr fs, d')" and "f \<in> set fs"
  shows "f \<in> set (memory_facts d) \<and> fact_matches q (pg_now p (stmts d)) f"
  using SearchFacts_rows(3) [OF assms(1)] assms(2)
  by (auto simp: Let_def split: if_splits dest: in_set_takeD)

lemma SearchFacts_complete:
  assumes "SearchFacts p q d = (Inr fs, d')" and "fq_Limit q \<le> 0"
  shows "set fs = {f \<in> set (memory_facts d). fact_matches q (pg_now p (stmts d)) f}"
  using SearchFacts_rows(3) [OF assms(1)] assms(2) by (auto simp: Let_def)

lemma SearchFacts_runs:
  assumes "pg_fault p (stmts d) = None" and "validScope (fq_ScopeType q)"
  obtains fs where "SearchFacts p q d = (Inr fs, d\<lparr>stmts := Suc (stmts d)\<rparr>)"
  using assms
  by (auto simp: SearchFacts_eq exec_def select_def Let_def wrap_err_def intro: that)

lemma sorted_desc_take:
  "sorted (map (\<lambda>f. - (k f :: int)) xs) \<Longrightarrow> sorted (map (\<lambda>f. - k f) (take n xs))"
  by (metis sorted_wrt_take take_map)

lemma SearchFacts_order:
  assumes "SearchFacts p q d = (Inr fs, d')"
  shows "sorted (map (\<lambda>f. - fct_CreatedAt f) fs)"
    and "fq_Limit q > 0 \<Longrightarrow> length fs \<le> nat (fq_Limit q)"
  using SearchFacts_rows(3) [OF assms] by (auto simp: Let_def sorted_desc_take split: if_splits)

end
