(* ===== verification/StoreGovernance.thy ===== *)
theory StoreGovernance
  imports StoreMemory
begin

text \<open>
  Approvals and the audit log: services/session-memory/store/governance.go.
\<close>

definition scanApproval :: "ApprovalRow \<Rightarrow> Approval" where
  "scanApproval r =
     \<lparr>ap_ID = ar_id r, ap_SessionID = (case ar_session_id r of None \<Rightarrow> [] | Some s \<Rightarrow> s),
      ap_Tool = ar_tool r, ap_ArgsRedacted = Raw_JSON (ar_args_redacted r),
      ap_Status = ar_status r, ap_DecidedBy = ar_decided_by r, ap_DecidedAt = ar_decided_at r,
      ap_CreatedAt = ar_created_at r\<rparr>"

definition approval_status :: "string \<Rightarrow> bool" where
  "approval_status s \<longleftrightarrow> s \<in> set [''pending'', ''approved'', ''denied'', ''cancelled'']"

text \<open>The row that the INSERT in statement \<open>n\<close> adds, defaults included.\<close>

definition approval_row :: "pg \<Rightarrow> nat \<Rightarrow> string option \<Rightarrow> string \<Rightarrow> json \<Rightarrow> ApprovalRow" where
  "approval_row p n s tool j =
     \<lparr>ar_id = pg_uuid p n, ar_session_id = s, ar_tool = tool, ar_args_redacted = j,
      ar_status = ''pending'', ar_decided_by = [], ar_decided_at = None,
      ar_created_at = pg_now p n\<rparr>"

definition CreateApproval :: "pg \<Rightarrow> string \<Rightarrow> string \<Rightarrow> raw \<Rightarrow> db \<Rightarrow> Approval res \<times> db" where
  "CreateApproval p sessionID tool argsRedacted d =
     wrap_err ''store: create approval: '' (exec p (\<lambda>n d.
       (case nullable p sessionID of
          Inl e \<Rightarrow> Inl e
        | Inr s \<Rightarrow>
            (case jsonb_in (defaultJSON argsRedacted) of
               Inl e \<Rightarrow> Inl e
             | Inr j \<Rightarrow>
                 (let r = approval_row p n s tool j
                  in if ar_id r \<in> ar_id ` set (approvals d) then Inl pk_violation
                     else if fk_missing s (sr_id ` set (sessions d)) then Inl fk_violation
                     else Inr (scanApproval r, d\<lparr>approvals := approvals d @ [r]\<rparr>))))) d)"

definition GetApproval :: "pg \<Rightarrow> string \<Rightarrow> db \<Rightarrow> Approval res \<times> db" where
  "GetApproval p aid d =
     not_found_or ''store: get approval: '' (exec p (select (\<lambda>n d.
       (case uuid_arg p aid of
          Inl e \<Rightarrow> Inl e
        | Inr u \<Rightarrow> query_row (map scanApproval (filter (\<lambda>r. ar_id r = u) (approvals d)))))) d)"

definition DecideApproval :: "pg \<Rightarrow> string \<Rightarrow> string \<Rightarrow> string \<Rightarrow> db \<Rightarrow> Approval res \<times> db" where
  "DecideApproval p aid status decidedBy d =
     not_found_or ''store: decide approval: '' (exec p (\<lambda>n d.
       (case uuid_arg p aid of
          Inl e \<Rightarrow> Inl e
        | Inr u \<Rightarrow>
            (let f = (\<lambda>r. r\<lparr>ar_status := status, ar_decided_by := decidedBy,
                            ar_decided_at := Some (pg_now p n)\<rparr>)
             in case query_row (filter (\<lambda>r. ar_id r = u) (approvals d)) of
                  Inl e \<Rightarrow> Inl e
                | Inr r \<Rightarrow>
                    (if \<not> approval_status status then Inl check_violation
                     else Inr (scanApproval (f r),
                       d\<lparr>approvals := upd_where (\<lambda>r. ar_id r = u) f (approvals d)\<rparr>))))) d)"

definition ListApprovalsBySession :: "pg \<Rightarrow> string \<Rightarrow> db \<Rightarrow> Approval list res \<times> db" where
  "ListApprovalsBySession p sessionID d =
     wrap_err ''store: list approvals: '' (exec p (select (\<lambda>n d.
       (case uuid_arg p sessionID of
          Inl e \<Rightarrow> Inl e
        | Inr s \<Rightarrow> Inr (map scanApproval (sort_key (\<lambda>r. - ar_created_at r)
                     (filter (\<lambda>r. ar_session_id r = Some s) (approvals d))))))) d)"

definition ListPendingApprovals :: "pg \<Rightarrow> db \<Rightarrow> Approval list res \<times> db" where
  "ListPendingApprovals p d =
     wrap_err ''store: list approvals: '' (exec p (select (\<lambda>n d.
       Inr (map scanApproval (sort_key ar_created_at
         (filter (\<lambda>r. ar_status r = ''pending'') (approvals d)))))) d)"

definition scanAudit :: "AuditRow \<Rightarrow> AuditEntry" where
  "scanAudit r =
     \<lparr>au_ID = lr_id r, au_Actor = lr_actor r, au_Tool = lr_tool r,
      au_ArgsRedacted = Raw_JSON (lr_args_redacted r), au_Result = lr_result r,
      au_LatencyMS = lr_latency_ms r, au_CreatedAt = lr_created_at r\<rparr>"

definition audit_row :: "pg \<Rightarrow> nat \<Rightarrow> AuditInput \<Rightarrow> json \<Rightarrow> AuditRow" where
  "audit_row p n inp j =
     \<lparr>lr_id = pg_serial p n, lr_actor = ain_Actor inp, lr_tool = ain_Tool inp,
      lr_args_redacted = j, lr_result = ain_Result inp, lr_latency_ms = ain_LatencyMS inp,
      lr_created_at = pg_now p n\<rparr>"

definition WriteAudit :: "pg \<Rightarrow> AuditInput \<Rightarrow> db \<Rightarrow> AuditEntry res \<times> db" where
  "WriteAudit p inp d =
     wrap_err ''store: write audit: '' (exec p (\<lambda>n d.
       (case jsonb_in (defaultJSON (ain_ArgsRedacted inp)) of
          Inl e \<Rightarrow> Inl e
        | Inr j \<Rightarrow>
            (let r = audit_row p n inp j
             in if \<not> int4 (lr_latency_ms r) then Inl out_of_range
                else if lr_id r \<in> lr_id ` set (audit_log d) then Inl pk_violation
                else Inr (scanAudit r, d\<lparr>audit_log := audit_log d @ [r]\<rparr>)))) d)"

definition ListAudit :: "pg \<Rightarrow> int \<Rightarrow> db \<Rightarrow> AuditEntry list res \<times> db" where
  "ListAudit p limit d =
     (let limit' = (if limit \<le> 0 then 100 else limit)
      in wrap_err ''store: list audit: '' (exec p (select (\<lambda>n d.
           Inr (map scanAudit (take (nat limit') (sort_key (\<lambda>r. - lr_id r) (audit_log d)))))) d))"

definition AgeOutAudit :: "pg \<Rightarrow> int \<Rightarrow> db \<Rightarrow> int res \<times> db" where
  "AgeOutAudit p before d =
     wrap_err ''store: age out audit: '' (exec p (\<lambda>n d.
       Inr (int (length (filter (\<lambda>r. lr_created_at r < before) (audit_log d))),
            d\<lparr>audit_log := filter (\<lambda>r. \<not> lr_created_at r < before) (audit_log d)\<rparr>)) d)"

subsection \<open>What each operation does to its table\<close>

lemma approval_row_simps [simp]:
  "ar_id (approval_row p n s tool j) = pg_uuid p n"
  "ar_session_id (approval_row p n s tool j) = s"
  "ar_tool (approval_row p n s tool j) = tool"
  "ar_args_redacted (approval_row p n s tool j) = j"
  "ar_status (approval_row p n s tool j) = ''pending''"
  "ar_decided_at (approval_row p n s tool j) = None"
  by (simp_all add: approval_row_def)

lemma audit_row_simps [simp]:
  "lr_id (audit_row p n inp j) = pg_serial p n"
  "lr_actor (audit_row p n inp j) = ain_Actor inp"
  "lr_tool (audit_row p n inp j) = ain_Tool inp"
  "lr_args_redacted (audit_row p n inp j) = j"
  "lr_result (audit_row p n inp j) = ain_Result inp"
  "lr_latency_ms (audit_row p n inp j) = ain_LatencyMS inp"
  by (simp_all add: audit_row_def)

lemma CreateApproval_ok:
  assumes "CreateApproval p sid tool args d = (Inr a, d')"
  shows "\<exists>s j. nullable p sid = Inr s \<and> jsonb_in (defaultJSON args) = Inr j \<and>
    pg_uuid p (stmts d) \<notin> ar_id ` set (approvals d) \<and>
    (\<forall>v. s = Some v \<longrightarrow> v \<in> sr_id ` set (sessions d)) \<and>
    a = scanApproval (approval_row p (stmts d) s tool j) \<and>
    d' = d\<lparr>stmts := Suc (stmts d),
           approvals := approvals d @ [approval_row p (stmts d) s tool j]\<rparr>"
  using assms
  by (auto simp: CreateApproval_def Let_def split: sum.splits if_splits dest!: exec_Inr)

lemma CreateApproval_error: "CreateApproval p sid tool args d = (Inl e, d') \<Longrightarrow>
    d' = d\<lparr>stmts := Suc (stmts d)\<rparr>"
  by (auto simp: CreateApproval_def wrap_err_Inl dest: exec_Inl)

lemma DecideApproval_ok:
  assumes "DecideApproval p aid status who d = (Inr a, d')"
  obtains u where "pg_uuid_in p aid = Some u" "approval_status status"
    "u \<in> ar_id ` set (approvals d)" "ap_Status a = status" "ap_DecidedBy a = who" "ap_ID a = u"
    "d' = d\<lparr>stmts := Suc (stmts d), approvals := upd_where (\<lambda>r. ar_id r = u)
        (\<lambda>r. r\<lparr>ar_status := status, ar_decided_by := who,
                ar_decided_at := Some (pg_now p (stmts d))\<rparr>) (approvals d)\<rparr>"
proof -
  from assms obtain u r ys where "pg_uuid_in p aid = Some u" "approval_status status"
    "filter (\<lambda>r. ar_id r = u) (approvals d) = r # ys"
    "a = scanApproval (r\<lparr>ar_status := status, ar_decided_by := who,
        ar_decided_at := Some (pg_now p (stmts d))\<rparr>)"
    "d' = d\<lparr>stmts := Suc (stmts d), approvals := upd_where (\<lambda>r. ar_id r = u)
        (\<lambda>r. r\<lparr>ar_status := status, ar_decided_by := who,
                ar_decided_at := Some (pg_now p (stmts d))\<rparr>) (approvals d)\<rparr>"
    by (auto simp: DecideApproval_def Let_def uuid_arg_def query_row_Inr
        split: sum.splits if_splits option.splits dest!: exec_Inr)
  moreover from this(3) have "r \<in> set (filter (\<lambda>r. ar_id r = u) (approvals d))" by simp
  then have "r \<in> set (approvals d)" and "ar_id r = u" by simp_all
  ultimately show ?thesis by (intro that) (auto simp: scanApproval_def)
qed

lemma ListApprovalsBySession_ok:
  assumes "ListApprovalsBySession p sid d = (Inr as, d')"
  obtains u where "pg_uuid_in p sid = Some u" "d' = d\<lparr>stmts := Suc (stmts d)\<rparr>"
    "set as = scanApproval ` {r \<in> set (approvals d). ar_session_id r = Some u}"
  using assms
  by (auto simp: ListApprovalsBySession_def select_def uuid_arg_def split: option.splits sum.splits
      dest!: exec_Inr intro!: that)

lemma ListApprovalsBySession_state:
  "snd (ListApprovalsBySession p sid d) = d\<lparr>stmts := Suc (stmts d)\<rparr>"
  by (simp add: ListApprovalsBySession_def)

lemma WriteAudit_ok:
  assumes "WriteAudit p inp d = (Inr a, d')"
  shows "\<exists>j. jsonb_in (defaultJSON (ain_ArgsRedacted inp)) = Inr j \<and>
    pg_fault p (stmts d) = None \<and> int4 (ain_LatencyMS inp) \<and>
    pg_serial p (stmts d) \<notin> lr_id ` set (audit_log d) \<and>
    a = scanAudit (audit_row p (stmts d) inp j) \<and>
    d' = d\<lparr>stmts := Suc (stmts d), audit_log := audit_log d @ [audit_row p (stmts d) inp j]\<rparr>"
  using assms
  by (auto simp: WriteAudit_def Let_def split: sum.splits if_splits dest!: exec_Inr)

text \<open>
  When the audit statement runs, the row is written: the arguments must be JSON, the latency must
  fit its column and the identity column must give a new number.
\<close>

lemma WriteAudit_runs:
  assumes "pg_fault p (stmts d) = None" "jsonb_in (defaultJSON (ain_ArgsRedacted inp)) = Inr j"
    "int4 (ain_LatencyMS inp)" "pg_serial p (stmts d) \<notin> lr_id ` set (audit_log d)"
  shows "WriteAudit p inp d = (Inr (scanAudit (audit_row p (stmts d) inp j)),
    d\<lparr>stmts := Suc (stmts d), audit_log := audit_log d @ [audit_row p (stmts d) inp j]\<rparr>)"
  using assms by (simp add: WriteAudit_def exec_def Let_def wrap_err_def)

lemma WriteAudit_error: "WriteAudit p inp d = (Inl e, d') \<Longrightarrow> d' = d\<lparr>stmts := Suc (stmts d)\<rparr>"
  by (auto simp: WriteAudit_def wrap_err_Inl dest: exec_Inl)

end
