(* ===== verification/StoreRegistry.thy ===== *)
theory StoreRegistry
  imports StoreGovernance
begin

text \<open>
  The MCP server registry: services/session-memory/store/registry.go.  \<open>RegisterServer\<close> is a
  transaction of several statements; when one of them fails the tables are those before it began
  (only the count of statements sent has moved).
\<close>

definition LifecycleProposed :: string where "LifecycleProposed = ''proposed''"
definition LifecycleApproved :: string where "LifecycleApproved = ''approved''"
definition LifecycleDeprecated :: string where "LifecycleDeprecated = ''deprecated''"
definition LifecycleDisabled :: string where "LifecycleDisabled = ''disabled''"

lemmas lifecycle_defs = LifecycleProposed_def LifecycleApproved_def LifecycleDeprecated_def
  LifecycleDisabled_def

definition lifecycle_ok :: "string \<Rightarrow> bool" where
  "lifecycle_ok l \<longleftrightarrow>
     l \<in> set [LifecycleProposed, LifecycleApproved, LifecycleDeprecated, LifecycleDisabled]"

definition impact_ok :: "string \<Rightarrow> bool" where
  "impact_ok i \<longleftrightarrow> i \<in> set [''read'', ''write'', ''high'']"

subsection \<open>Reading a server\<close>

definition listTools :: "pg \<Rightarrow> string \<Rightarrow> db \<Rightarrow> Tool list res \<times> db" where
  "listTools p serverID d =
     wrap_err ''store: list tools: '' (exec p (select (\<lambda>n d.
       Inr (sort_key (\<lambda>t. pg_coll p (tl_Name t))
         (filter (\<lambda>t. tl_ServerID t = serverID) (mcp_tools d))))) d)"

definition listServerCommittees :: "pg \<Rightarrow> string \<Rightarrow> db \<Rightarrow> string list res \<times> db" where
  "listServerCommittees p serverID d =
     wrap_err ''store: list server committees: '' (exec p (select (\<lambda>n d.
       Inr (sort_key (pg_coll p)
         (map snd (filter (\<lambda>sc. fst sc = serverID) (server_committees d)))))) d)"

definition load_server :: "pg \<Rightarrow> Server \<Rightarrow> db \<Rightarrow> Server res \<times> db" where
  "load_server p s d =
     and_then (listTools p (srv_ID s) d) (\<lambda>ts d.
       and_then (listServerCommittees p (srv_ID s) d) (\<lambda>cs d.
         (Inr (s\<lparr>srv_Tools := ts, srv_Committees := cs\<rparr>), d)))"

definition GetServerByName :: "pg \<Rightarrow> string \<Rightarrow> db \<Rightarrow> Server res \<times> db" where
  "GetServerByName p name d =
     and_then (not_found_or ''store: get server: '' (exec p (select (\<lambda>n d.
         query_row (filter (\<lambda>s. srv_Name s = name) (mcp_servers d)))) d))
       (load_server p)"

fun load_servers :: "pg \<Rightarrow> Server list \<Rightarrow> db \<Rightarrow> Server list res \<times> db" where
  "load_servers p [] d = (Inr [], d)"
| "load_servers p (s # ss) d =
     and_then (load_server p s d) (\<lambda>s' d.
       and_then (load_servers p ss d) (\<lambda>ss' d. (Inr (s' # ss'), d)))"

definition ListServers :: "pg \<Rightarrow> db \<Rightarrow> Server list res \<times> db" where
  "ListServers p d =
     and_then (wrap_err ''store: list servers: '' (exec p (select (\<lambda>n d.
         Inr (sort_key (\<lambda>s. pg_coll p (srv_Name s)) (mcp_servers d)))) d))
       (load_servers p)"

subsection \<open>Registering a server\<close>

definition server_row :: "pg \<Rightarrow> nat \<Rightarrow> ServerInput \<Rightarrow> Server" where
  "server_row p n inp =
     \<lparr>srv_ID = pg_uuid p n, srv_Name = sin_Name inp, srv_Owner = sin_Owner inp,
      srv_Description = sin_Description inp, srv_Endpoint = sin_Endpoint inp,
      srv_Transport = (if sin_Transport inp = [] then ''streamable-http'' else sin_Transport inp),
      srv_Auth = (if sin_Auth inp = [] then ''bearer'' else sin_Auth inp),
      srv_Lifecycle = LifecycleProposed, srv_Enabled = True, srv_Health = ''unknown'',
      srv_CreatedAt = pg_now p n, srv_UpdatedAt = pg_now p n,
      srv_Tools = [], srv_Committees = []\<rparr>"

definition reregistered :: "pg \<Rightarrow> nat \<Rightarrow> ServerInput \<Rightarrow> Server \<Rightarrow> Server" where
  "reregistered p n inp s =
     s\<lparr>srv_Owner := sin_Owner inp, srv_Description := sin_Description inp,
       srv_Endpoint := sin_Endpoint inp,
       srv_Transport := (if sin_Transport inp = [] then ''streamable-http'' else sin_Transport inp),
       srv_Auth := (if sin_Auth inp = [] then ''bearer'' else sin_Auth inp),
       srv_UpdatedAt := pg_now p n\<rparr>"

text \<open>\<open>INSERT ... ON CONFLICT (name) DO UPDATE ... RETURNING id\<close>: lifecycle and enabled stay.\<close>

definition upsert_server :: "pg \<Rightarrow> ServerInput \<Rightarrow> string query" where
  "upsert_server p inp n d =
     (let new = server_row p n inp
      in case find (\<lambda>s. srv_Name s = sin_Name inp) (mcp_servers d) of
           Some s \<Rightarrow> Inr (srv_ID s, d\<lparr>mcp_servers :=
                       upd_where (\<lambda>s. srv_Name s = sin_Name inp) (reregistered p n inp) (mcp_servers d)\<rparr>)
         | None \<Rightarrow> (if srv_ID new \<in> srv_ID ` set (mcp_servers d) then Inl pk_violation
                    else Inr (srv_ID new, d\<lparr>mcp_servers := mcp_servers d @ [new]\<rparr>)))"

definition clear_tools :: "string \<Rightarrow> unit query" where
  "clear_tools sid n d = Inr ((), d\<lparr>mcp_tools := filter (\<lambda>t. tl_ServerID t \<noteq> sid) (mcp_tools d)\<rparr>)"

definition tool_row :: "pg \<Rightarrow> nat \<Rightarrow> string \<Rightarrow> ToolInput \<Rightarrow> Tool" where
  "tool_row p n sid t =
     \<lparr>tl_ID = pg_uuid p n, tl_ServerID = sid, tl_Name = tin_Name t,
      tl_Scope = tin_Scope t, tl_Impact = tin_Impact t\<rparr>"

definition insert_tool :: "pg \<Rightarrow> string \<Rightarrow> ToolInput \<Rightarrow> unit query" where
  "insert_tool p sid t n d =
     (let r = tool_row p n sid t
      in if \<not> impact_ok (tl_Impact r) then Inl check_violation
         else if tl_ID r \<in> tl_ID ` set (mcp_tools d) then Inl pk_violation
         else if \<exists>v \<in> set (mcp_tools d). tl_ServerID v = sid \<and> tl_Name v = tl_Name r
              then Inl pk_violation
         else if sid \<notin> srv_ID ` set (mcp_servers d) then Inl fk_violation
         else Inr ((), d\<lparr>mcp_tools := mcp_tools d @ [r]\<rparr>))"

fun insert_tools :: "pg \<Rightarrow> string \<Rightarrow> ToolInput list \<Rightarrow> db \<Rightarrow> unit res \<times> db" where
  "insert_tools p sid [] d = (Inr (), d)"
| "insert_tools p sid (t # ts) d =
     and_then (wrap_errf ''store: register server: insert tool %q: '' [tin_Name t]
         (exec p (insert_tool p sid t) d)) (\<lambda>u. insert_tools p sid ts)"

definition clear_committees :: "string \<Rightarrow> unit query" where
  "clear_committees sid n d =
     Inr ((), d\<lparr>server_committees := filter (\<lambda>sc. fst sc \<noteq> sid) (server_committees d)\<rparr>)"

definition grant_committee :: "string \<Rightarrow> string \<Rightarrow> unit query" where
  "grant_committee sid c n d =
     (if (sid, c) \<in> set (server_committees d) then Inr ((), d)
      else if sid \<notin> srv_ID ` set (mcp_servers d) then Inl fk_violation
      else Inr ((), d\<lparr>server_committees := server_committees d @ [(sid, c)]\<rparr>))"

fun grant_committees :: "pg \<Rightarrow> string \<Rightarrow> string list \<Rightarrow> db \<Rightarrow> unit res \<times> db" where
  "grant_committees p sid [] d = (Inr (), d)"
| "grant_committees p sid (c # cs) d =
     and_then (wrap_errf ''store: register server: grant committee %q: '' [c]
         (exec p (grant_committee sid c) d)) (\<lambda>u. grant_committees p sid cs)"

definition nop :: "unit query" where
  "nop n d = Inr ((), d)"

text \<open>The statements from BEGIN to COMMIT, each error with the step that failed.\<close>

definition register_tx :: "pg \<Rightarrow> ServerInput \<Rightarrow> db \<Rightarrow> unit res \<times> db" where
  "register_tx p inp d =
     and_then (wrap_err ''store: register server: begin: '' (exec p nop d)) (\<lambda>u d.
     and_then (wrap_err ''store: register server: upsert: ''
        (exec p (upsert_server p inp) d)) (\<lambda>sid d.
     and_then (wrap_err ''store: register server: clear tools: ''
        (exec p (clear_tools sid) d)) (\<lambda>u d.
     and_then (insert_tools p sid (sin_Tools inp) d) (\<lambda>u d.
     and_then (wrap_err ''store: register server: clear committees: ''
        (exec p (clear_committees sid) d)) (\<lambda>u d.
     and_then (grant_committees p sid (sin_Committees inp) d) (\<lambda>u d.
     wrap_err ''store: register server: commit: '' (exec p nop d)))))))"

definition RegisterServer :: "pg \<Rightarrow> ServerInput \<Rightarrow> db \<Rightarrow> Server res \<times> db" where
  "RegisterServer p inp d =
     (if sin_Name inp = [] \<or> sin_Endpoint inp = []
      then (Inl (Errorf ''store: register server: name and endpoint are required'' []), d)
      else case register_tx p inp d of
             (Inl e, d') \<Rightarrow> (Inl e, d\<lparr>stmts := stmts d'\<rparr>)
           | (Inr u, d') \<Rightarrow> GetServerByName p (sin_Name inp) d')"

subsection \<open>Lifecycle, kill switch, resolution and discovery\<close>

definition update_server :: "pg \<Rightarrow> string \<Rightarrow> (Server \<Rightarrow> Server) \<Rightarrow> bool \<Rightarrow> nat query" where
  "update_server p name f ok n d =
     (let k = length (filter (\<lambda>s. srv_Name s = name) (mcp_servers d))
      in if k > 0 \<and> \<not> ok then Inl check_violation
         else Inr (k, d\<lparr>mcp_servers := upd_where (\<lambda>s. srv_Name s = name)
                      (\<lambda>s. (f s)\<lparr>srv_UpdatedAt := pg_now p n\<rparr>) (mcp_servers d)\<rparr>))"

definition rows_or_not_found :: "string \<Rightarrow> nat res \<times> db \<Rightarrow> unit res \<times> db" where
  "rows_or_not_found f rd =
     (case rd of
        (Inl e, d) \<Rightarrow> (Inl (Wrap f [] e), d)
      | (Inr k, d) \<Rightarrow> (if k = 0 then (Inl ErrNotFound, d) else (Inr (), d)))"

definition SetServerLifecycle :: "pg \<Rightarrow> string \<Rightarrow> string \<Rightarrow> db \<Rightarrow> unit res \<times> db" where
  "SetServerLifecycle p name lifecycle d =
     rows_or_not_found ''store: set lifecycle: ''
       (exec p (update_server p name (\<lambda>s. s\<lparr>srv_Lifecycle := lifecycle\<rparr>) (lifecycle_ok lifecycle)) d)"

definition SetServerEnabled :: "pg \<Rightarrow> string \<Rightarrow> bool \<Rightarrow> db \<Rightarrow> unit res \<times> db" where
  "SetServerEnabled p name enabled d =
     rows_or_not_found ''store: set enabled: ''
       (exec p (update_server p name (\<lambda>s. s\<lparr>srv_Enabled := enabled\<rparr>) True) d)"

definition ResolveTool :: "pg \<Rightarrow> string \<Rightarrow> string \<Rightarrow> db \<Rightarrow> ToolBinding res \<times> db" where
  "ResolveTool p serverName toolName d =
     and_then (GetServerByName p serverName d) (\<lambda>s d.
       (case find (\<lambda>t. tl_Name t = toolName) (srv_Tools s) of
          Some t \<Rightarrow> (Inr \<lparr>tb_Server = s, tb_Tool = t\<rparr>, d)
        | None \<Rightarrow> (Inl ErrNotFound, d)))"

text \<open>The join of the three tables, with DISTINCT and ORDER BY.\<close>

definition visible_rows :: "pg \<Rightarrow> string list \<Rightarrow> db \<Rightarrow> VisibleTool list" where
  "visible_rows p committees d =
     sort_key (\<lambda>v. pg_coll p (vt_ServerName v)) (sort_key (\<lambda>v. pg_coll p (vt_ToolName v))
       (remdups
         [\<lparr>vt_ServerName = srv_Name s, vt_ServerID = srv_ID s, vt_ToolName = tl_Name t,
           vt_Scope = tl_Scope t, vt_Impact = tl_Impact t\<rparr>.
          t \<leftarrow> mcp_tools d, s \<leftarrow> mcp_servers d, srv_ID s = tl_ServerID t,
          sc \<leftarrow> server_committees d, fst sc = srv_ID s,
          srv_Lifecycle s = LifecycleApproved \<and> srv_Enabled s \<and> snd sc \<in> set committees]))"

definition ListVisibleTools :: "pg \<Rightarrow> string list \<Rightarrow> db \<Rightarrow> VisibleTool list res \<times> db" where
  "ListVisibleTools p committees d =
     (if committees = [] then (Inr [], d)
      else wrap_err ''store: list visible tools: ''
        (exec p (select (\<lambda>n d. Inr (visible_rows p committees d))) d))"

subsection \<open>Reading leaves the tables alone\<close>

lemma listTools_state [simp]: "snd (listTools p i d) = d\<lparr>stmts := Suc (stmts d)\<rparr>"
  by (simp add: listTools_def)

lemma listServerCommittees_state [simp]:
  "snd (listServerCommittees p i d) = d\<lparr>stmts := Suc (stmts d)\<rparr>"
  by (simp add: listServerCommittees_def)

lemma load_server_same: "same_tables d d0 \<Longrightarrow> same_tables d (snd (load_server p s d0))"
  unfolding load_server_def
  by (rule and_then_invariant [where P = "same_tables d"], simp,
      rule and_then_invariant [where P = "same_tables d"]) simp_all

lemma GetServerByName_same: "same_tables d (snd (GetServerByName p nm d))"
  unfolding GetServerByName_def
  by (rule and_then_invariant [where P = "same_tables d"]) (simp_all add: load_server_same)

lemma ResolveTool_same: "same_tables d (snd (ResolveTool p sn tn d))"
  unfolding ResolveTool_def
  by (rule and_then_invariant [where P = "same_tables d"])
    (auto simp: GetServerByName_same split: option.splits)

subsection \<open>What reading a server returns\<close>

definition server_view :: "pg \<Rightarrow> db \<Rightarrow> Server \<Rightarrow> Server" where
  "server_view p d s =
     s\<lparr>srv_Tools := sort_key (\<lambda>t. pg_coll p (tl_Name t))
           (filter (\<lambda>t. tl_ServerID t = srv_ID s) (mcp_tools d)),
       srv_Committees := sort_key (pg_coll p)
           (map snd (filter (\<lambda>sc. fst sc = srv_ID s) (server_committees d)))\<rparr>"

lemma server_view_simps [simp]:
  "srv_ID (server_view p d s) = srv_ID s"
  "srv_Name (server_view p d s) = srv_Name s"
  "srv_Lifecycle (server_view p d s) = srv_Lifecycle s"
  "srv_Enabled (server_view p d s) = srv_Enabled s"
  "srv_Endpoint (server_view p d s) = srv_Endpoint s"
  "set (srv_Tools (server_view p d s)) = {t \<in> set (mcp_tools d). tl_ServerID t = srv_ID s}"
  "set (srv_Committees (server_view p d s)) = {c. (srv_ID s, c) \<in> set (server_committees d)}"
  by (auto simp: server_view_def image_iff)

lemma server_view_stmts [simp]: "server_view p (d\<lparr>stmts := n\<rparr>) s = server_view p d s"
  by (simp add: server_view_def)

lemma load_server_ok:
  "load_server p s d = (Inr s', d') \<Longrightarrow>
     s' = server_view p d s \<and> d' = d\<lparr>stmts := stmts d + 2\<rparr>"
  by (auto simp: load_server_def and_then_Inr listTools_def listServerCommittees_def select_def
      server_view_def dest!: exec_Inr)

lemma load_server_runs:
  assumes "pg_fault p (stmts d) = None" "pg_fault p (Suc (stmts d)) = None"
  shows "load_server p s d = (Inr (server_view p d s), d\<lparr>stmts := stmts d + 2\<rparr>)"
  using assms
  by (simp add: load_server_def listTools_def listServerCommittees_def exec_def select_def
      wrap_err_def server_view_def)

lemma GetServerByName_ok:
  assumes "GetServerByName p nm d = (Inr s, d')"
  shows "\<exists>s0. s0 \<in> set (mcp_servers d) \<and> srv_Name s0 = nm \<and> s = server_view p d s0"
proof -
  from assms obtain s0 ys where "filter (\<lambda>s. srv_Name s = nm) (mcp_servers d) = s0 # ys"
    and "s = server_view p d s0"
    by (auto simp: GetServerByName_def and_then_Inr select_def query_row_Inr split: sum.splits
        dest!: exec_Inr load_server_ok)
  moreover from this(1) have "s0 \<in> set (filter (\<lambda>s. srv_Name s = nm) (mcp_servers d))" by simp
  then have "s0 \<in> set (mcp_servers d)" "srv_Name s0 = nm" by simp_all
  ultimately show ?thesis by blast
qed

lemma filter_find: "filter P xs = [] \<longleftrightarrow> find P xs = None"
  "find P xs = Some x \<Longrightarrow> \<exists>ys. filter P xs = x # ys"
  by (induction xs) (auto split: if_splits)

lemma GetServerByName_runs:
  assumes "\<forall>n. pg_fault p n = None" and "find (\<lambda>s. srv_Name s = nm) (mcp_servers d) = Some s0"
  shows "GetServerByName p nm d = (Inr (server_view p d s0), d\<lparr>stmts := stmts d + 3\<rparr>)"
proof -
  from filter_find(2) [OF assms(2)] obtain ys
    where "filter (\<lambda>s. srv_Name s = nm) (mcp_servers d) = s0 # ys" by blast
  with assms(1) show ?thesis
    by (simp add: GetServerByName_def exec_def select_def not_found_or_def load_server_runs)
qed

lemma GetServerByName_unknown:
  assumes "\<forall>n. pg_fault p n = None" and "find (\<lambda>s. srv_Name s = nm) (mcp_servers d) = None"
  shows "GetServerByName p nm d = (Inl ErrNotFound, d\<lparr>stmts := Suc (stmts d)\<rparr>)"
proof -
  from assms(2) have "filter (\<lambda>s. srv_Name s = nm) (mcp_servers d) = []" by (simp add: filter_find(1))
  with assms(1) show ?thesis
    by (simp add: GetServerByName_def exec_def select_def not_found_or_def sql_ErrNoRows_def)
qed

text \<open>A resolved tool is a registered tool of the registered server of that name.\<close>

lemma ResolveTool_ok:
  assumes "ResolveTool p sn tn d = (Inr b, d')"
  shows "\<exists>s0. s0 \<in> set (mcp_servers d) \<and> srv_Name s0 = sn \<and> tb_Server b = server_view p d s0 \<and>
    tb_Tool b \<in> set (mcp_tools d) \<and> tl_ServerID (tb_Tool b) = srv_ID s0 \<and> tl_Name (tb_Tool b) = tn"
proof -
  from assms obtain s d1 t where g: "GetServerByName p sn d = (Inr s, d1)"
    and t: "find (\<lambda>t. tl_Name t = tn) (srv_Tools s) = Some t"
    and b: "b = \<lparr>tb_Server = s, tb_Tool = t\<rparr>"
    by (auto simp: ResolveTool_def and_then_Inr split: option.splits)
  from GetServerByName_ok [OF g] obtain s0
    where "s0 \<in> set (mcp_servers d)" "srv_Name s0 = sn" "s = server_view p d s0" by blast
  with find_SomeD [OF t] b show ?thesis by auto
qed

subsection \<open>What registering does\<close>

definition tool_input :: "Tool \<Rightarrow> ToolInput" where
  "tool_input t = \<lparr>tin_Name = tl_Name t, tin_Scope = tl_Scope t, tin_Impact = tl_Impact t\<rparr>"

lemma tool_row_simps [simp]:
  "tl_ID (tool_row p n sid t) = pg_uuid p n" "tl_ServerID (tool_row p n sid t) = sid"
  "tl_Name (tool_row p n sid t) = tin_Name t" "tl_Impact (tool_row p n sid t) = tin_Impact t"
  "tl_Scope (tool_row p n sid t) = tin_Scope t" "tool_input (tool_row p n sid t) = t"
  by (simp_all add: tool_row_def tool_input_def)

lemma insert_tool_ok:
  assumes "exec p (insert_tool p sid t) d = (Inr u, d')"
  shows "\<exists>r. d' = d\<lparr>stmts := Suc (stmts d), mcp_tools := mcp_tools d @ [r]\<rparr> \<and>
    tool_input r = t \<and> tl_ServerID r = sid \<and> impact_ok (tl_Impact r) \<and>
    tl_ID r \<notin> tl_ID ` set (mcp_tools d) \<and>
    (\<forall>v \<in> set (mcp_tools d). tl_ServerID v = sid \<longrightarrow> tl_Name v \<noteq> tl_Name r) \<and>
    sid \<in> srv_ID ` set (mcp_servers d)"
  using assms
  by (intro exI [of _ "tool_row p (stmts d) sid t"])
    (auto simp: insert_tool_def Let_def split: if_splits dest!: exec_Inr)

lemma insert_tools_ok:
  "insert_tools p sid ts d = (Inr u, d') \<Longrightarrow>
    \<exists>new n. d' = d\<lparr>stmts := n, mcp_tools := mcp_tools d @ new\<rparr> \<and> map tool_input new = ts \<and>
      (\<forall>r \<in> set new. tl_ServerID r = sid)"
proof (induction ts arbitrary: d)
  case Nil
  then show ?case by (intro exI [of _ "[]"] exI [of _ "stmts d"]) simp
next
  case (Cons t ts)
  then obtain u1 d1 where s1: "exec p (insert_tool p sid t) d = (Inr u1, d1)"
    and s2: "insert_tools p sid ts d1 = (Inr u, d')"
    by (auto simp: and_then_Inr)
  from insert_tool_ok [OF s1] obtain r
    where r: "d1 = d\<lparr>stmts := Suc (stmts d), mcp_tools := mcp_tools d @ [r]\<rparr>"
      "tool_input r = t" "tl_ServerID r = sid" by blast
  from Cons.IH [OF s2] obtain new n
    where "d' = d1\<lparr>stmts := n, mcp_tools := mcp_tools d1 @ new\<rparr>" "map tool_input new = ts"
      "\<forall>r \<in> set new. tl_ServerID r = sid" by blast
  with r show ?case by (intro exI [of _ "r # new"] exI [of _ n]) simp
qed

lemma grant_committee_ok:
  assumes "exec p (grant_committee sid c) d = (Inr u, d')"
  shows "\<exists>gs. d' = d\<lparr>stmts := Suc (stmts d), server_committees := gs\<rparr> \<and>
    set gs = insert (sid, c) (set (server_committees d))"
proof (cases "(sid, c) \<in> set (server_committees d)")
  case True
  with assms show ?thesis
    by (intro exI [of _ "server_committees d"])
      (auto simp: grant_committee_def insert_absorb dest!: exec_Inr)
next
  case False
  with assms show ?thesis
    by (intro exI [of _ "server_committees d @ [(sid, c)]"])
      (auto simp: grant_committee_def split: if_splits dest!: exec_Inr)
qed

lemma grant_committees_ok:
  "grant_committees p sid cs d = (Inr u, d') \<Longrightarrow>
    \<exists>gs n. d' = d\<lparr>stmts := n, server_committees := gs\<rparr> \<and>
      set gs = set (server_committees d) \<union> Pair sid ` set cs"
proof (induction cs arbitrary: d)
  case Nil
  then show ?case by (intro exI [of _ "server_committees d"] exI [of _ "stmts d"]) simp
next
  case (Cons c cs)
  then obtain u1 d1 where s1: "exec p (grant_committee sid c) d = (Inr u1, d1)"
    and s2: "grant_committees p sid cs d1 = (Inr u, d')"
    by (auto simp: and_then_Inr)
  from s1 obtain g1 where d1: "d1 = d\<lparr>stmts := Suc (stmts d), server_committees := g1\<rparr>"
    and g1: "set g1 = insert (sid, c) (set (server_committees d))"
    using grant_committee_ok by blast
  from Cons.IH [OF s2] obtain gs n where "d' = d1\<lparr>stmts := n, server_committees := gs\<rparr>"
    "set gs = set (server_committees d1) \<union> Pair sid ` set cs" by blast
  with d1 g1 show ?case by (intro exI [of _ gs] exI [of _ n]) auto
qed

text \<open>
  After a successful upsert a known name keeps its id, lifecycle and kill switch; a new name has a
  fresh row that is proposed and enabled.
\<close>

lemma reregistered_simps [simp]:
  "srv_ID (reregistered p n inp s) = srv_ID s"
  "srv_Name (reregistered p n inp s) = srv_Name s"
  "srv_Lifecycle (reregistered p n inp s) = srv_Lifecycle s"
  "srv_Enabled (reregistered p n inp s) = srv_Enabled s"
  "srv_Endpoint (reregistered p n inp s) = sin_Endpoint inp"
  by (simp_all add: reregistered_def)

lemma server_row_simps [simp]:
  "srv_ID (server_row p n inp) = pg_uuid p n"
  "srv_Name (server_row p n inp) = sin_Name inp"
  "srv_Lifecycle (server_row p n inp) = LifecycleProposed"
  "srv_Enabled (server_row p n inp)"
  "srv_Endpoint (server_row p n inp) = sin_Endpoint inp"
  by (simp_all add: server_row_def)

lemma upsert_server_ok:
  assumes "exec p (upsert_server p inp) d = (Inr sid, d')"
  obtains (known) s where "find (\<lambda>s. srv_Name s = sin_Name inp) (mcp_servers d) = Some s" "sid = srv_ID s"
      "d' = d\<lparr>stmts := Suc (stmts d), mcp_servers := upd_where (\<lambda>s. srv_Name s = sin_Name inp)
           (reregistered p (stmts d) inp) (mcp_servers d)\<rparr>"
  | (fresh) "find (\<lambda>s. srv_Name s = sin_Name inp) (mcp_servers d) = None" "sid = pg_uuid p (stmts d)"
      "pg_uuid p (stmts d) \<notin> srv_ID ` set (mcp_servers d)"
      "d' = d\<lparr>stmts := Suc (stmts d), mcp_servers := mcp_servers d @ [server_row p (stmts d) inp]\<rparr>"
  using assms
  by (auto simp: upsert_server_def Let_def
      split: option.splits if_splits dest!: exec_Inr intro: that)

lemma register_tx_ok:
  assumes "register_tx p inp d = (Inr u, d')"
  obtains sid d1 new gs n where
    "exec p (upsert_server p inp) (d\<lparr>stmts := Suc (stmts d)\<rparr>) = (Inr sid, d1)"
    "d' = d1\<lparr>stmts := n,
       mcp_tools := filter (\<lambda>t. tl_ServerID t \<noteq> sid) (mcp_tools d1) @ new,
       server_committees := gs\<rparr>"
    "map tool_input new = sin_Tools inp" "\<forall>r \<in> set new. tl_ServerID r = sid"
    "set gs = {sc \<in> set (server_committees d1). fst sc \<noteq> sid} \<union> Pair sid ` set (sin_Committees inp)"
proof -
  from assms obtain u0 sid u2 u3 u4 u5 d0 d1 d2 d3 d4 d5 where
    e0: "exec p nop d = (Inr u0, d0)"
    and e1: "exec p (upsert_server p inp) d0 = (Inr sid, d1)"
    and e2: "exec p (clear_tools sid) d1 = (Inr u2, d2)"
    and e3: "insert_tools p sid (sin_Tools inp) d2 = (Inr u3, d3)"
    and e4: "exec p (clear_committees sid) d3 = (Inr u4, d4)"
    and e5: "grant_committees p sid (sin_Committees inp) d4 = (Inr u5, d5)"
    and e6: "exec p nop d5 = (Inr u, d')"
    by (auto simp: register_tx_def and_then_Inr)
  from e0 e2 e4 e6 have d0: "d0 = d\<lparr>stmts := Suc (stmts d)\<rparr>"
    and d2: "d2 = d1\<lparr>stmts := Suc (stmts d1),
        mcp_tools := filter (\<lambda>t. tl_ServerID t \<noteq> sid) (mcp_tools d1)\<rparr>"
    and d4: "d4 = d3\<lparr>stmts := Suc (stmts d3),
        server_committees := filter (\<lambda>sc. fst sc \<noteq> sid) (server_committees d3)\<rparr>"
    and d6: "d' = d5\<lparr>stmts := Suc (stmts d5)\<rparr>"
    by (auto simp: nop_def clear_tools_def clear_committees_def dest!: exec_Inr)
  from insert_tools_ok [OF e3] obtain new n3 where
    d3: "d3 = d2\<lparr>stmts := n3, mcp_tools := mcp_tools d2 @ new\<rparr>"
      "map tool_input new = sin_Tools inp" "\<forall>r \<in> set new. tl_ServerID r = sid" by blast
  from grant_committees_ok [OF e5] obtain gs n5 where
    d5: "d5 = d4\<lparr>stmts := n5, server_committees := gs\<rparr>"
      "set gs = set (server_committees d4) \<union> Pair sid ` set (sin_Committees inp)" by blast
  show ?thesis
    by (rule that [OF e1 [unfolded d0], where n = "Suc (stmts d5)" and new = new and gs = gs])
      (use d2 d3 d4 d5 d6 in auto)
qed

text \<open>An error of \<open>RegisterServer\<close> leaves every table as it was, whatever statement failed.\<close>

lemma RegisterServer_error:
  assumes "RegisterServer p inp d = (Inl e, d')" and "register_tx p inp d = (Inl e0, d0)"
  shows "same_tables d d'"
  using assms by (auto simp: RegisterServer_def split: if_splits)

end
