(* ===== verification/Gateway.thy ===== *)
theory Gateway
  imports RateLimits Redact StoreRegistry
begin

text \<open>
  The policy engine of the MCP gateway: gateway/internal/policy/gateway.go.  The two interfaces
  the engine consumes are records of functions on a store state \<open>'s\<close>: \<open>Store\<close> (which
  \<open>*store.Repository\<close> satisfies, see \<open>repo_store\<close> below) and the downstream \<open>ToolCaller\<close>, during
  which the store may change.  The state of a gateway is that store, its limiter and the sequence
  of downstream calls made so far.
\<close>

subsection \<open>Types\<close>

record Identity =
  id_Subject :: string
  id_Committees :: "string list"
  id_IsAgent :: bool

record CallRequest =
  rq_Identity :: Identity
  rq_SessionID :: string
  rq_ServerName :: string
  rq_ToolName :: string
  rq_Args :: raw

record CallResult =
  cs_Output :: raw
  cs_AuditID :: int

definition ErrUnknownTool :: goerr where
  "ErrUnknownTool = Sentinel ''gateway: unknown tool''"

definition ErrUnauthorized :: goerr where
  "ErrUnauthorized = Sentinel ''gateway: caller not authorized for tool''"

definition ErrRateLimited :: goerr where
  "ErrRateLimited = Sentinel ''gateway: rate limited''"

record 's Store =
  st_RegisterServer :: "ServerInput \<Rightarrow> 's \<Rightarrow> Server res \<times> 's"
  st_ListVisibleTools :: "string list \<Rightarrow> 's \<Rightarrow> VisibleTool list res \<times> 's"
  st_ResolveTool :: "string \<Rightarrow> string \<Rightarrow> 's \<Rightarrow> ToolBinding res \<times> 's"
  st_CreateApproval :: "string \<Rightarrow> string \<Rightarrow> raw \<Rightarrow> 's \<Rightarrow> Approval res \<times> 's"
  st_ListApprovalsBySession :: "string \<Rightarrow> 's \<Rightarrow> Approval list res \<times> 's"
  st_WriteAudit :: "AuditInput \<Rightarrow> 's \<Rightarrow> AuditEntry res \<times> 's"

type_synonym 's ToolCaller = "Server \<Rightarrow> Tool \<Rightarrow> raw \<Rightarrow> 's \<Rightarrow> raw res \<times> 's"

record 's Gateway =
  gw_store :: "'s Store"
  gw_caller :: "'s ToolCaller"
  gw_redact :: "raw \<Rightarrow> raw"

record 's gstate =
  gs_store :: 's
  gs_limiter :: "Limiter option"
  gs_calls :: "(Server \<times> Tool \<times> raw) list"

text \<open>What \<open>time.Now\<close> gives at the points of a call that read the clock.\<close>

record clock =
  ck_start :: int
  ck_committee :: int
  ck_global :: int
  ck_audit :: int

text \<open>\<open>New\<close> with \<open>WithLimiter\<close>: the engine and the state it starts from.\<close>

definition NewGateway ::
  "(string \<Rightarrow> string) \<Rightarrow> (string \<Rightarrow> string option) \<Rightarrow> 's Store \<Rightarrow> 's ToolCaller \<Rightarrow> 's Gateway" where
  "NewGateway uni num s c = \<lparr>gw_store = s, gw_caller = c, gw_redact = RedactArgs uni num\<rparr>"

definition start_gateway :: "Limiter option \<Rightarrow> 's \<Rightarrow> 's gstate" where
  "start_gateway l s = \<lparr>gs_store = s, gs_limiter = l, gs_calls = []\<rparr>"

subsection \<open>Registration and discovery\<close>

definition Register :: "'s Gateway \<Rightarrow> ServerInput \<Rightarrow> 's gstate \<Rightarrow> Server res \<times> 's gstate" where
  "Register g inp gs =
     (case st_RegisterServer (gw_store g) inp (gs_store gs) of
        (Inl e, s) \<Rightarrow> (Inl e, gs\<lparr>gs_store := s\<rparr>)
      | (Inr srv, s) \<Rightarrow>
          (let (_, s') = st_WriteAudit (gw_store g)
                 \<lparr>ain_Actor = ''registry'', ain_Tool = ''register:'' @ sin_Name inp,
                  ain_ArgsRedacted = Raw_Empty, ain_Result = ''ok'', ain_LatencyMS = 0\<rparr> s
           in (Inr srv, gs\<lparr>gs_store := s'\<rparr>)))"

definition ListTools :: "'s Gateway \<Rightarrow> Identity \<Rightarrow> 's gstate \<Rightarrow> VisibleTool list res \<times> 's gstate" where
  "ListTools g ident gs =
     (let (r, s) = st_ListVisibleTools (gw_store g) (id_Committees ident) (gs_store gs)
      in (r, gs\<lparr>gs_store := s\<rparr>))"

subsection \<open>A call\<close>

definition rateKey :: "Identity \<Rightarrow> string" where
  "rateKey ident = (if length (id_Committees ident) > 0 then id_Committees ident ! 0 else id_Subject ident)"

text \<open>The two nested loops of \<open>authorized\<close>.\<close>

definition authorized :: "Server \<Rightarrow> Identity \<Rightarrow> bool" where
  "authorized s ident \<longleftrightarrow>
     (if srv_Lifecycle s \<noteq> LifecycleApproved \<or> \<not> srv_Enabled s then False
      else list_ex (\<lambda>c. list_ex (\<lambda>granted. c = granted) (srv_Committees s)) (id_Committees ident))"

definition hasApproval :: "'s Gateway \<Rightarrow> string \<Rightarrow> string \<Rightarrow> 's \<Rightarrow> bool res \<times> 's" where
  "hasApproval g sessionID tool s =
     (if sessionID = [] then (Inr False, s)
      else and_then (wrap_err ''gateway: list approvals: ''
               (st_ListApprovalsBySession (gw_store g) sessionID s))
             (\<lambda>as s. (Inr (list_ex (\<lambda>a. ap_Tool a = tool \<and> ap_Status a = ''approved'') as), s)))"

definition audit_input :: "'s Gateway \<Rightarrow> CallRequest \<Rightarrow> string \<Rightarrow> clock \<Rightarrow> AuditInput" where
  "audit_input g req result ck =
     \<lparr>ain_Actor = id_Subject (rq_Identity req),
      ain_Tool = rq_ServerName req @ ''/'' @ rq_ToolName req,
      ain_ArgsRedacted = gw_redact g (rq_Args req), ain_Result = result,
      ain_LatencyMS = go_div (Sub (ck_audit ck) (ck_start ck)) 1000000\<rparr>"

definition audit :: "'s Gateway \<Rightarrow> CallRequest \<Rightarrow> string \<Rightarrow> clock \<Rightarrow> 's \<Rightarrow> int \<times> 's" where
  "audit g req result ck s =
     (case st_WriteAudit (gw_store g) (audit_input g req result ck) s of
        (Inl e, s') \<Rightarrow> (0, s')
      | (Inr e, s') \<Rightarrow> (au_ID e, s'))"

definition no_result :: CallResult where
  "no_result = \<lparr>cs_Output = Raw_Empty, cs_AuditID = 0\<rparr>"

text \<open>An audited refusal.\<close>

definition refuse ::
  "'s Gateway \<Rightarrow> CallRequest \<Rightarrow> clock \<Rightarrow> string \<Rightarrow> goerr \<Rightarrow> 's gstate \<Rightarrow> (CallResult \<times> goerr option) \<times> 's gstate" where
  "refuse g req ck result e gs =
     (let (_, s) = audit g req result ck (gs_store gs)
      in ((no_result, Some e), gs\<lparr>gs_store := s\<rparr>))"

text \<open>Step 4: proxy downstream and audit the outcome.\<close>

definition dispatch ::
  "'s Gateway \<Rightarrow> CallRequest \<Rightarrow> clock \<Rightarrow> ToolBinding \<Rightarrow> 's gstate \<Rightarrow> (CallResult \<times> goerr option) \<times> 's gstate" where
  "dispatch g req ck b gs =
     (let (out, s1) = gw_caller g (tb_Server b) (tb_Tool b) (rq_Args req) (gs_store gs);
          result = (case out of Inl e \<Rightarrow> ''error: '' @ Error e | Inr _ \<Rightarrow> ''ok'');
          (auditID, s2) = audit g req result ck s1;
          gs' = gs\<lparr>gs_store := s2,
                   gs_calls := gs_calls gs @ [(tb_Server b, tb_Tool b, rq_Args req)]\<rparr>
      in case out of
           Inl e \<Rightarrow> ((\<lparr>cs_Output = Raw_Empty, cs_AuditID = auditID\<rparr>,
                      Some (Wrap ''gateway: downstream call: '' [] e)), gs')
         | Inr o1 \<Rightarrow> ((\<lparr>cs_Output = o1, cs_AuditID = auditID\<rparr>, None), gs'))"

text \<open>Step 3: the approval gate of a high-impact tool.\<close>

definition gate ::
  "'s Gateway \<Rightarrow> CallRequest \<Rightarrow> clock \<Rightarrow> ToolBinding \<Rightarrow> 's gstate \<Rightarrow> (CallResult \<times> goerr option) \<times> 's gstate" where
  "gate g req ck b gs =
     (if tl_Impact (tb_Tool b) = ''high'' then
        (case hasApproval g (rq_SessionID req) (rq_ToolName req) (gs_store gs) of
           (Inl e, s) \<Rightarrow> ((no_result, Some e), gs\<lparr>gs_store := s\<rparr>)
         | (Inr True, s) \<Rightarrow> dispatch g req ck b (gs\<lparr>gs_store := s\<rparr>)
         | (Inr False, s) \<Rightarrow>
             (case st_CreateApproval (gw_store g) (rq_SessionID req) (rq_ToolName req)
                     (gw_redact g (rq_Args req)) s of
                (Inl e, s') \<Rightarrow>
                  ((no_result, Some (Wrap ''gateway: create approval: '' [] e)), gs\<lparr>gs_store := s'\<rparr>)
              | (Inr ap, s') \<Rightarrow>
                  refuse g req ck ''gated: awaiting approval''
                    (ApprovalRequiredError (ap_ID ap) (rq_ToolName req)) (gs\<lparr>gs_store := s'\<rparr>)))
      else dispatch g req ck b gs)"

text \<open>Steps 1 and 2: resolve and authorize.\<close>

definition resolve_and_authorize ::
  "'s Gateway \<Rightarrow> CallRequest \<Rightarrow> clock \<Rightarrow> 's gstate \<Rightarrow> (CallResult \<times> goerr option) \<times> 's gstate" where
  "resolve_and_authorize g req ck gs =
     (case st_ResolveTool (gw_store g) (rq_ServerName req) (rq_ToolName req) (gs_store gs) of
        (Inl e, s) \<Rightarrow>
          (if errors_Is e ErrNotFound
           then refuse g req ck ''denied: unknown tool'' ErrUnknownTool (gs\<lparr>gs_store := s\<rparr>)
           else ((no_result, Some (Wrap ''gateway: resolve tool: '' [] e)), gs\<lparr>gs_store := s\<rparr>))
      | (Inr b, s) \<Rightarrow>
          (if \<not> authorized (tb_Server b) (rq_Identity req)
           then refuse g req ck ''denied: unauthorized'' ErrUnauthorized (gs\<lparr>gs_store := s\<rparr>)
           else gate g req ck b (gs\<lparr>gs_store := s\<rparr>)))"

definition limit_step :: "clock \<Rightarrow> Identity \<Rightarrow> 's gstate \<Rightarrow> bool \<times> 's gstate" where
  "limit_step ck ident gs =
     (case gs_limiter gs of
        None \<Rightarrow> (True, gs)
      | Some l \<Rightarrow> (let (ok, l') = Limiter_Allow l (rateKey ident) (ck_committee ck) (ck_global ck)
                  in (ok, gs\<lparr>gs_limiter := Some l'\<rparr>)))"

definition Call ::
  "'s Gateway \<Rightarrow> clock \<Rightarrow> CallRequest \<Rightarrow> 's gstate \<Rightarrow> (CallResult \<times> goerr option) \<times> 's gstate" where
  "Call g ck req gs =
     (let (ok, gs1) = limit_step ck (rq_Identity req) gs
      in if \<not> ok then refuse g req ck ''denied: rate limited'' ErrRateLimited gs1
         else resolve_and_authorize g req ck gs1)"

text \<open>The repository as a \<open>Store\<close>.\<close>

definition repo_store :: "pg \<Rightarrow> db Store" where
  "repo_store p =
     \<lparr>st_RegisterServer = RegisterServer p, st_ListVisibleTools = ListVisibleTools p,
      st_ResolveTool = ResolveTool p, st_CreateApproval = CreateApproval p,
      st_ListApprovalsBySession = ListApprovalsBySession p, st_WriteAudit = WriteAudit p\<rparr>"

lemma repo_store_simps [simp]:
  "st_RegisterServer (repo_store p) = RegisterServer p"
  "st_ListVisibleTools (repo_store p) = ListVisibleTools p"
  "st_ResolveTool (repo_store p) = ResolveTool p"
  "st_CreateApproval (repo_store p) = CreateApproval p"
  "st_ListApprovalsBySession (repo_store p) = ListApprovalsBySession p"
  "st_WriteAudit (repo_store p) = WriteAudit p"
  by (simp_all add: repo_store_def)

lemmas error_defs = ErrUnknownTool_def ErrUnauthorized_def ErrRateLimited_def ErrNotFound_def
  sql_ErrNoRows_def

end
