(* ===== verification/GatewayPolicy.thy ===== *)
theory GatewayPolicy
  imports Gateway
begin

text \<open>
  What the gateway guarantees.  First the shape of a call, for any store and any downstream; then
  the contract of the store as the locale \<open>gateway_store\<close>, with the gateway's guarantees proved
  from it once; then the interpretation of that contract by the repository's own SQL operations,
  from which the properties at the end follow.
\<close>

subsection \<open>The shape of a call\<close>

lemma limit_step_frame:
  assumes "limit_step ck i gs = (ok, gs1)"
  shows "gs_store gs1 = gs_store gs" "gs_calls gs1 = gs_calls gs"
  using assms by (auto simp: limit_step_def split: option.splits prod.splits)

lemma refuse_simps [simp]:
  "gs_calls (snd (refuse g req ck res e gs)) = gs_calls gs"
  "fst (refuse g req ck res e gs) = (no_result, Some e)"
  "gs_store (snd (refuse g req ck res e gs)) = snd (audit g req res ck (gs_store gs))"
  by (auto simp: refuse_def split: prod.splits)

lemma refuse_eq:
  assumes "refuse g req ck res e gs = (r, gs')"
  shows "gs_calls gs' = gs_calls gs" "r = (no_result, Some e)"
    "gs_store gs' = snd (audit g req res ck (gs_store gs))" "gs_limiter gs' = gs_limiter gs"
  using assms by (auto simp: refuse_def split: prod.splits)

lemma refuse_result:
  "refuse g req ck res e gs = (r, gs') \<Longrightarrow> r = (no_result, Some e) \<and> gs_calls gs' = gs_calls gs"
  by (auto simp: refuse_def split: prod.splits)

lemma dispatch_calls [simp]:
  "gs_calls (snd (dispatch g req ck b gs)) = gs_calls gs @ [(tb_Server b, tb_Tool b, rq_Args req)]"
  by (auto simp: dispatch_def Let_def split: prod.splits sum.splits)

lemma dispatch_eq:
  "dispatch g req ck b gs = (r, gs') \<Longrightarrow> gs_calls gs' = gs_calls gs @ [(tb_Server b, tb_Tool b, rq_Args req)]"
  using dispatch_calls [of g req ck b gs] by simp

text \<open>
  Whatever the store and the downstream do: a call that reached a downstream server passed the
  limiter, resolved its tool to that server, was authorized on it and, for a high-impact tool,
  found an approval; and it made that one downstream call.
\<close>

lemma Call_dispatched:
  assumes call: "Call g ck req gs = (r, gs')" and ne: "gs_calls gs' \<noteq> gs_calls gs"
  obtains gs1 b s1 s2 where
    "limit_step ck (rq_Identity req) gs = (True, gs1)"
    "st_ResolveTool (gw_store g) (rq_ServerName req) (rq_ToolName req) (gs_store gs) = (Inr b, s1)"
    "authorized (tb_Server b) (rq_Identity req)"
    "tl_Impact (tb_Tool b) = ''high'' \<Longrightarrow>
       hasApproval g (rq_SessionID req) (rq_ToolName req) s1 = (Inr True, s2)"
    "tl_Impact (tb_Tool b) \<noteq> ''high'' \<Longrightarrow> s2 = s1"
    "(r, gs') = dispatch g req ck b (gs1\<lparr>gs_store := s2\<rparr>)"
proof -
  obtain ok gs1 where l: "limit_step ck (rq_Identity req) gs = (ok, gs1)" by force
  note fr = limit_step_frame [OF l]
  have ok: "ok" using call ne fr
    by (cases ok) (auto simp: Call_def l dest!: refuse_eq(1))
  with call l have call1: "resolve_and_authorize g req ck gs1 = (r, gs')" by (simp add: Call_def)
  obtain br s1 where res: "st_ResolveTool (gw_store g) (rq_ServerName req) (rq_ToolName req) (gs_store gs)
    = (br, s1)" by force
  obtain b where b: "br = Inr b" and auth: "authorized (tb_Server b) (rq_Identity req)"
    and gate: "gate g req ck b (gs1\<lparr>gs_store := s1\<rparr>) = (r, gs')"
    using ne call1 by (cases br) (auto simp: resolve_and_authorize_def res fr split: if_splits
        dest!: refuse_eq(1))
  show ?thesis
  proof (cases "tl_Impact (tb_Tool b) = ''high''")
    case False
    with that [OF l [simplified ok] res [simplified b] auth, of s1] gate show ?thesis
      by (simp add: gate_def)
  next
    case True
    obtain h s2 where h: "hasApproval g (rq_SessionID req) (rq_ToolName req) s1 = (h, s2)" by force
    have nc: "gs_calls (snd (gate g req ck b (gs1\<lparr>gs_store := s1\<rparr>))) \<noteq> gs_calls gs"
      using ne gate by simp
    have "h = Inr True"
    proof (cases h)
      case (Inr x)
      with nc True h fr show ?thesis
        by (cases x) (auto simp: gate_def split: prod.splits sum.splits)
    qed (use nc True h fr in \<open>auto simp: gate_def\<close>)
    with that [OF l [simplified ok] res [simplified b] auth, of s2] gate h True show ?thesis
      by (simp add: gate_def)
  qed
qed

lemma Call_calls:
  assumes "Call g ck req gs = (r, gs')"
  shows "gs_calls gs' = gs_calls gs \<or> (\<exists>srv t. gs_calls gs' = gs_calls gs @ [(srv, t, rq_Args req)])"
proof (cases "gs_calls gs' = gs_calls gs")
  case False
  from Call_dispatched [OF assms False] obtain gs1 b s2 where
    "limit_step ck (rq_Identity req) gs = (True, gs1)"
    "(r, gs') = dispatch g req ck b (gs1\<lparr>gs_store := s2\<rparr>)" by metis
  then have "gs_calls gs' = gs_calls gs @ [(tb_Server b, tb_Tool b, rq_Args req)]"
    using dispatch_calls [of g req ck b "gs1\<lparr>gs_store := s2\<rparr>"] limit_step_frame(2) [of ck _ gs True gs1]
    by (simp add: prod_eq_iff)
  then show ?thesis by blast
qed simp

lemma audit_store:
  "snd (audit g req res ck s) = snd (st_WriteAudit (gw_store g) (audit_input g req res ck) s)"
  by (auto simp: audit_def split: prod.splits sum.splits)

subsection \<open>The contract of the store\<close>

text \<open>
  What the engine relies on: \<open>registered s sn tn b\<close> says that the registry holds the binding \<open>b\<close>
  for the tool \<open>tn\<close> of the server \<open>sn\<close>, \<open>approved_in s sid t\<close> that the session has an approved
  approval for the tool, \<open>logged s\<close> is the audit trail.
\<close>

locale gateway_store =
  fixes st :: "'s Store"
    and registered :: "'s \<Rightarrow> string \<Rightarrow> string \<Rightarrow> ToolBinding \<Rightarrow> bool"
    and approved_in :: "'s \<Rightarrow> string \<Rightarrow> string \<Rightarrow> bool"
    and logged :: "'s \<Rightarrow> AuditInput list"
  assumes resolve_registered:
      "st_ResolveTool st sn tn s = (Inr b, s') \<Longrightarrow> registered s sn tn b"
    and resolve_frame: "st_ResolveTool st sn tn s = (x, s') \<Longrightarrow>
      approved_in s' = approved_in s \<and> logged s' = logged s"
    and list_approved: "st_ListApprovalsBySession st sid s = (Inr as, s') \<Longrightarrow>
      list_ex (\<lambda>a. ap_Tool a = t \<and> ap_Status a = ''approved'') as = approved_in s sid t"
    and list_frame: "st_ListApprovalsBySession st sid s = (y, s') \<Longrightarrow>
      approved_in s' = approved_in s \<and> logged s' = logged s"
    and create_frame: "st_CreateApproval st sid t j s = (z, s') \<Longrightarrow>
      approved_in s' = approved_in s \<and> logged s' = logged s"
    and audit_ok: "st_WriteAudit st inp s = (Inr e, s') \<Longrightarrow>
      approved_in s' = approved_in s \<and>
      logged s' = logged s @ [inp\<lparr>ain_ArgsRedacted := defaultJSON (ain_ArgsRedacted inp)\<rparr>]"
    and audit_failed: "st_WriteAudit st inp s = (Inl err, s') \<Longrightarrow>
      approved_in s' = approved_in s \<and> logged s' = logged s"
begin

definition entry :: "'s Gateway \<Rightarrow> CallRequest \<Rightarrow> clock \<Rightarrow> string \<Rightarrow> AuditInput" where
  "entry g req ck res =
     (audit_input g req res ck)\<lparr>ain_ArgsRedacted := defaultJSON (gw_redact g (rq_Args req))\<rparr>"

lemma audit_effect:
  assumes "gw_store g = st"
  shows "approved_in (snd (audit g req res ck s)) = approved_in s \<and>
    (logged (snd (audit g req res ck s)) = logged s \<or>
     logged (snd (audit g req res ck s)) = logged s @ [entry g req ck res])"
proof (cases "st_WriteAudit st (audit_input g req res ck) s")
  case (Pair r s')
  then show ?thesis
    by (cases r) (auto simp: audit_store assms entry_def audit_input_def dest: audit_ok audit_failed)
qed

lemma hasApproval_True:
  assumes "gw_store g = st" and "hasApproval g sid t s = (Inr True, s')"
  shows "sid \<noteq> []" "approved_in s sid t" "approved_in s' = approved_in s" "logged s' = logged s"
proof -
  from assms obtain as where l: "st_ListApprovalsBySession st sid s = (Inr as, s')" and ne: "sid \<noteq> []"
    and ex: "list_ex (\<lambda>a. ap_Tool a = t \<and> ap_Status a = ''approved'') as"
    by (auto simp: hasApproval_def and_then_Inr split: if_splits)
  from list_approved [OF l, of t] ex ne list_frame [OF l]
  show "sid \<noteq> []" "approved_in s sid t" "approved_in s' = approved_in s" "logged s' = logged s" by simp_all
qed

lemma hasApproval_frame:
  assumes "gw_store g = st" and "hasApproval g sid t s = (x, s')"
  shows "approved_in s' = approved_in s" "logged s' = logged s"
proof -
  obtain y s1 where l: "st_ListApprovalsBySession st sid s = (y, s1)" by force
  from assms have "s' = s \<or> s' = s1"
    by (cases y) (auto simp: hasApproval_def l wrap_err_def split: if_splits)
  with list_frame [OF l] show "approved_in s' = approved_in s" "logged s' = logged s" by auto
qed

text \<open>The gateway's safety: a downstream call happens only with authority and approval.\<close>

lemma call_safe:
  assumes "gw_store g = st" and "Call g ck req gs = (r, gs')" and "gs_calls gs' \<noteq> gs_calls gs"
  shows "\<exists>b. gs_calls gs' = gs_calls gs @ [(tb_Server b, tb_Tool b, rq_Args req)] \<and>
    registered (gs_store gs) (rq_ServerName req) (rq_ToolName req) b \<and>
    authorized (tb_Server b) (rq_Identity req) \<and>
    (tl_Impact (tb_Tool b) = ''high'' \<longrightarrow>
       rq_SessionID req \<noteq> [] \<and> approved_in (gs_store gs) (rq_SessionID req) (rq_ToolName req))"
proof -
  from Call_dispatched [OF assms(2,3)] obtain gs1 b s1 s2 where
    l: "limit_step ck (rq_Identity req) gs = (True, gs1)" and
    res: "st_ResolveTool (gw_store g) (rq_ServerName req) (rq_ToolName req) (gs_store gs) = (Inr b, s1)" and
    auth: "authorized (tb_Server b) (rq_Identity req)" and
    high: "tl_Impact (tb_Tool b) = ''high'' \<Longrightarrow>
       hasApproval g (rq_SessionID req) (rq_ToolName req) s1 = (Inr True, s2)" and
    d: "(r, gs') = dispatch g req ck b (gs1\<lparr>gs_store := s2\<rparr>)" by metis
  have "gs_calls gs' = gs_calls gs @ [(tb_Server b, tb_Tool b, rq_Args req)]"
    using dispatch_calls [of g req ck b "gs1\<lparr>gs_store := s2\<rparr>"] limit_step_frame(2) [OF l] d
    by (simp add: prod_eq_iff)
  moreover note resolve_registered [OF res [unfolded assms(1)]] auth
  moreover have "tl_Impact (tb_Tool b) = ''high'' \<longrightarrow>
      rq_SessionID req \<noteq> [] \<and> approved_in (gs_store gs) (rq_SessionID req) (rq_ToolName req)"
    using hasApproval_True [OF assms(1) high] resolve_frame [OF res [unfolded assms(1)]] by auto
  ultimately show ?thesis by blast
qed

text \<open>
  A call that did not go downstream approves nothing and leaves at most one entry in the trail,
  its own.
\<close>

lemma refuse_effect:
  assumes "gw_store g = st" and "refuse g req ck res e gs = (r, gs')"
  shows "approved_in (gs_store gs') = approved_in (gs_store gs) \<and>
    (\<exists>es. logged (gs_store gs') = logged (gs_store gs) @ es \<and> (es = [] \<or> es = [entry g req ck res]))"
  using audit_effect [OF assms(1), of req res ck "gs_store gs"] refuse_eq(3) [OF assms(2)] by auto

definition quiet :: "'s Gateway \<Rightarrow> CallRequest \<Rightarrow> clock \<Rightarrow> 's \<Rightarrow> 's \<Rightarrow> bool" where
  "quiet g req ck s s' \<longleftrightarrow> approved_in s' = approved_in s \<and>
     (\<exists>es. logged s' = logged s @ es \<and> (es = [] \<or> (\<exists>res. es = [entry g req ck res])))"

lemma quiet_refuse:
  assumes "gw_store g = st" and "refuse g req ck res e (gs\<lparr>gs_store := s\<rparr>) = (r, gs')"
    and "approved_in s = approved_in s0" "logged s = logged s0"
  shows "quiet g req ck s0 (gs_store gs')"
  using refuse_effect [OF assms(1,2)] assms(3,4) by (auto simp: quiet_def)

lemma quiet_same: "approved_in s = approved_in s0 \<Longrightarrow> logged s = logged s0 \<Longrightarrow> quiet g req ck s0 s"
  by (simp add: quiet_def)

lemma gate_quiet:
  assumes g: "gw_store g = st" and "gate g req ck b (gs\<lparr>gs_store := s\<rparr>) = (r, gs')"
    and "gs_calls gs' = gs_calls gs" and s: "approved_in s = approved_in s0" "logged s = logged s0"
  shows "quiet g req ck s0 (gs_store gs')"
proof -
  have high: "tl_Impact (tb_Tool b) = ''high''"
    using assms(2,3) by (auto simp: gate_def split: if_splits dest!: dispatch_eq)
  obtain h s1 where h: "hasApproval g (rq_SessionID req) (rq_ToolName req) s = (h, s1)" by force
  note h1 = hasApproval_frame [OF g h]
  show ?thesis
  proof (cases h)
    case (Inl e)
    with assms(2) high h h1 s show ?thesis by (auto simp: gate_def intro: quiet_same)
  next
    case (Inr x)
    with assms(2,3) high h have x: "h = Inr False"
      by (cases x) (auto simp: gate_def dest!: dispatch_eq)
    obtain c s2 where c: "st_CreateApproval st (rq_SessionID req) (rq_ToolName req)
        (gw_redact g (rq_Args req)) s1 = (c, s2)" by force
    note c1 = create_frame [OF c]
    show ?thesis
      using assms(2) high h x c c1 h1 s g
      by (cases c) (auto simp: gate_def intro: quiet_same quiet_refuse)
  qed
qed

lemma call_quiet:
  assumes g: "gw_store g = st" and c: "Call g ck req gs = (r, gs')" and "gs_calls gs' = gs_calls gs"
  shows "quiet g req ck (gs_store gs) (gs_store gs')"
proof -
  obtain ok gs1 where l: "limit_step ck (rq_Identity req) gs = (ok, gs1)" by force
  note fr = limit_step_frame [OF l]
  obtain br s1 where res: "st_ResolveTool st (rq_ServerName req) (rq_ToolName req) (gs_store gs)
    = (br, s1)" by force
  note s1 = resolve_frame [OF res]
  show ?thesis
  proof (cases "ok \<and> is_ok br")
    case False
    with c l res s1 fr g show ?thesis
      by (cases br) (auto simp: Call_def resolve_and_authorize_def split: if_splits
          intro: quiet_same quiet_refuse quiet_refuse [where s = "gs_store gs1" and gs = gs1, simplified])
  next
    case True
    then obtain b where b: "br = Inr b" "ok" by (cases br) auto
    show ?thesis
      using c l res s1 fr g b assms(3)
      by (auto simp: Call_def resolve_and_authorize_def split: if_splits
          intro: quiet_refuse gate_quiet)
  qed
qed

end

subsection \<open>The repository keeps the contract\<close>

definition registered_in :: "pg \<Rightarrow> db \<Rightarrow> string \<Rightarrow> string \<Rightarrow> ToolBinding \<Rightarrow> bool" where
  "registered_in p d sn tn b \<longleftrightarrow>
     (\<exists>s0. s0 \<in> set (mcp_servers d) \<and> srv_Name s0 = sn \<and> tb_Server b = server_view p d s0 \<and>
       tb_Tool b \<in> set (mcp_tools d) \<and> tl_ServerID (tb_Tool b) = srv_ID s0 \<and> tl_Name (tb_Tool b) = tn)"

definition approved_for :: "pg \<Rightarrow> db \<Rightarrow> string \<Rightarrow> string \<Rightarrow> bool" where
  "approved_for p d sid t \<longleftrightarrow>
     (\<exists>a \<in> set (approvals d). pg_uuid_in p sid \<noteq> None \<and> ar_session_id a = pg_uuid_in p sid \<and>
        ar_tool a = t \<and> ar_status a = ''approved'')"

definition trail_entry :: "AuditRow \<Rightarrow> AuditInput" where
  "trail_entry r = \<lparr>ain_Actor = lr_actor r, ain_Tool = lr_tool r,
     ain_ArgsRedacted = Raw_JSON (lr_args_redacted r), ain_Result = lr_result r,
     ain_LatencyMS = lr_latency_ms r\<rparr>"

definition audit_trail :: "db \<Rightarrow> AuditInput list" where
  "audit_trail d = map trail_entry (audit_log d)"

lemma trail_entry_row:
  "jsonb_in (defaultJSON (ain_ArgsRedacted inp)) = Inr j \<Longrightarrow>
     trail_entry (audit_row p n inp j) = inp\<lparr>ain_ArgsRedacted := defaultJSON (ain_ArgsRedacted inp)\<rparr>"
  by (cases "defaultJSON (ain_ArgsRedacted inp)") (auto simp: trail_entry_def)

lemma approved_for_tables: "approvals d' = approvals d \<Longrightarrow> approved_for p d' = approved_for p d"
  by (simp add: approved_for_def fun_eq_iff)

lemma approved_for_pending:
  "approvals d' = approvals d @ [approval_row p n s t j] \<Longrightarrow> approved_for p d' = approved_for p d"
  by (auto simp: approved_for_def fun_eq_iff)

lemma list_approvals_approved:
  assumes "ListApprovalsBySession p sid d = (Inr as, d')"
  shows "list_ex (\<lambda>a. ap_Tool a = t \<and> ap_Status a = ''approved'') as = approved_for p d sid t"
proof -
  obtain u where "pg_uuid_in p sid = Some u"
    "set as = scanApproval ` {r \<in> set (approvals d). ar_session_id r = Some u}"
    by (rule ListApprovalsBySession_ok [OF assms])
  then show ?thesis by (auto simp: list_ex_iff approved_for_def scanApproval_def)
qed

interpretation repo: gateway_store "repo_store p" "registered_in p" "approved_for p" audit_trail for p
proof unfold_locales
  fix sn tn s b s'
  assume "st_ResolveTool (repo_store p) sn tn s = (Inr b, s')"
  then show "registered_in p s sn tn b" using ResolveTool_ok unfolding registered_in_def by simp
next
  fix sn tn s x s'
  assume "st_ResolveTool (repo_store p) sn tn s = (x, s')"
  with ResolveTool_same [of s p sn tn] have "same_tables s s'" by simp
  from same_tablesD(7,8) [OF this] show "approved_for p s' = approved_for p s \<and> audit_trail s' = audit_trail s"
    by (auto simp: audit_trail_def intro: approved_for_tables)
next
  fix sid s as s' t
  assume "st_ListApprovalsBySession (repo_store p) sid s = (Inr as, s')"
  then show "list_ex (\<lambda>a. ap_Tool a = t \<and> ap_Status a = ''approved'') as = approved_for p s sid t"
    by (simp add: list_approvals_approved)
next
  fix sid s y s'
  assume "st_ListApprovalsBySession (repo_store p) sid s = (y, s')"
  with ListApprovalsBySession_state [of p sid s] show
    "approved_for p s' = approved_for p s \<and> audit_trail s' = audit_trail s"
    by (auto simp: audit_trail_def intro: approved_for_tables)
next
  fix sid t j s z s'
  assume "st_CreateApproval (repo_store p) sid t j s = (z, s')"
  then show "approved_for p s' = approved_for p s \<and> audit_trail s' = audit_trail s"
    by (cases z) (auto simp: audit_trail_def
        intro: approved_for_pending approved_for_tables dest!: CreateApproval_error CreateApproval_ok)
next
  fix inp s e s'
  assume "st_WriteAudit (repo_store p) inp s = (Inr e, s')"
  then show "approved_for p s' = approved_for p s \<and>
      audit_trail s' = audit_trail s @ [inp\<lparr>ain_ArgsRedacted := defaultJSON (ain_ArgsRedacted inp)\<rparr>]"
    by (auto simp: audit_trail_def trail_entry_row intro: approved_for_tables dest!: WriteAudit_ok)
next
  fix inp s err s'
  assume "st_WriteAudit (repo_store p) inp s = (Inl err, s')"
  then show "approved_for p s' = approved_for p s \<and> audit_trail s' = audit_trail s"
    by (auto simp: audit_trail_def intro: approved_for_tables dest!: WriteAudit_error)
qed

end
