(* ===== verification/StoreInvariant.thy ===== *)
theory StoreInvariant
  imports StoreRegistry
begin

text \<open>
  The schema of store/migrations as an invariant of the model's tables (primary and unique keys,
  foreign keys, CHECK constraints), kept by every operation of the repository, and the states a
  sequence of operations can reach.
\<close>

subsection \<open>The invariant, table by table\<close>

definition users_ok :: "db \<Rightarrow> bool" where
  "users_ok d \<longleftrightarrow> distinct (map usr_ID (users d)) \<and> distinct (map usr_SlackID (users d))"

definition roles_ok :: "db \<Rightarrow> bool" where
  "roles_ok d \<longleftrightarrow> distinct (map (\<lambda>r. (cr_UserID r, cr_Committee r)) (committee_roles d)) \<and>
     cr_UserID ` set (committee_roles d) \<subseteq> usr_ID ` set (users d)"

definition sessions_ok :: "db \<Rightarrow> bool" where
  "sessions_ok d \<longleftrightarrow> distinct (map sr_id (sessions d)) \<and>
     (\<forall>r \<in> set (sessions d). \<forall>u. sr_user_id r = Some u \<longrightarrow> u \<in> usr_ID ` set (users d))"

definition turns_ok :: "db \<Rightarrow> bool" where
  "turns_ok d \<longleftrightarrow> distinct (map trn_ID (turns d)) \<and>
     (\<forall>t \<in> set (turns d). turn_role (trn_Role t) \<and> int4 (trn_Tokens t) \<and>
        trn_SessionID t \<in> sr_id ` set (sessions d))"

definition summaries_ok :: "db \<Rightarrow> bool" where
  "summaries_ok d \<longleftrightarrow> distinct (map sum_SessionID (summaries d)) \<and>
     sum_SessionID ` set (summaries d) \<subseteq> sr_id ` set (sessions d)"

definition facts_ok :: "db \<Rightarrow> bool" where
  "facts_ok d \<longleftrightarrow> distinct (map fct_ID (memory_facts d)) \<and>
     (\<forall>f \<in> set (memory_facts d). validScope (fct_ScopeType f))"

definition approvals_ok :: "db \<Rightarrow> bool" where
  "approvals_ok d \<longleftrightarrow> distinct (map ar_id (approvals d)) \<and>
     (\<forall>a \<in> set (approvals d). approval_status (ar_status a) \<and>
        (\<forall>s. ar_session_id a = Some s \<longrightarrow> s \<in> sr_id ` set (sessions d)))"

definition audit_ok :: "db \<Rightarrow> bool" where
  "audit_ok d \<longleftrightarrow> distinct (map lr_id (audit_log d)) \<and>
     (\<forall>r \<in> set (audit_log d). int4 (lr_latency_ms r))"

definition servers_ok :: "db \<Rightarrow> bool" where
  "servers_ok d \<longleftrightarrow> distinct (map srv_ID (mcp_servers d)) \<and> distinct (map srv_Name (mcp_servers d)) \<and>
     (\<forall>s \<in> set (mcp_servers d). lifecycle_ok (srv_Lifecycle s))"

definition tools_ok :: "db \<Rightarrow> bool" where
  "tools_ok d \<longleftrightarrow> distinct (map tl_ID (mcp_tools d)) \<and>
     distinct (map (\<lambda>t. (tl_ServerID t, tl_Name t)) (mcp_tools d)) \<and>
     (\<forall>t \<in> set (mcp_tools d). impact_ok (tl_Impact t) \<and> tl_ServerID t \<in> srv_ID ` set (mcp_servers d))"

definition grants_ok :: "db \<Rightarrow> bool" where
  "grants_ok d \<longleftrightarrow> distinct (server_committees d) \<and>
     fst ` set (server_committees d) \<subseteq> srv_ID ` set (mcp_servers d)"

definition db_inv :: "db \<Rightarrow> bool" where
  "db_inv d \<longleftrightarrow> users_ok d \<and> roles_ok d \<and> sessions_ok d \<and> turns_ok d \<and> summaries_ok d \<and>
     facts_ok d \<and> approvals_ok d \<and> audit_ok d \<and> servers_ok d \<and> tools_ok d \<and> grants_ok d"

lemmas table_defs = users_ok_def roles_ok_def sessions_ok_def turns_ok_def summaries_ok_def
  facts_ok_def approvals_ok_def audit_ok_def servers_ok_def tools_ok_def grants_ok_def

lemma db_inv_empty: "db_inv empty_db"
  by (simp add: db_inv_def table_defs empty_db_def)

lemma db_inv_stmts [simp]: "db_inv (d\<lparr>stmts := n\<rparr>) = db_inv d"
  by (simp add: db_inv_def table_defs)

lemma db_inv_same_tables: "same_tables d d' \<Longrightarrow> db_inv d' = db_inv d"
  by (metis db_inv_stmts same_tables_def)

text \<open>A statement keeps the invariant if its query does.\<close>

lemma exec_inv:
  assumes "db_inv d" and "\<And>x d0 d1. db_inv d0 \<Longrightarrow> d0 = d\<lparr>stmts := Suc (stmts d)\<rparr> \<Longrightarrow>
      q (stmts d) d0 = Inr (x, d1) \<Longrightarrow> db_inv d1"
  shows "db_inv (snd (exec p q d))"
  using assms by (cases p q d rule: exec_cases) auto

subsection \<open>Each table change keeps the invariant\<close>

text \<open>
  Replacing one table keeps the invariant if the new rows satisfy the predicate of that table and
  the keys that other tables refer to are still there.
\<close>

lemma inv_users:
  assumes "db_inv d" "users_ok (d\<lparr>users := xs\<rparr>)" "usr_ID ` set (users d) \<subseteq> usr_ID ` set xs"
  shows "db_inv (d\<lparr>users := xs\<rparr>)"
proof -
  have "roles_ok (d\<lparr>users := xs\<rparr>)" "sessions_ok (d\<lparr>users := xs\<rparr>)"
    using assms subsetD [OF assms(3)] by (auto simp: db_inv_def roles_ok_def sessions_ok_def)
  with assms(1,2) show ?thesis by (simp add: db_inv_def table_defs)
qed

lemma inv_roles: "db_inv d \<Longrightarrow> roles_ok (d\<lparr>committee_roles := xs\<rparr>) \<Longrightarrow> db_inv (d\<lparr>committee_roles := xs\<rparr>)"
  by (simp add: db_inv_def table_defs)

lemma inv_sessions:
  assumes "db_inv d" "sessions_ok (d\<lparr>sessions := xs\<rparr>)" "sr_id ` set (sessions d) \<subseteq> sr_id ` set xs"
  shows "db_inv (d\<lparr>sessions := xs\<rparr>)"
proof -
  have "turns_ok (d\<lparr>sessions := xs\<rparr>)" "summaries_ok (d\<lparr>sessions := xs\<rparr>)"
    "approvals_ok (d\<lparr>sessions := xs\<rparr>)"
    using assms subsetD [OF assms(3)]
    by (auto simp: db_inv_def turns_ok_def summaries_ok_def approvals_ok_def)
  with assms(1,2) show ?thesis by (simp add: db_inv_def table_defs)
qed

lemma inv_turns: "db_inv d \<Longrightarrow> turns_ok (d\<lparr>turns := xs\<rparr>) \<Longrightarrow> db_inv (d\<lparr>turns := xs\<rparr>)"
  by (simp add: db_inv_def table_defs)

lemma inv_summaries: "db_inv d \<Longrightarrow> summaries_ok (d\<lparr>summaries := xs\<rparr>) \<Longrightarrow> db_inv (d\<lparr>summaries := xs\<rparr>)"
  by (simp add: db_inv_def table_defs)

lemma inv_facts: "db_inv d \<Longrightarrow> facts_ok (d\<lparr>memory_facts := xs\<rparr>) \<Longrightarrow> db_inv (d\<lparr>memory_facts := xs\<rparr>)"
  by (simp add: db_inv_def table_defs)

lemma inv_approvals: "db_inv d \<Longrightarrow> approvals_ok (d\<lparr>approvals := xs\<rparr>) \<Longrightarrow> db_inv (d\<lparr>approvals := xs\<rparr>)"
  by (simp add: db_inv_def table_defs)

lemma inv_audit: "db_inv d \<Longrightarrow> audit_ok (d\<lparr>audit_log := xs\<rparr>) \<Longrightarrow> db_inv (d\<lparr>audit_log := xs\<rparr>)"
  by (simp add: db_inv_def table_defs)

lemma inv_servers:
  assumes "db_inv d" "servers_ok (d\<lparr>mcp_servers := xs\<rparr>)"
    "srv_ID ` set (mcp_servers d) \<subseteq> srv_ID ` set xs"
  shows "db_inv (d\<lparr>mcp_servers := xs\<rparr>)"
proof -
  have "tools_ok (d\<lparr>mcp_servers := xs\<rparr>)" "grants_ok (d\<lparr>mcp_servers := xs\<rparr>)"
    using assms subsetD [OF assms(3)] by (auto simp: db_inv_def tools_ok_def grants_ok_def)
  with assms(1,2) show ?thesis by (simp add: db_inv_def table_defs)
qed

lemma inv_tools: "db_inv d \<Longrightarrow> tools_ok (d\<lparr>mcp_tools := xs\<rparr>) \<Longrightarrow> db_inv (d\<lparr>mcp_tools := xs\<rparr>)"
  by (simp add: db_inv_def table_defs)

lemma inv_grants:
  "db_inv d \<Longrightarrow> grants_ok (d\<lparr>server_committees := xs\<rparr>) \<Longrightarrow> db_inv (d\<lparr>server_committees := xs\<rparr>)"
  by (simp add: db_inv_def table_defs)

lemma db_invD:
  assumes "db_inv d"
  shows "users_ok d" "roles_ok d" "sessions_ok d" "turns_ok d" "summaries_ok d" "facts_ok d"
    "approvals_ok d" "audit_ok d" "servers_ok d" "tools_ok d" "grants_ok d"
  using assms by (simp_all add: db_inv_def)

lemma image_upd_where: "(\<And>x. k (f x) = k x) \<Longrightarrow> k ` set (upd_where P f xs) = k ` set xs"
  by (metis list.set_map map_upd_where_key')

lemma ball_upd_where:
  "(\<And>x. Q x \<Longrightarrow> P x \<Longrightarrow> Q (f x)) \<Longrightarrow> \<forall>x \<in> set xs. Q x \<Longrightarrow> \<forall>x \<in> set (upd_where P f xs). Q x"
  by (auto simp: set_upd_where)

subsection \<open>Users, roles, sessions\<close>

lemma UpsertUser_inv [inv_intros]: "db_inv d \<Longrightarrow> db_inv (snd (UpsertUser p a b c d))"
  unfolding UpsertUser_def snd_wrap_err
proof (erule exec_inv)
  fix x d0 d1
  assume inv: "db_inv d0" and q: "(case find (\<lambda>u. usr_SlackID u = a) (users d0) of
          Some u \<Rightarrow> (let f = (\<lambda>v. v\<lparr>usr_Name := b, usr_Email := c\<rparr>)
             in Inr (f u, d0\<lparr>users := upd_where (\<lambda>v. usr_SlackID v = a) f (users d0)\<rparr>))
        | None \<Rightarrow> (let u = \<lparr>usr_ID = pg_uuid p (stmts d), usr_SlackID = a, usr_Name = b,
                      usr_Email = c, usr_CreatedAt = pg_now p (stmts d)\<rparr>
             in if usr_ID u \<in> usr_ID ` set (users d0) then Inl pk_violation
                else Inr (u, d0\<lparr>users := users d0 @ [u]\<rparr>))) = Inr (x, d1)"
  with db_invD(1) [OF inv] show "db_inv d1"
    by (auto simp: Let_def users_ok_def image_upd_where find_None_iff
        split: option.splits if_splits intro!: inv_users)
qed

lemma SetCommitteeRole_inv [inv_intros]: "db_inv d \<Longrightarrow> db_inv (snd (SetCommitteeRole p a b c d))"
  unfolding SetCommitteeRole_def snd_wrap_err
  apply (erule exec_inv)
  subgoal for x d0 d1
    using db_invD(2) [of d0]
    by (auto simp: roles_ok_def image_upd_where split: if_splits sum.splits intro!: inv_roles) blast
  done

lemma RemoveCommitteeRole_inv [inv_intros]: "db_inv d \<Longrightarrow> db_inv (snd (RemoveCommitteeRole p a b d))"
  unfolding RemoveCommitteeRole_def snd_wrap_err
  apply (erule exec_inv)
  subgoal for x d0 d1
    using db_invD(2) [of d0]
    by (auto simp: roles_ok_def Let_def image_subset_iff split: sum.splits
        intro!: inv_roles distinct_map_filterI)
  done

lemma CreateSession_inv [inv_intros]: "db_inv d \<Longrightarrow> db_inv (snd (CreateSession p a b c e d))"
  unfolding CreateSession_def snd_wrap_err
  apply (erule exec_inv)
  subgoal for x d0 d1
    using db_invD(3) [of d0]
    by (auto simp: sessions_ok_def Let_def split: sum.splits if_splits intro!: inv_sessions)
  done

lemma UpdateSessionStatus_inv [inv_intros]:
  assumes "db_inv d"
  shows "db_inv (snd (UpdateSessionStatus p a b d))"
proof -
  let ?q = "\<lambda>n d. (case uuid_arg p a of
            Inl e \<Rightarrow> Inl e
          | Inr u \<Rightarrow> Inr (length (filter (\<lambda>r. sr_id r = u) (sessions d)),
              d\<lparr>sessions := upd_where (\<lambda>r. sr_id r = u)
                  (\<lambda>r. r\<lparr>sr_status := b, sr_updated_at := pg_now p n\<rparr>) (sessions d)\<rparr>))"
  have "db_inv (snd (exec p ?q d))"
    using assms
  proof (rule exec_inv)
    fix x d0 d1
    assume "db_inv d0" and "?q (stmts d) d0 = Inr (x, d1)"
    with db_invD(3) [of d0] show "db_inv d1"
      by (auto simp: sessions_ok_def image_upd_where split: sum.splits
          intro!: inv_sessions elim!: in_upd_whereE)
  qed
  moreover have "snd (UpdateSessionStatus p a b d) = snd (exec p ?q d)"
    by (simp add: UpdateSessionStatus_def split: prod.splits sum.splits)
  ultimately show ?thesis by simp
qed

lemma AddTurn_inv [inv_intros]: "db_inv d \<Longrightarrow> db_inv (snd (AddTurn p a b c e d))"
  unfolding AddTurn_def snd_wrap_err
  apply (erule exec_inv)
  subgoal for x d0 d1
    using db_invD(4) [of d0]
    by (auto simp: turns_ok_def Let_def split: sum.splits if_splits intro!: inv_turns)
  done

lemma UpsertSummary_inv [inv_intros]: "db_inv d \<Longrightarrow> db_inv (snd (UpsertSummary p a b d))"
  unfolding UpsertSummary_def snd_wrap_err
  apply (erule exec_inv)
  subgoal for x d0 d1
    using db_invD(5) [of d0]
    by (auto simp: summaries_ok_def Let_def image_subset_iff map_upd_where_key
        split: sum.splits if_splits intro!: inv_summaries elim!: in_upd_whereE)
  done

subsection \<open>Memory, approvals, audit\<close>

lemma WriteFact_inv [inv_intros]: "db_inv d \<Longrightarrow> db_inv (snd (WriteFact p i d))"
  unfolding WriteFact_eq
  apply (simp, intro impI, erule exec_inv)
  subgoal for x d0 d1
    using db_invD(6) [of d0]
    by (auto simp: facts_ok_def Let_def split: if_splits intro!: inv_facts)
  done

lemma facts_filter_inv:
  "db_inv d \<Longrightarrow> db_inv (d\<lparr>stmts := n, memory_facts := filter P (memory_facts d)\<rparr>)"
  using db_invD(6) [of d] by (auto simp: facts_ok_def intro!: inv_facts distinct_map_filterI)

lemma ForgetFact_inv [inv_intros]: "db_inv d \<Longrightarrow> db_inv (snd (ForgetFact p a d))"
  unfolding ForgetFact_def snd_wrap_err
  by (erule exec_inv) (auto split: sum.splits intro: facts_filter_inv)

lemma ForgetFactsByKey_inv [inv_intros]: "db_inv d \<Longrightarrow> db_inv (snd (ForgetFactsByKey p a b c d))"
  unfolding ForgetFactsByKey_def snd_wrap_err
  by (erule exec_inv) (auto simp: Let_def intro: facts_filter_inv)

lemma DeleteExpiredFacts_inv [inv_intros]: "db_inv d \<Longrightarrow> db_inv (snd (DeleteExpiredFacts p a d))"
  unfolding DeleteExpiredFacts_def snd_wrap_err
  by (erule exec_inv) (auto intro: facts_filter_inv)

lemma CreateApproval_inv [inv_intros]: "db_inv d \<Longrightarrow> db_inv (snd (CreateApproval p a b c d))"
  unfolding CreateApproval_def snd_wrap_err
  apply (erule exec_inv)
  subgoal for x d0 d1
    using db_invD(7) [of d0]
    by (auto simp: approvals_ok_def approval_status_def Let_def split: sum.splits if_splits
        intro!: inv_approvals)
  done

lemma DecideApproval_inv [inv_intros]: "db_inv d \<Longrightarrow> db_inv (snd (DecideApproval p a b c d))"
  unfolding DecideApproval_def snd_not_found_or
  apply (erule exec_inv)
  subgoal for x d0 d1
    using db_invD(7) [of d0]
    by (auto simp: approvals_ok_def Let_def split: sum.splits if_splits
        intro!: inv_approvals elim!: in_upd_whereE)
  done

lemma WriteAudit_inv [inv_intros]: "db_inv d \<Longrightarrow> db_inv (snd (WriteAudit p i d))"
  unfolding WriteAudit_def snd_wrap_err
  apply (erule exec_inv)
  subgoal for x d0 d1
    using db_invD(8) [of d0]
    by (auto simp: audit_ok_def Let_def split: sum.splits if_splits intro!: inv_audit)
  done

lemma AgeOutAudit_inv [inv_intros]: "db_inv d \<Longrightarrow> db_inv (snd (AgeOutAudit p a d))"
  unfolding AgeOutAudit_def snd_wrap_err
  apply (erule exec_inv)
  subgoal for x d0 d1
    using db_invD(8) [of d0]
    by (auto simp: audit_ok_def intro!: inv_audit distinct_map_filterI)
  done

subsection \<open>The registry\<close>

lemma lifecycle_ok_proposed [simp]: "lifecycle_ok LifecycleProposed"
  by (simp add: lifecycle_ok_def)

lemma upsert_server_inv: "db_inv d \<Longrightarrow> db_inv (snd (exec p (upsert_server p inp) d))"
  apply (erule exec_inv)
  subgoal for x d0 d1
    using db_invD(9) [of d0]
    by (auto simp: upsert_server_def servers_ok_def Let_def image_upd_where find_None_iff
        split: option.splits if_splits intro!: inv_servers elim!: in_upd_whereE) blast
  done

lemma clear_tools_inv: "db_inv d \<Longrightarrow> db_inv (snd (exec p (clear_tools sid) d))"
  apply (erule exec_inv)
  subgoal for x d0 d1
    using db_invD(10) [of d0]
    by (auto simp: clear_tools_def tools_ok_def intro!: inv_tools distinct_map_filterI)
  done

lemma insert_tool_inv: "db_inv d \<Longrightarrow> db_inv (snd (exec p (insert_tool p sid t) d))"
  apply (erule exec_inv)
  subgoal for x d0 d1
    using db_invD(10) [of d0]
    by (auto simp: insert_tool_def tools_ok_def Let_def split: if_splits intro!: inv_tools) blast
  done

lemma insert_tools_inv: "db_inv d \<Longrightarrow> db_inv (snd (insert_tools p sid ts d))"
proof (induction ts arbitrary: d)
  case (Cons t ts)
  show ?case
    by (simp, rule and_then_invariant [where P = db_inv])
      (simp_all add: insert_tool_inv Cons)
qed simp

lemma clear_committees_inv: "db_inv d \<Longrightarrow> db_inv (snd (exec p (clear_committees sid) d))"
  apply (erule exec_inv)
  subgoal for x d0 d1
    using db_invD(11) [of d0]
    by (auto simp: clear_committees_def grants_ok_def image_subset_iff intro!: inv_grants)
  done

lemma grant_committee_inv: "db_inv d \<Longrightarrow> db_inv (snd (exec p (grant_committee sid c) d))"
  apply (erule exec_inv)
  subgoal for x d0 d1
    using db_invD(11) [of d0]
    by (auto simp: grant_committee_def grants_ok_def split: if_splits intro!: inv_grants)
  done

lemma grant_committees_inv: "db_inv d \<Longrightarrow> db_inv (snd (grant_committees p sid cs d))"
proof (induction cs arbitrary: d)
  case (Cons c cs)
  show ?case
    by (simp, rule and_then_invariant [where P = db_inv])
      (simp_all add: grant_committee_inv Cons)
qed simp

lemma nop_inv: "db_inv d \<Longrightarrow> db_inv (snd (exec p nop d))"
  by (erule exec_inv) (auto simp: nop_def)

lemmas register_invs = upsert_server_inv clear_tools_inv insert_tools_inv clear_committees_inv
  grant_committees_inv nop_inv

lemma register_tx_inv:
  assumes "db_inv d"
  shows "db_inv (snd (register_tx p inp d))"
  unfolding register_tx_def
  by (rule and_then_invariant [where P = db_inv], simp add: register_invs assms,
      rule and_then_invariant [where P = db_inv], simp add: register_invs,
      rule and_then_invariant [where P = db_inv], simp add: register_invs,
      rule and_then_invariant [where P = db_inv], simp add: register_invs,
      rule and_then_invariant [where P = db_inv], simp add: register_invs,
      rule and_then_invariant [where P = db_inv], simp add: register_invs,
      simp add: register_invs)

lemma RegisterServer_inv [inv_intros]:
  assumes "db_inv d"
  shows "db_inv (snd (RegisterServer p inp d))"
proof (cases "register_tx p inp d")
  case (Pair r d1)
  with register_tx_inv [OF assms, of p inp] have d1: "db_inv d1" by simp
  have "db_inv (snd (GetServerByName p nm d1))" for nm
    using db_inv_same_tables [OF GetServerByName_same [of d1 p nm]] d1 by simp
  with Pair assms show ?thesis
    by (cases r) (auto simp: RegisterServer_def)
qed

lemma snd_rows_or_not_found [simp]: "snd (rows_or_not_found f rd) = snd rd"
  by (auto simp: rows_or_not_found_def split: prod.splits sum.splits)

lemma update_server_inv:
  assumes "db_inv d" and "ok \<Longrightarrow> \<forall>s. lifecycle_ok (srv_Lifecycle s) \<longrightarrow> lifecycle_ok (srv_Lifecycle (f s))"
    and "\<forall>s. srv_ID (f s) = srv_ID s \<and> srv_Name (f s) = srv_Name s"
  shows "db_inv (snd (exec p (update_server p nm f ok) d))"
  using assms(1)
proof (rule exec_inv)
  fix x d0 d1
  assume inv: "db_inv d0" and q: "update_server p nm f ok (stmts d) d0 = Inr (x, d1)"
  let ?f = "\<lambda>s. (f s)\<lparr>srv_UpdatedAt := pg_now p (stmts d)\<rparr>"
  from q have d1: "d1 = d0\<lparr>mcp_servers := upd_where (\<lambda>s. srv_Name s = nm) ?f (mcp_servers d0)\<rparr>"
    and ok: "ok \<or> filter (\<lambda>s. srv_Name s = nm) (mcp_servers d0) = []"
    by (auto simp: update_server_def Let_def split: if_splits)
  have "lifecycle_ok (srv_Lifecycle s)" if "s \<in> set (mcp_servers d1)" for s
    using that db_invD(9) [OF inv] ok assms(2)
    by (auto simp: d1 servers_ok_def filter_empty_conv elim!: in_upd_whereE)
  then have "servers_ok d1"
    using db_invD(9) [OF inv] assms(3) by (auto simp: d1 servers_ok_def)
  with inv assms(3) show "db_inv d1" unfolding d1
    by (intro inv_servers) (auto simp: image_upd_where)
qed

lemma SetServerLifecycle_inv [inv_intros]: "db_inv d \<Longrightarrow> db_inv (snd (SetServerLifecycle p nm l d))"
  unfolding SetServerLifecycle_def snd_rows_or_not_found by (rule update_server_inv) auto

lemma SetServerEnabled_inv [inv_intros]: "db_inv d \<Longrightarrow> db_inv (snd (SetServerEnabled p nm b d))"
  unfolding SetServerEnabled_def snd_rows_or_not_found by (rule update_server_inv) auto

subsection \<open>Reachable states\<close>

text \<open>
  One step is one operation of the repository, with any arguments and whatever the database
  server \<open>p\<close> answers; a query moves only the statement count.
\<close>

inductive db_step :: "pg \<Rightarrow> db \<Rightarrow> db \<Rightarrow> bool" for p where
  read: "n \<ge> stmts d \<Longrightarrow> db_step p d (d\<lparr>stmts := n\<rparr>)"
| UpsertUser: "db_step p d (snd (UpsertUser p slackID name email d))"
| SetCommitteeRole: "db_step p d (snd (SetCommitteeRole p userID committee role d))"
| RemoveCommitteeRole: "db_step p d (snd (RemoveCommitteeRole p userID committee d))"
| CreateSession: "db_step p d (snd (CreateSession p userID channel threadTS recipe d))"
| UpdateSessionStatus: "db_step p d (snd (UpdateSessionStatus p sid status d))"
| AddTurn: "db_step p d (snd (AddTurn p sid role content tokens d))"
| UpsertSummary: "db_step p d (snd (UpsertSummary p sid summary d))"
| WriteFact: "db_step p d (snd (WriteFact p fin d))"
| ForgetFact: "db_step p d (snd (ForgetFact p fid d))"
| ForgetFactsByKey: "db_step p d (snd (ForgetFactsByKey p scopeType scopeID key d))"
| DeleteExpiredFacts: "db_step p d (snd (DeleteExpiredFacts p before d))"
| CreateApproval: "db_step p d (snd (CreateApproval p sid tool args d))"
| DecideApproval: "db_step p d (snd (DecideApproval p aid status decidedBy d))"
| WriteAudit: "db_step p d (snd (WriteAudit p ain d))"
| AgeOutAudit: "db_step p d (snd (AgeOutAudit p before d))"
| RegisterServer: "db_step p d (snd (RegisterServer p sin d))"
| SetServerLifecycle: "db_step p d (snd (SetServerLifecycle p name lifecycle d))"
| SetServerEnabled: "db_step p d (snd (SetServerEnabled p name enabled d))"

inductive reachable :: "pg \<Rightarrow> db \<Rightarrow> bool" for p where
  init: "reachable p empty_db"
| step: "reachable p d \<Longrightarrow> db_step p d d' \<Longrightarrow> reachable p d'"

lemma db_step_inv: "db_step p d d' \<Longrightarrow> db_inv d \<Longrightarrow> db_inv d'"
  by (induction rule: db_step.induct) (auto intro: inv_intros)

lemma reachable_inv: "reachable p d \<Longrightarrow> db_inv d"
  by (induction rule: reachable.induct) (auto intro: db_inv_empty db_step_inv)

subsection \<open>Identity columns grow\<close>

text \<open>
  \<open>GENERATED ALWAYS AS IDENTITY\<close> gives a larger number in a later statement; then the rows of
  \<open>turns\<close> and \<open>audit_log\<close> are in the order of their ids.
\<close>

definition from_serial :: "pg \<Rightarrow> db \<Rightarrow> int list \<Rightarrow> bool" where
  "from_serial p d ids \<longleftrightarrow> sorted_wrt (<) ids \<and> (\<forall>i \<in> set ids. \<exists>n < stmts d. i = pg_serial p n)"

definition serial_inv :: "pg \<Rightarrow> db \<Rightarrow> bool" where
  "serial_inv p d \<longleftrightarrow>
     from_serial p d (map trn_ID (turns d)) \<and> from_serial p d (map lr_id (audit_log d))"

definition keeps_serials :: "db \<Rightarrow> db \<Rightarrow> bool" where
  "keeps_serials d d' \<longleftrightarrow> turns d' = turns d \<and> audit_log d' = audit_log d \<and> stmts d \<le> stmts d'"

lemma keeps_serials_refl [simp]: "keeps_serials d d"
  by (simp add: keeps_serials_def)

lemma from_serial_later: "from_serial p d ids \<Longrightarrow> stmts d \<le> stmts d' \<Longrightarrow> from_serial p d' ids"
  by (meson from_serial_def less_le_trans)

lemma from_serial_append:
  assumes "strict_mono (pg_serial p)" "from_serial p d ids" "stmts d' = Suc (stmts d)"
  shows "from_serial p d' (ids @ [pg_serial p (stmts d)])"
  using assms
  by (auto simp: from_serial_def sorted_wrt_append strict_mono_less less_Suc_eq_le
      dest: less_imp_le split: if_splits)

lemma from_serial_filter:
  "from_serial p d (map k xs) \<Longrightarrow> from_serial p d (map k (filter P xs))"
  by (auto simp: from_serial_def sorted_wrt_map_filter)

lemma keeps_serials_inv: "keeps_serials d d' \<Longrightarrow> serial_inv p d \<Longrightarrow> serial_inv p d'"
  by (auto simp: keeps_serials_def serial_inv_def intro: from_serial_later)

lemma exec_keeps:
  assumes "\<And>x d1. q (stmts d) (d\<lparr>stmts := Suc (stmts d)\<rparr>) = Inr (x, d1) \<Longrightarrow>
      keeps_serials (d\<lparr>stmts := Suc (stmts d)\<rparr>) d1"
  shows "keeps_serials d (snd (exec p q d))"
proof (cases p q d rule: exec_cases)
  case (ran x d1)
  with assms show ?thesis by (fastforce simp: keeps_serials_def)
qed (simp_all add: keeps_serials_def)

lemma keeps_trans: "keeps_serials a b \<Longrightarrow> keeps_serials b c \<Longrightarrow> keeps_serials a c"
  by (auto simp: keeps_serials_def)

lemma UpdateSessionStatus_keeps: "keeps_serials d (snd (UpdateSessionStatus p a b d))"
proof -
  have "snd (UpdateSessionStatus p a b d) = snd (exec p (\<lambda>n d. (case uuid_arg p a of
            Inl e \<Rightarrow> Inl e
          | Inr u \<Rightarrow> Inr (length (filter (\<lambda>r. sr_id r = u) (sessions d)),
              d\<lparr>sessions := upd_where (\<lambda>r. sr_id r = u)
                  (\<lambda>r. r\<lparr>sr_status := b, sr_updated_at := pg_now p n\<rparr>) (sessions d)\<rparr>))) d)"
    by (simp add: UpdateSessionStatus_def split: prod.splits sum.splits)
  also have "keeps_serials d \<dots>"
    by (rule exec_keeps) (auto simp: keeps_serials_def split: sum.splits)
  finally show ?thesis .
qed

lemma insert_tools_keeps: "keeps_serials d d0 \<Longrightarrow> keeps_serials d (snd (insert_tools p sid ts d0))"
proof (induction ts arbitrary: d0)
  case (Cons t ts)
  have "keeps_serials d (snd (exec p (insert_tool p sid t) d0))"
    by (rule keeps_trans [OF Cons.prems exec_keeps])
      (auto simp: keeps_serials_def insert_tool_def Let_def split: if_splits)
  then show ?case
    by (simp, intro and_then_invariant [where P = "keeps_serials d"]) (auto intro: Cons.IH)
qed simp

lemma grant_committees_keeps: "keeps_serials d d0 \<Longrightarrow> keeps_serials d (snd (grant_committees p sid cs d0))"
proof (induction cs arbitrary: d0)
  case (Cons c cs)
  have "keeps_serials d (snd (exec p (grant_committee sid c) d0))"
    by (rule keeps_trans [OF Cons.prems exec_keeps])
      (auto simp: keeps_serials_def grant_committee_def split: if_splits)
  then show ?case
    by (simp, intro and_then_invariant [where P = "keeps_serials d"]) (auto intro: Cons.IH)
qed simp

lemma register_queries_keep:
  assumes "keeps_serials d d0"
  shows "keeps_serials d (snd (exec p nop d0))" "keeps_serials d (snd (exec p (upsert_server p inp) d0))"
    "keeps_serials d (snd (exec p (clear_tools sid) d0))"
    "keeps_serials d (snd (exec p (clear_committees sid) d0))"
  by (rule keeps_trans [OF assms exec_keeps],
      force simp: keeps_serials_def nop_def upsert_server_def clear_tools_def clear_committees_def
        Let_def split: option.splits if_splits)+

lemma register_tx_keeps: "keeps_serials d (snd (register_tx p inp d))"
  unfolding register_tx_def
  by (rule and_then_invariant [where P = "keeps_serials d"], simp add: register_queries_keep,
      rule and_then_invariant [where P = "keeps_serials d"], simp add: register_queries_keep,
      rule and_then_invariant [where P = "keeps_serials d"], simp add: register_queries_keep,
      rule and_then_invariant [where P = "keeps_serials d"], simp add: insert_tools_keeps,
      rule and_then_invariant [where P = "keeps_serials d"], simp add: register_queries_keep,
      rule and_then_invariant [where P = "keeps_serials d"], simp add: grant_committees_keeps,
      simp add: register_queries_keep)

lemma load_server_keeps: "keeps_serials d d0 \<Longrightarrow> keeps_serials d (snd (load_server p s d0))"
  unfolding load_server_def
  by (rule and_then_invariant [where P = "keeps_serials d"], simp add: keeps_serials_def,
      rule and_then_invariant [where P = "keeps_serials d"]) (simp_all add: keeps_serials_def)

lemma GetServerByName_keeps: "keeps_serials d (snd (GetServerByName p nm d))"
  unfolding GetServerByName_def
  by (rule and_then_invariant [where P = "keeps_serials d"])
    (simp_all add: load_server_keeps keeps_serials_def [of d "d\<lparr>stmts := n\<rparr>" for n])

lemma RegisterServer_keeps: "keeps_serials d (snd (RegisterServer p inp d))"
proof (cases "register_tx p inp d")
  case (Pair r d1)
  with register_tx_keeps [of d p inp] have d1: "keeps_serials d d1" by simp
  from keeps_trans [OF d1 GetServerByName_keeps] d1 Pair show ?thesis
    by (cases r) (auto simp: RegisterServer_def keeps_serials_def)
qed

lemma WriteFact_keeps: "keeps_serials d (snd (WriteFact p i d))"
proof (cases "validScope (fin_ScopeType i)")
  case True
  then show ?thesis
    by (simp add: WriteFact_eq, intro exec_keeps)
      (auto simp: keeps_serials_def Let_def split: if_splits)
qed (simp add: WriteFact_eq)

lemma UpsertUser_keeps: "keeps_serials d (snd (UpsertUser p a b c d))"
  unfolding UpsertUser_def snd_wrap_err snd_not_found_or snd_rows_or_not_found
  by (rule exec_keeps) (auto simp: keeps_serials_def Let_def split: option.splits if_splits sum.splits)

lemma SetCommitteeRole_keeps: "keeps_serials d (snd (SetCommitteeRole p a b c d))"
  unfolding SetCommitteeRole_def snd_wrap_err snd_not_found_or snd_rows_or_not_found
  by (rule exec_keeps) (auto simp: keeps_serials_def Let_def split: option.splits if_splits sum.splits)

lemma RemoveCommitteeRole_keeps: "keeps_serials d (snd (RemoveCommitteeRole p a b d))"
  unfolding RemoveCommitteeRole_def snd_wrap_err snd_not_found_or snd_rows_or_not_found
  by (rule exec_keeps) (auto simp: keeps_serials_def Let_def split: option.splits if_splits sum.splits)

lemma CreateSession_keeps: "keeps_serials d (snd (CreateSession p a b c e d))"
  unfolding CreateSession_def snd_wrap_err snd_not_found_or snd_rows_or_not_found
  by (rule exec_keeps) (auto simp: keeps_serials_def Let_def split: option.splits if_splits sum.splits)

lemma UpsertSummary_keeps: "keeps_serials d (snd (UpsertSummary p a b d))"
  unfolding UpsertSummary_def snd_wrap_err snd_not_found_or snd_rows_or_not_found
  by (rule exec_keeps) (auto simp: keeps_serials_def Let_def split: option.splits if_splits sum.splits)

lemma ForgetFact_keeps: "keeps_serials d (snd (ForgetFact p a d))"
  unfolding ForgetFact_def snd_wrap_err snd_not_found_or snd_rows_or_not_found
  by (rule exec_keeps) (auto simp: keeps_serials_def Let_def split: option.splits if_splits sum.splits)

lemma ForgetFactsByKey_keeps: "keeps_serials d (snd (ForgetFactsByKey p a b c d))"
  unfolding ForgetFactsByKey_def snd_wrap_err snd_not_found_or snd_rows_or_not_found
  by (rule exec_keeps) (auto simp: keeps_serials_def Let_def split: option.splits if_splits sum.splits)

lemma DeleteExpiredFacts_keeps: "keeps_serials d (snd (DeleteExpiredFacts p t d))"
  unfolding DeleteExpiredFacts_def snd_wrap_err snd_not_found_or snd_rows_or_not_found
  by (rule exec_keeps) (auto simp: keeps_serials_def Let_def split: option.splits if_splits sum.splits)

lemma CreateApproval_keeps: "keeps_serials d (snd (CreateApproval p a b j d))"
  unfolding CreateApproval_def snd_wrap_err snd_not_found_or snd_rows_or_not_found
  by (rule exec_keeps) (auto simp: keeps_serials_def Let_def split: option.splits if_splits sum.splits)

lemma DecideApproval_keeps: "keeps_serials d (snd (DecideApproval p a b c d))"
  unfolding DecideApproval_def snd_wrap_err snd_not_found_or snd_rows_or_not_found
  by (rule exec_keeps) (auto simp: keeps_serials_def Let_def split: option.splits if_splits sum.splits)

lemma SetServerLifecycle_keeps: "keeps_serials d (snd (SetServerLifecycle p a b d))"
  unfolding SetServerLifecycle_def snd_wrap_err snd_not_found_or snd_rows_or_not_found
  by (rule exec_keeps) (auto simp: keeps_serials_def Let_def update_server_def split: option.splits if_splits sum.splits)

lemma SetServerEnabled_keeps: "keeps_serials d (snd (SetServerEnabled p a en d))"
  unfolding SetServerEnabled_def snd_wrap_err snd_not_found_or snd_rows_or_not_found
  by (rule exec_keeps) (auto simp: keeps_serials_def Let_def update_server_def split: option.splits if_splits sum.splits)

lemmas step_keeps = RegisterServer_keeps UpdateSessionStatus_keeps WriteFact_keeps
  UpsertUser_keeps
  SetCommitteeRole_keeps
  RemoveCommitteeRole_keeps
  CreateSession_keeps
  UpsertSummary_keeps
  ForgetFact_keeps
  ForgetFactsByKey_keeps
  DeleteExpiredFacts_keeps
  CreateApproval_keeps
  DecideApproval_keeps
  SetServerLifecycle_keeps
  SetServerEnabled_keeps

lemma AddTurn_serial:
  assumes "strict_mono (pg_serial p)" "serial_inv p d"
  shows "serial_inv p (snd (AddTurn p a b c e d))"
proof (cases "AddTurn p a b c e d")
  case (Pair r d')
  show ?thesis
  proof (cases r)
    case (Inl err)
    with Pair have "keeps_serials d d'"
      by (auto simp: AddTurn_def wrap_err_Inl keeps_serials_def dest!: exec_Inl)
    with Pair assms show ?thesis by (auto intro: keeps_serials_inv)
  next
    case (Inr t)
    with Pair have "turns d' = turns d @ [t]" "trn_ID t = pg_serial p (stmts d)"
      "audit_log d' = audit_log d" "stmts d' = Suc (stmts d)"
      by (auto simp: AddTurn_def Let_def split: sum.splits if_splits dest!: exec_Inr)
    with Pair assms show ?thesis
      by (auto simp: serial_inv_def intro: from_serial_append from_serial_later)
  qed
qed

lemma WriteAudit_serial:
  assumes "strict_mono (pg_serial p)" "serial_inv p d"
  shows "serial_inv p (snd (WriteAudit p i d))"
proof (cases "WriteAudit p i d")
  case (Pair r d')
  show ?thesis
  proof (cases r)
    case (Inl err)
    with Pair have "keeps_serials d d'"
      by (auto simp: keeps_serials_def dest!: WriteAudit_error)
    with Pair assms show ?thesis by (auto intro: keeps_serials_inv)
  next
    case (Inr t)
    with Pair assms show ?thesis
      by (auto simp: serial_inv_def intro!: from_serial_append [where d = d]
          intro: from_serial_later [where d = d] dest!: WriteAudit_ok)
  qed
qed

lemma AgeOutAudit_serial:
  assumes "serial_inv p d"
  shows "serial_inv p (snd (AgeOutAudit p b d))"
proof -
  obtain P where "snd (AgeOutAudit p b d) = d\<lparr>stmts := Suc (stmts d), audit_log := filter P (audit_log d)\<rparr>"
  proof (cases "pg_fault p (stmts d)")
    case None
    then show ?thesis by (intro that) (simp add: AgeOutAudit_def exec_def Let_def)
  next
    case (Some m)
    then show ?thesis by (intro that [of "\<lambda>_. True"]) (simp add: AgeOutAudit_def exec_def Let_def)
  qed
  with assms show ?thesis
    by (auto simp: serial_inv_def intro: from_serial_later [where d = d] from_serial_filter)
qed

lemma db_step_serial: "db_step p d d' \<Longrightarrow> strict_mono (pg_serial p) \<Longrightarrow> serial_inv p d \<Longrightarrow> serial_inv p d'"
proof (induction rule: db_step.induct)
  case (read n d)
  then show ?case by (auto intro: keeps_serials_inv simp: keeps_serials_def)
next
  case (AddTurn d)
  then show ?case by (rule AddTurn_serial)
next
  case (WriteAudit d)
  then show ?case by (rule WriteAudit_serial)
next
  case (AgeOutAudit d)
  show ?case by (rule AgeOutAudit_serial) fact
qed (auto intro: step_keeps [THEN keeps_serials_inv])

lemma reachable_serial: "reachable p d \<Longrightarrow> strict_mono (pg_serial p) \<Longrightarrow> serial_inv p d"
proof (induction rule: reachable.induct)
  case init
  then show ?case by (simp add: serial_inv_def from_serial_def empty_db_def)
next
  case (step d d')
  then show ?case using db_step_serial by blast
qed

lemma reachable_turns_ordered:
  "reachable p d \<Longrightarrow> strict_mono (pg_serial p) \<Longrightarrow> turns_ordered d"
  using reachable_serial by (auto simp: serial_inv_def from_serial_def turns_ordered_def)

end
