(* ===== verification/StoreProperties.thy ===== *)
theory StoreProperties
  imports StoreInvariant
begin

text \<open>
  The properties of the repository (services/session-memory/store) and the database answers that
  their witnesses run on.
\<close>

text \<open>A database server that never fails, with fresh ids, growing numbers and one clock tick per statement.\<close>

definition demo_pg :: pg where
  "demo_pg = \<lparr>pg_fault = \<lambda>n. None, pg_now = int, pg_uuid = \<lambda>n. replicate (Suc n) (CHR ''u''),
     pg_serial = int, pg_uuid_in = Some, pg_coll = \<lambda>s. s\<rparr>"

lemma demo_pg_simps [simp]:
  "pg_fault demo_pg n = None" "pg_now demo_pg n = int n"
  "pg_uuid demo_pg n = replicate (Suc n) (CHR ''u'')" "pg_serial demo_pg n = int n"
  "pg_uuid_in demo_pg s = Some s" "pg_coll demo_pg s = s"
  by (simp_all add: demo_pg_def)

lemma strict_mono_demo: "strict_mono (pg_serial demo_pg)"
  by (simp add: demo_pg_def strict_mono_def)

lemmas store_eval = exec_def Let_def wrap_err_def select_def uuid_arg_def nullable_def empty_db_def
  not_found_or_def

text \<open>
  C11. The schema holds in every state that operations of the repository can reach from the empty
  database, whatever the arguments and whichever statements fail: ids, Slack ids, server names,
  (user, committee), (server, tool) and (server, committee) pairs are unique, every reference
  points to a row, and roles, scopes, statuses, lifecycles and impacts are the allowed ones.
\<close>

theorem reachable_db_inv:
  assumes "reachable p d"
  shows "db_inv d"
  using assms by (rule reachable_inv)

theorem reachable_db_inv_witness:
  "db_inv (snd (CreateSession demo_pg [] ''C1'' ''17.5'' ''triage'' empty_db)) \<and>
   length (sessions (snd (CreateSession demo_pg [] ''C1'' ''17.5'' ''triage'' empty_db))) = 1"
proof -
  have "reachable demo_pg (snd (CreateSession demo_pg [] ''C1'' ''17.5'' ''triage'' empty_db))"
    by (rule reachable.step [OF reachable.init db_step.CreateSession])
  from reachable_db_inv [OF this] show ?thesis by (simp add: CreateSession_def store_eval)
qed

text \<open>
  In a reachable state whose identity columns grow, \<open>ListTurns\<close> with a positive limit returns
  the last turns of the session, in the order they were added, and with a limit of 0 or less all
  of them.
\<close>

theorem ListTurns_last:
  assumes "reachable p d" "strict_mono (pg_serial p)" "pg_uuid_in p sid = Some u"
    and "ListTurns p sid limit d = (Inr ts, d')"
  shows "ts = (let rows = filter (\<lambda>t. trn_SessionID t = u) (turns d)
               in if limit > 0 then drop (length rows - nat limit) rows else rows)"
proof -
  from reachable_turns_ordered [OF assms(1,2)] have o: "turns_ordered d" .
  show ?thesis
    by (rule ListTurns_rows [OF o assms(4)]) (use assms(3) in \<open>simp add: last_n_def Let_def\<close>)
qed

definition demo_turns :: db where
  "demo_turns =
     snd (AddTurn demo_pg ''u'' ''assistant'' ''hello'' 2 (snd (AddTurn demo_pg ''u'' ''user'' ''hi'' 1
       (snd (CreateSession demo_pg [] ''C1'' ''17.5'' ''triage'' empty_db)))))"

theorem ListTurns_last_witness:
  "\<exists>ts d'. ListTurns demo_pg ''u'' 1 demo_turns = (Inr ts, d') \<and>
     map trn_Content ts = [''hello''] \<and>
     ts = (let rows = filter (\<lambda>t. trn_SessionID t = ''u'') (turns demo_turns)
               in if (1::int) > 0 then drop (length rows - nat 1) rows else rows)"
proof -
  have r: "reachable demo_pg demo_turns"
    unfolding demo_turns_def
    by (rule reachable.step [OF _ db_step.AddTurn], rule reachable.step [OF _ db_step.AddTurn],
        rule reachable.step [OF reachable.init db_step.CreateSession])
  obtain ts d' where l: "ListTurns demo_pg ''u'' 1 demo_turns = (Inr ts, d')"
    by (simp add: ListTurns_def store_eval)
  have "turns demo_turns =
    [\<lparr>trn_ID = 1, trn_SessionID = ''u'', trn_Role = ''user'', trn_Content = ''hi'', trn_Tokens = 1,
      trn_CreatedAt = 1\<rparr>,
     \<lparr>trn_ID = 2, trn_SessionID = ''u'', trn_Role = ''assistant'', trn_Content = ''hello'',
      trn_Tokens = 2, trn_CreatedAt = 2\<rparr>]"
    by (simp add: demo_turns_def AddTurn_def CreateSession_def store_eval turn_role_def int4_def)
  with ListTurns_last [OF r strict_mono_demo _ l, of "''u''"] l show ?thesis by simp
qed

text \<open>
  Upserting a user and reading it back by Slack id gives the row the upsert returned, with
  the name and email written; a Slack id known before keeps its user id.
\<close>

theorem UpsertUser_GetUser:
  assumes "db_inv d" "UpsertUser p slackID name email d = (Inr u, d')"
    and "pg_fault p (stmts d') = None"
  shows "fst (GetUserBySlackID p slackID d') = Inr u \<and>
    usr_Name u = name \<and> usr_Email u = email \<and>
    (\<forall>v \<in> set (users d). usr_SlackID v = slackID \<longrightarrow> usr_ID u = usr_ID v)"
proof -
  note row = UpsertUser_row [OF assms(2)]
  have "db_inv d'" using UpsertUser_inv [OF assms(1), of p slackID name email] assms(2) by simp
  then have "distinct (map usr_SlackID (users d'))" by (simp add: db_inv_def users_ok_def)
  from filter_key_unique [OF this row(4)] row(1)
  have "filter (\<lambda>u. usr_SlackID u = slackID) (users d') = [u]" by simp
  then have "fst (GetUserBySlackID p slackID d') = Inr u"
    using assms(3) by (simp add: GetUserBySlackID_def exec_def select_def not_found_or_def)
  moreover have "usr_ID u = usr_ID v" if "v \<in> set (users d)" "usr_SlackID v = slackID" for v
  proof -
    from assms(1) have "distinct (map usr_SlackID (users d))" by (simp add: db_inv_def users_ok_def)
    from find_key_unique [OF this that(1)] that(2)
    have "find (\<lambda>u. usr_SlackID u = slackID) (users d) = Some v" by simp
    with assms(2) show ?thesis by (auto simp: UpsertUser_def Let_def dest!: exec_Inr)
  qed
  ultimately show ?thesis using row by auto
qed

theorem UpsertUser_GetUser_witness:
  "\<exists>u d'. UpsertUser demo_pg ''U1'' ''Ada'' ''ada@x'' empty_db = (Inr u, d') \<and>
     fst (GetUserBySlackID demo_pg ''U1'' d') = Inr u \<and> usr_Name u = ''Ada''"
proof -
  obtain u d' where u: "UpsertUser demo_pg ''U1'' ''Ada'' ''ada@x'' empty_db = (Inr u, d')"
    by (simp add: UpsertUser_def store_eval)
  from UpsertUser_GetUser [OF db_inv_empty u] u show ?thesis by simp
qed

subsection \<open>Memory\<close>

text \<open>
  A search of long-term memory stays in its scope: every fact returned is a stored fact of the
  requested scope type and id, not expired (unless expired ones were asked for) and with one of
  the requested tags if there are any; without a limit every such fact is returned; facts come
  newest first and a positive limit bounds their number.
\<close>

theorem SearchFacts_scoped:
  assumes "SearchFacts p q d = (Inr fs, d')"
  shows "(\<forall>f \<in> set fs. f \<in> set (memory_facts d) \<and>
       fct_ScopeType f = fq_ScopeType q \<and> fct_ScopeID f = fq_ScopeID q \<and>
       (fq_IncludeExpired q \<or> \<not> expired_by (pg_now p (stmts d)) f) \<and>
       (fq_Tags q = [] \<or> set (fct_Tags f) \<inter> set (fq_Tags q) \<noteq> {})) \<and>
    (fq_Limit q \<le> 0 \<longrightarrow> set fs = {f \<in> set (memory_facts d). fact_matches q (pg_now p (stmts d)) f}) \<and>
    sorted (map (\<lambda>f. - fct_CreatedAt f) fs) \<and>
    (fq_Limit q > 0 \<longrightarrow> length fs \<le> nat (fq_Limit q)) \<and> same_tables d d'"
proof (intro conjI ballI impI)
  fix f
  assume "f \<in> set fs"
  from SearchFacts_mem [OF assms this]
  show "f \<in> set (memory_facts d)" "fct_ScopeType f = fq_ScopeType q" "fct_ScopeID f = fq_ScopeID q"
    "fq_IncludeExpired q \<or> \<not> expired_by (pg_now p (stmts d)) f"
    "fq_Tags q = [] \<or> set (fct_Tags f) \<inter> set (fq_Tags q) \<noteq> {}"
    by (simp_all add: fact_matches_def live_at_iff_not_expired split: if_splits)
qed (use SearchFacts_complete [OF assms] SearchFacts_order [OF assms] SearchFacts_rows(2) [OF assms]
     in simp_all)

definition demo_fact :: "string \<Rightarrow> string \<Rightarrow> int option \<Rightarrow> FactInput" where
  "demo_fact sid key ex = \<lparr>fin_ScopeType = ''committee'', fin_ScopeID = sid, fin_Key = key,
     fin_Value = ''v'', fin_Tags = [''budget''], fin_Source = [], fin_ExpiresAt = ex\<rparr>"

definition demo_query :: FactQuery where
  "demo_query = \<lparr>fq_ScopeType = ''committee'', fq_ScopeID = ''finance'', fq_Tags = [''budget''],
     fq_Limit = 0, fq_IncludeExpired = False\<rparr>"

definition demo_facts :: db where
  "demo_facts = snd (WriteFact demo_pg (demo_fact ''finance'' ''old'' (Some 1))
     (snd (WriteFact demo_pg (demo_fact ''tech'' ''k'' None)
       (snd (WriteFact demo_pg (demo_fact ''finance'' ''k'' None) empty_db)))))"

lemmas demo_fact_defs = demo_facts_def demo_fact_def demo_query_def WriteFact_eq validScope_def
  ScopeUser_def ScopeCommittee_def ScopeOrg_def

lemma demo_search: "\<exists>fs d'. SearchFacts demo_pg demo_query demo_facts = (Inr fs, d') \<and> map fct_Key fs = [''k'']"
  by (simp add: SearchFacts_eq demo_fact_defs store_eval fact_matches_def live_at_def)

theorem SearchFacts_scoped_witness:
  "\<exists>fs d'. SearchFacts demo_pg demo_query demo_facts = (Inr fs, d') \<and> map fct_Key fs = [''k''] \<and>
     (\<forall>f \<in> set fs. fct_ScopeID f = ''finance'')"
proof -
  obtain fs d' where s: "SearchFacts demo_pg demo_query demo_facts = (Inr fs, d')" "map fct_Key fs = [''k'']"
    using demo_search by (elim exE conjE) rule
  from SearchFacts_scoped [OF s(1)] have "\<forall>f \<in> set fs. fct_ScopeID f = fq_ScopeID demo_query" by blast
  then have "\<forall>f \<in> set fs. fct_ScopeID f = ''finance''" by (simp add: demo_query_def)
  with s show ?thesis by (intro exI conjI)
qed

text \<open>
  Forgetting a fact by id removes that fact and nothing else, reports whether there was one,
  and no later search returns it.
\<close>

theorem ForgetFact_gone:
  assumes "pg_uuid_in p fid = Some u" "ForgetFact p fid d = (Inr hit, d')"
  shows "hit = (u \<in> fct_ID ` set (memory_facts d)) \<and>
    memory_facts d' = filter (\<lambda>f. fct_ID f \<noteq> u) (memory_facts d) \<and>
    (\<forall>q fs d''. SearchFacts p q d' = (Inr fs, d'') \<longrightarrow> u \<notin> fct_ID ` set fs)"
proof -
  from assms have hit: "hit = (u \<in> fct_ID ` set (memory_facts d))"
    and m: "memory_facts d' = filter (\<lambda>f. fct_ID f \<noteq> u) (memory_facts d)"
    by (auto simp: ForgetFact_def uuid_arg_def filter_empty_conv dest!: exec_Inr)
  have "u \<notin> fct_ID ` set fs" if "SearchFacts p q d' = (Inr fs, d'')" for q fs d''
    using SearchFacts_mem [OF that] by (auto simp: m)
  with hit m show ?thesis by blast
qed

theorem ForgetFact_gone_witness:
  "\<exists>d'. ForgetFact demo_pg ''u'' demo_facts = (Inr True, d') \<and> length (memory_facts d') = 2 \<and>
     (\<forall>q fs d''. SearchFacts demo_pg q d' = (Inr fs, d'') \<longrightarrow> ''u'' \<notin> fct_ID ` set fs)"
proof -
  obtain d' where "ForgetFact demo_pg ''u'' demo_facts = (Inr True, d')" "length (memory_facts d') = 2"
    by (simp add: ForgetFact_def demo_fact_defs store_eval)
  with ForgetFact_gone [OF _ this(1), of "''u''"] show ?thesis by simp
qed

text \<open>
  Retention only removes facts that searches no longer show: deleting the facts expired at
  \<open>before\<close> removes exactly those, and any search that does not ask for expired facts, run at
  \<open>before\<close> or later, returns the same with or without the deletion.
\<close>

theorem retention_invisible:
  assumes "DeleteExpiredFacts p before d = (Inr n, d')" "\<not> fq_IncludeExpired q"
    and "before \<le> pg_now p (stmts d')"
  shows "memory_facts d' = filter (\<lambda>f. \<not> expired_by before f) (memory_facts d) \<and>
    n = int (length (memory_facts d)) - int (length (memory_facts d')) \<and>
    fst (SearchFacts p q d') = fst (SearchFacts p q (d\<lparr>stmts := stmts d'\<rparr>))"
proof -
  from assms(1) have m: "memory_facts d' = filter (\<lambda>f. \<not> expired_by before f) (memory_facts d)"
    and n: "n = int (length (filter (expired_by before) (memory_facts d)))"
    by (auto simp: DeleteExpiredFacts_def dest!: exec_Inr)
  have later: "live_at (pg_now p (stmts d')) f \<Longrightarrow> \<not> expired_by before f" for f
    using assms(3) by (auto simp: live_at_def expired_by_def split: option.splits)
  have "filter (fact_matches q (pg_now p (stmts d'))) (memory_facts d')
      = filter (fact_matches q (pg_now p (stmts d'))) (memory_facts d)"
    unfolding m filter_filter using later assms(2)
    by (intro filter_cong) (auto simp: fact_matches_def)
  then have "fst (SearchFacts p q d') = fst (SearchFacts p q (d\<lparr>stmts := stmts d'\<rparr>))"
    by (simp add: SearchFacts_eq exec_def select_def Let_def wrap_err_def split: option.splits)
  moreover have "n = int (length (memory_facts d)) - int (length (memory_facts d'))"
    unfolding n m using sum_length_filter_compl [of "expired_by before" "memory_facts d"] by simp
  ultimately show ?thesis using m by blast
qed

theorem retention_invisible_witness:
  "\<exists>d'. DeleteExpiredFacts demo_pg 2 demo_facts = (Inr 1, d') \<and>
     fst (SearchFacts demo_pg demo_query d') = fst (SearchFacts demo_pg demo_query (demo_facts\<lparr>stmts := stmts d'\<rparr>))"
proof -
  have "\<exists>d'. DeleteExpiredFacts demo_pg 2 demo_facts = (Inr 1, d') \<and> stmts d' = 4"
    by (simp add: DeleteExpiredFacts_def demo_fact_defs store_eval expired_by_def)
  then obtain d' where d: "DeleteExpiredFacts demo_pg 2 demo_facts = (Inr 1, d')" "stmts d' = 4" by blast
  from retention_invisible [OF d(1), of demo_query] d show ?thesis by (simp add: demo_query_def)
qed

subsection \<open>The registry\<close>

text \<open>
  C15. Registering a server is all or nothing: an error leaves either every table as it was, or
  the tables of the whole committed transaction (only the reload that follows failed).
\<close>

theorem RegisterServer_atomic:
  assumes "RegisterServer p inp d = (Inl e, d')"
  shows "same_tables d d' \<or>
    (\<exists>d1. register_tx p inp d = (Inr (), d1) \<and> same_tables d1 d')"
proof (cases "sin_Name inp = [] \<or> sin_Endpoint inp = []")
  case True
  with assms show ?thesis by (simp add: RegisterServer_def)
next
  case False
  obtain r d1 where tx: "register_tx p inp d = (r, d1)" by force
  show ?thesis
  proof (cases r)
    case (Inl e1)
    with False tx assms show ?thesis by (auto simp: RegisterServer_def)
  next
    case (Inr u)
    with False tx assms have "GetServerByName p (sin_Name inp) d1 = (Inl e, d')"
      by (auto simp: RegisterServer_def)
    with GetServerByName_same [of d1 p "sin_Name inp"] have "same_tables d1 d'" by simp
    with tx Inr show ?thesis by (cases u) auto
  qed
qed

definition demo_input :: ServerInput where
  "demo_input = \<lparr>sin_Name = ''fin'', sin_Owner = ''finance'', sin_Description = [],
     sin_Endpoint = ''http://fin'', sin_Transport = [], sin_Auth = [],
     sin_Tools = [\<lparr>tin_Name = ''pay'', tin_Scope = ''finance:write'', tin_Impact = ''high''\<rparr>,
                  \<lparr>tin_Name = ''look'', tin_Scope = ''finance:read'', tin_Impact = ''read''\<rparr>],
     sin_Committees = [''finance'']\<rparr>"

definition bad_input :: ServerInput where
  "bad_input = demo_input\<lparr>sin_Tools := sin_Tools demo_input @
     [\<lparr>tin_Name = ''wipe'', tin_Scope = ''x'', tin_Impact = ''huge''\<rparr>]\<rparr>"

lemmas register_eval = RegisterServer_def register_tx_def nop_def upsert_server_def clear_tools_def
  insert_tool_def tool_row_def clear_committees_def grant_committee_def impact_ok_def server_row_def
  wrap_errf_def and_then_def

theorem RegisterServer_atomic_witness:
  "\<exists>e d'. RegisterServer demo_pg bad_input empty_db = (Inl e, d') \<and>
     (same_tables empty_db d' \<or>
      (\<exists>d1. register_tx demo_pg bad_input empty_db = (Inr (), d1) \<and> same_tables d1 d'))"
proof -
  have "\<exists>e d'. RegisterServer demo_pg bad_input empty_db = (Inl e, d')"
    by (simp add: register_eval bad_input_def demo_input_def store_eval)
  then obtain e d' where "RegisterServer demo_pg bad_input empty_db = (Inl e, d')" by blast
  with RegisterServer_atomic [OF this] show ?thesis by blast
qed

lemma upd_where_other: "(\<And>x. Q x \<Longrightarrow> \<not> P x) \<Longrightarrow> (\<And>x. P x \<Longrightarrow> \<not> Q (f x)) \<Longrightarrow>
    filter Q (upd_where P f xs) = filter Q xs"
  by (induction xs) auto

text \<open>Every column that a registration writes, with the defaults for transport and authentication.\<close>

definition row_written :: "ServerInput \<Rightarrow> Server \<Rightarrow> bool" where
  "row_written inp v \<longleftrightarrow> srv_Name v = sin_Name inp \<and> srv_Owner v = sin_Owner inp \<and>
     srv_Description v = sin_Description inp \<and> srv_Endpoint v = sin_Endpoint inp \<and>
     srv_Transport v = (if sin_Transport inp = [] then ''streamable-http'' else sin_Transport inp) \<and>
     srv_Auth v = (if sin_Auth inp = [] then ''bearer'' else sin_Auth inp)"

lemma row_written_rows [simp]:
  "row_written inp (server_row p n inp)"
  "row_written inp (reregistered p n inp v) \<longleftrightarrow> srv_Name v = sin_Name inp"
  by (simp_all add: row_written_def server_row_def reregistered_def)

text \<open>The row of the registered server after the upsert, against the row it had before.\<close>

lemma upsert_server_row:
  assumes up: "exec p (upsert_server p inp) d = (Inr sid, d1)" and names: "distinct (map srv_Name (mcp_servers d))"
    and s0: "s0 \<in> set (mcp_servers d1)" "srv_Name s0 = sin_Name inp"
  shows "srv_ID s0 = sid" "row_written inp s0"
    "case find (\<lambda>v. srv_Name v = sin_Name inp) (mcp_servers d) of
       Some v \<Rightarrow> srv_ID s0 = srv_ID v \<and> srv_Lifecycle s0 = srv_Lifecycle v \<and> srv_Enabled s0 = srv_Enabled v
     | None \<Rightarrow> srv_Lifecycle s0 = LifecycleProposed \<and> srv_Enabled s0"
    "filter (\<lambda>v. srv_Name v \<noteq> sin_Name inp) (mcp_servers d1)
       = filter (\<lambda>v. srv_Name v \<noteq> sin_Name inp) (mcp_servers d)"
proof -
  have "srv_ID s0 = sid \<and> row_written inp s0 \<and>
    (case find (\<lambda>v. srv_Name v = sin_Name inp) (mcp_servers d) of
       Some v \<Rightarrow> srv_ID s0 = srv_ID v \<and> srv_Lifecycle s0 = srv_Lifecycle v \<and> srv_Enabled s0 = srv_Enabled v
     | None \<Rightarrow> srv_Lifecycle s0 = LifecycleProposed \<and> srv_Enabled s0) \<and>
    filter (\<lambda>v. srv_Name v \<noteq> sin_Name inp) (mcp_servers d1)
       = filter (\<lambda>v. srv_Name v \<noteq> sin_Name inp) (mcp_servers d)"
    using up
  proof (cases rule: upsert_server_ok)
    case (known v)
    from s0 known(3) obtain v' where v': "v' \<in> set (mcp_servers d)" "srv_Name v' = sin_Name inp"
      "s0 = reregistered p (stmts d) inp v'" by (auto elim!: in_upd_whereE)
    from find_key_unique [OF names v'(1)] v'(2) known(1) have "v' = v" by simp
    with v' known show ?thesis by (simp add: upd_where_other)
  next
    case fresh
    then have "\<forall>v \<in> set (mcp_servers d). srv_Name v \<noteq> sin_Name inp" by (auto simp: find_None_iff)
    with s0 fresh have "s0 = server_row p (stmts d) inp" by auto
    with fresh show ?thesis by simp
  qed
  then show "srv_ID s0 = sid" "row_written inp s0"
    "case find (\<lambda>v. srv_Name v = sin_Name inp) (mcp_servers d) of
       Some v \<Rightarrow> srv_ID s0 = srv_ID v \<and> srv_Lifecycle s0 = srv_Lifecycle v \<and> srv_Enabled s0 = srv_Enabled v
     | None \<Rightarrow> srv_Lifecycle s0 = LifecycleProposed \<and> srv_Enabled s0"
    "filter (\<lambda>v. srv_Name v \<noteq> sin_Name inp) (mcp_servers d1)
       = filter (\<lambda>v. srv_Name v \<noteq> sin_Name inp) (mcp_servers d)" by blast+
qed

text \<open>What the registry holds for the server after a successful registration.\<close>

lemma RegisterServer_ok:
  assumes inv: "db_inv d" and reg: "RegisterServer p inp d = (Inr s, d')"
  obtains s0 where "s0 \<in> set (mcp_servers d')" "srv_Name s0 = sin_Name inp" "s = server_view p d' s0"
    "tool_input ` {t \<in> set (mcp_tools d'). tl_ServerID t = srv_ID s0} = set (sin_Tools inp)"
    "{c. (srv_ID s0, c) \<in> set (server_committees d')} = set (sin_Committees inp)"
    "row_written inp s0"
    "case find (\<lambda>v. srv_Name v = sin_Name inp) (mcp_servers d) of
       Some v \<Rightarrow> srv_ID s0 = srv_ID v \<and> srv_Lifecycle s0 = srv_Lifecycle v \<and> srv_Enabled s0 = srv_Enabled v
     | None \<Rightarrow> srv_Lifecycle s0 = LifecycleProposed \<and> srv_Enabled s0"
    "filter (\<lambda>v. srv_Name v \<noteq> sin_Name inp) (mcp_servers d')
       = filter (\<lambda>v. srv_Name v \<noteq> sin_Name inp) (mcp_servers d)"
    "filter (\<lambda>t. tl_ServerID t \<noteq> srv_ID s0) (mcp_tools d') = filter (\<lambda>t. tl_ServerID t \<noteq> srv_ID s0) (mcp_tools d)"
    "{sc \<in> set (server_committees d'). fst sc \<noteq> srv_ID s0} = {sc \<in> set (server_committees d). fst sc \<noteq> srv_ID s0}"
proof -
  from reg obtain u d2 where tx: "register_tx p inp d = (Inr u, d2)"
    and get: "GetServerByName p (sin_Name inp) d2 = (Inr s, d')"
    by (auto simp: RegisterServer_def split: if_splits prod.splits sum.splits)
  have "same_tables d2 d'" using GetServerByName_same [of d2 p "sin_Name inp"] get by simp
  note tb = same_tablesD(9-11) [OF this]
  obtain sid d1 new gs n where
    up: "exec p (upsert_server p inp) (d\<lparr>stmts := Suc (stmts d)\<rparr>) = (Inr sid, d1)" and
    d2: "d2 = d1\<lparr>stmts := n, mcp_tools := filter (\<lambda>t. tl_ServerID t \<noteq> sid) (mcp_tools d1) @ new,
       server_committees := gs\<rparr>" and
    new: "map tool_input new = sin_Tools inp" "\<forall>r \<in> set new. tl_ServerID r = sid" and
    gs: "set gs = {sc \<in> set (server_committees d1). fst sc \<noteq> sid} \<union> Pair sid ` set (sin_Committees inp)"
    by (rule register_tx_ok [OF tx])
  from GetServerByName_ok [OF get] obtain s0 where s0: "s0 \<in> set (mcp_servers d2)"
    "srv_Name s0 = sin_Name inp" "s = server_view p d2 s0" by blast
  have view: "server_view p d2 s0 = server_view p d' s0" by (simp add: server_view_def tb)
  have "distinct (map srv_Name (mcp_servers d))" using inv by (simp add: db_inv_def servers_ok_def)
  then have row: "srv_ID s0 = sid" "row_written inp s0"
    "case find (\<lambda>v. srv_Name v = sin_Name inp) (mcp_servers d) of
       Some v \<Rightarrow> srv_ID s0 = srv_ID v \<and> srv_Lifecycle s0 = srv_Lifecycle v \<and> srv_Enabled s0 = srv_Enabled v
     | None \<Rightarrow> srv_Lifecycle s0 = LifecycleProposed \<and> srv_Enabled s0"
    "filter (\<lambda>v. srv_Name v \<noteq> sin_Name inp) (mcp_servers d2)
       = filter (\<lambda>v. srv_Name v \<noteq> sin_Name inp) (mcp_servers d)"
    using upsert_server_row [OF up, of s0] s0(1,2) by (simp_all add: d2)
  have tools: "tool_input ` {t \<in> set (mcp_tools d2). tl_ServerID t = srv_ID s0} = set (sin_Tools inp)"
  proof -
    have "{t \<in> set (mcp_tools d2). tl_ServerID t = srv_ID s0} = set new"
      using row new(2) by (auto simp: d2)
    with new(1) show ?thesis by (metis list.set_map)
  qed
  have "{c. (srv_ID s0, c) \<in> set (server_committees d2)} = set (sin_Committees inp)"
    using row gs by (auto simp: d2)
  moreover have "mcp_tools d1 = mcp_tools d \<and> server_committees d1 = server_committees d"
    using up by (cases rule: upsert_server_ok) simp_all
  then have "filter (\<lambda>t. tl_ServerID t \<noteq> srv_ID s0) (mcp_tools d2) = filter (\<lambda>t. tl_ServerID t \<noteq> srv_ID s0) (mcp_tools d)"
    "{sc \<in> set (server_committees d2). fst sc \<noteq> srv_ID s0} = {sc \<in> set (server_committees d). fst sc \<noteq> srv_ID s0}"
    using row gs new(2) by (auto simp: d2)
  ultimately show ?thesis using that [of s0] s0 view row tools by (simp add: tb)
qed

text \<open>
  A successful registration makes the registry hold exactly the manifest's tools and committee
  grants for that server name and leaves the other servers alone; a server known before keeps its
  id, its lifecycle and its kill switch (registering cannot promote or re-enable it), a new one is
  proposed and enabled.
\<close>

theorem RegisterServer_effect:
  assumes "db_inv d" and "RegisterServer p inp d = (Inr s, d')"
  shows "srv_Name s = sin_Name inp \<and> srv_Endpoint s = sin_Endpoint inp \<and>
    tool_input ` set (srv_Tools s) = set (sin_Tools inp) \<and>
    set (srv_Committees s) = set (sin_Committees inp) \<and>
    (case find (\<lambda>v. srv_Name v = sin_Name inp) (mcp_servers d) of
       Some v \<Rightarrow> srv_ID s = srv_ID v \<and> srv_Lifecycle s = srv_Lifecycle v \<and> srv_Enabled s = srv_Enabled v
     | None \<Rightarrow> srv_Lifecycle s = ''proposed'' \<and> srv_Enabled s) \<and>
    filter (\<lambda>v. srv_Name v \<noteq> sin_Name inp) (mcp_servers d')
      = filter (\<lambda>v. srv_Name v \<noteq> sin_Name inp) (mcp_servers d)"
  by (rule RegisterServer_ok [OF assms]) (simp add: LifecycleProposed_def row_written_def split: option.splits)

definition demo_registry :: db where
  "demo_registry = snd (RegisterServer demo_pg demo_input empty_db)"

lemma demo_register: "\<exists>s d'. RegisterServer demo_pg demo_input empty_db = (Inr s, d')"
  by (simp add: register_eval demo_input_def store_eval GetServerByName_def load_server_def
      listTools_def listServerCommittees_def)

theorem RegisterServer_effect_witness:
  "\<exists>s d'. RegisterServer demo_pg demo_input empty_db = (Inr s, d') \<and>
     srv_Lifecycle s = ''proposed'' \<and> set (srv_Committees s) = {''finance''} \<and>
     tool_input ` set (srv_Tools s) = set (sin_Tools demo_input)"
proof -
  obtain s d' where r: "RegisterServer demo_pg demo_input empty_db = (Inr s, d')"
    using demo_register by (elim exE) rule
  from RegisterServer_effect [OF db_inv_empty r]
  have "srv_Lifecycle s = ''proposed''" "set (srv_Committees s) = set (sin_Committees demo_input)"
    "tool_input ` set (srv_Tools s) = set (sin_Tools demo_input)"
    by (simp_all add: empty_db_def)
  with r show ?thesis by (simp add: demo_input_def)
qed

end
