(* ===== verification/GatewayProperties.thy ===== *)
theory GatewayProperties
  imports GatewayPolicy StoreProperties
begin

text \<open>
  The properties of the policy engine over the repository.  \<open>decide\<close> is the policy the package
  documentation states, as a function of the tables and the request alone; the engine is shown to
  implement it.
\<close>

subsection \<open>The policy\<close>

datatype verdict = Unknown_Tool | Not_Authorized | Needs_Approval | Run ToolBinding

definition resolve_spec :: "pg \<Rightarrow> db \<Rightarrow> string \<Rightarrow> string \<Rightarrow> ToolBinding option" where
  "resolve_spec p d sn tn =
     (case find (\<lambda>s. srv_Name s = sn) (mcp_servers d) of
        None \<Rightarrow> None
      | Some s0 \<Rightarrow> (case find (\<lambda>t. tl_ServerID t = srv_ID s0 \<and> tl_Name t = tn) (mcp_tools d) of
           None \<Rightarrow> None
         | Some t \<Rightarrow> Some \<lparr>tb_Server = server_view p d s0, tb_Tool = t\<rparr>))"

definition may_use :: "db \<Rightarrow> Server \<Rightarrow> Identity \<Rightarrow> bool" where
  "may_use d s ident \<longleftrightarrow> srv_Lifecycle s = ''approved'' \<and> srv_Enabled s \<and>
     (\<exists>c \<in> set (id_Committees ident). (srv_ID s, c) \<in> set (server_committees d))"

definition decide :: "pg \<Rightarrow> db \<Rightarrow> CallRequest \<Rightarrow> verdict" where
  "decide p d req =
     (case resolve_spec p d (rq_ServerName req) (rq_ToolName req) of
        None \<Rightarrow> Unknown_Tool
      | Some b \<Rightarrow>
          (if \<not> may_use d (tb_Server b) (rq_Identity req) then Not_Authorized
           else if tl_Impact (tb_Tool b) = ''high'' \<and>
             \<not> (rq_SessionID req \<noteq> [] \<and> approved_for p d (rq_SessionID req) (rq_ToolName req))
           then Needs_Approval else Run b))"

lemma find_unique_set:
  assumes "set xs = set ys" "\<And>x y. x \<in> set xs \<Longrightarrow> y \<in> set xs \<Longrightarrow> P x \<Longrightarrow> P y \<Longrightarrow> x = y"
  shows "find P xs = find P ys"
proof (cases "find P ys")
  case None
  with assms(1) have "find P xs = None" by (simp add: find_None_iff)
  with None show ?thesis by simp
next
  case (Some y)
  from find_SomeD [OF this] have y: "y \<in> set xs" "P y" using assms(1) by auto
  then have "find P xs \<noteq> None" by (auto simp: find_None_iff)
  then obtain x where x: "find P xs = Some x" by blast
  from find_SomeD [OF x] y assms(2) have "x = y" by blast
  with x Some show ?thesis by simp
qed

lemma find_filter: "find P (filter Q xs) = find (\<lambda>x. Q x \<and> P x) xs"
  by (induction xs) auto

lemma ResolveTool_runs:
  assumes inv: "db_inv d" and nf: "\<forall>n. pg_fault p n = None"
  obtains n where "ResolveTool p sn tn d = (case resolve_spec p d sn tn of
      None \<Rightarrow> (Inl ErrNotFound, d\<lparr>stmts := n\<rparr>) | Some b \<Rightarrow> (Inr b, d\<lparr>stmts := n\<rparr>))"
proof (cases "find (\<lambda>s. srv_Name s = sn) (mcp_servers d)")
  case None
  then show ?thesis
    by (intro that [of "Suc (stmts d)"])
      (simp add: ResolveTool_def GetServerByName_unknown [OF nf] resolve_spec_def)
next
  case (Some s0)
  let ?ts = "filter (\<lambda>t. tl_ServerID t = srv_ID s0) (mcp_tools d)"
  have "find (\<lambda>t. tl_Name t = tn) (srv_Tools (server_view p d s0)) = find (\<lambda>t. tl_Name t = tn) ?ts"
  proof (rule find_unique_set)
    fix x y
    assume "x \<in> set (srv_Tools (server_view p d s0))" "y \<in> set (srv_Tools (server_view p d s0))"
      "tl_Name x = tn" "tl_Name y = tn"
    moreover from inv have "distinct (map (\<lambda>t. (tl_ServerID t, tl_Name t)) (mcp_tools d))"
      by (simp add: db_inv_def tools_ok_def)
    ultimately show "x = y" by (auto dest: distinct_map_inj_onD)
  qed auto
  then have "find (\<lambda>t. tl_Name t = tn) (srv_Tools (server_view p d s0))
    = find (\<lambda>t. tl_ServerID t = srv_ID s0 \<and> tl_Name t = tn) (mcp_tools d)"
    by (simp add: find_filter)
  with Some show ?thesis
    by (intro that [of "stmts d + 3"])
      (simp add: ResolveTool_def GetServerByName_runs [OF nf Some] resolve_spec_def split: option.splits)
qed

lemma resolve_spec_row:
  assumes "resolve_spec p d sn tn = Some b"
  obtains s0 where "s0 \<in> set (mcp_servers d)" "srv_Name s0 = sn" "tb_Server b = server_view p d s0"
    "tb_Tool b \<in> set (mcp_tools d)" "tl_ServerID (tb_Tool b) = srv_ID s0" "tl_Name (tb_Tool b) = tn"
  using assms
  by (auto simp: resolve_spec_def split: option.splits dest!: find_SomeD intro: that)

lemma authorized_may_use:
  assumes "resolve_spec p d sn tn = Some b"
  shows "authorized (tb_Server b) ident = may_use d (tb_Server b) ident"
proof -
  from assms obtain s0 where "tb_Server b = server_view p d s0" by (rule resolve_spec_row)
  then show ?thesis by (auto simp: authorized_def may_use_def LifecycleApproved_def list_ex_iff)
qed

lemma hasApproval_runs:
  assumes "gw_store g = repo_store p" "\<forall>n. pg_fault p n = None" "sid = [] \<or> pg_uuid_in p sid \<noteq> None"
  obtains n where "hasApproval g sid t d = (Inr (sid \<noteq> [] \<and> approved_for p d sid t), d\<lparr>stmts := n\<rparr>)"
proof (cases "sid = []")
  case True
  then show ?thesis by (intro that [of "stmts d"]) (simp add: hasApproval_def)
next
  case False
  with assms obtain as where l: "ListApprovalsBySession p sid d = (Inr as, d\<lparr>stmts := Suc (stmts d)\<rparr>)"
    by (auto simp: ListApprovalsBySession_def exec_def select_def uuid_arg_def wrap_err_def)
  with False assms(1) list_approvals_approved [OF l, of t] show ?thesis
    by (intro that [of "Suc (stmts d)"]) (simp add: hasApproval_def wrap_err_def)
qed

lemma may_use_stmts [simp]: "may_use (d\<lparr>stmts := n\<rparr>) = may_use d"
  by (simp add: may_use_def fun_eq_iff)

lemma approved_for_stmts [simp]: "approved_for p (d\<lparr>stmts := n\<rparr>) = approved_for p d"
  by (rule approved_for_tables) simp

lemma Call_decide:
  assumes "db_inv (gs_store gs)" "\<forall>n. pg_fault p n = None" "gw_store g = repo_store p"
    and "rq_SessionID req = [] \<or> pg_uuid_in p (rq_SessionID req) \<noteq> None"
    and "fst (limit_step ck (rq_Identity req) gs)"
    and "Call g ck req gs = ((res, err), gs')"
  shows "case decide p (gs_store gs) req of
      Unknown_Tool \<Rightarrow> err = Some ErrUnknownTool \<and> gs_calls gs' = gs_calls gs
    | Not_Authorized \<Rightarrow> err = Some ErrUnauthorized \<and> gs_calls gs' = gs_calls gs
    | Needs_Approval \<Rightarrow> err \<noteq> None \<and> gs_calls gs' = gs_calls gs
    | Run b \<Rightarrow> gs_calls gs' = gs_calls gs @ [(tb_Server b, tb_Tool b, rq_Args req)]"
proof -
  let ?d = "gs_store gs" and ?sid = "rq_SessionID req" and ?tn = "rq_ToolName req"
  obtain gs1 where l: "limit_step ck (rq_Identity req) gs = (True, gs1)"
    using assms(5) by (metis prod.collapse)
  note fr = limit_step_frame [OF l]
  obtain n where r: "ResolveTool p (rq_ServerName req) ?tn ?d =
    (case resolve_spec p ?d (rq_ServerName req) ?tn of
      None \<Rightarrow> (Inl ErrNotFound, ?d\<lparr>stmts := n\<rparr>) | Some b \<Rightarrow> (Inr b, ?d\<lparr>stmts := n\<rparr>))"
    by (rule ResolveTool_runs [OF assms(1,2)])
  obtain m where h: "hasApproval g ?sid ?tn (?d\<lparr>stmts := n\<rparr>)
      = (Inr (?sid \<noteq> [] \<and> approved_for p ?d ?sid ?tn), ?d\<lparr>stmts := m\<rparr>)"
    using hasApproval_runs [OF assms(3,2,4), of ?tn "?d\<lparr>stmts := n\<rparr>"] by auto
  note call = assms(6) [unfolded Call_def l resolve_and_authorize_def, simplified, simplified fr assms(3)
      repo_store_simps r]
  show ?thesis
  proof (cases "resolve_spec p ?d (rq_ServerName req) ?tn")
    case None
    with call fr show ?thesis by (auto simp: decide_def dest!: refuse_result)
  next
    case (Some b)
    note au = authorized_may_use [OF Some, of "rq_Identity req"]
    show ?thesis
    proof (cases "may_use ?d (tb_Server b) (rq_Identity req)")
      case False
      with call Some au fr show ?thesis by (auto simp: decide_def dest!: refuse_result)
    next
      case True
      with call Some au have gate: "gate g req ck b (gs1\<lparr>gs_store := ?d\<lparr>stmts := n\<rparr>\<rparr>) = ((res, err), gs')"
        by simp
      show ?thesis
        using gate Some True h fr
        by (auto simp: decide_def gate_def dest!: refuse_result dispatch_eq
            split: if_splits prod.splits sum.splits bool.splits)
    qed
  qed
qed

text \<open>
  C3. The gateway implements the policy: when the call passes the limiter and the database answers,
  the outcome is the one \<open>decide\<close> gives for the tables and the request.  An unknown tool, a caller
  without a grant and an unapproved high-impact call are refused with no downstream call; in the
  remaining case the resolved tool is called once, with the caller's arguments.
\<close>

theorem Call_implements_policy:
  assumes "db_inv (gs_store gs)" "\<forall>n. pg_fault p n = None" "gw_store g = repo_store p"
    and "rq_SessionID req = [] \<or> pg_uuid_in p (rq_SessionID req) \<noteq> None"
    and "fst (limit_step ck (rq_Identity req) gs)"
    and "Call g ck req gs = ((res, err), gs')"
  shows "case decide p (gs_store gs) req of
      Unknown_Tool \<Rightarrow> err = Some ErrUnknownTool \<and> gs_calls gs' = gs_calls gs
    | Not_Authorized \<Rightarrow> err = Some ErrUnauthorized \<and> gs_calls gs' = gs_calls gs
    | Needs_Approval \<Rightarrow> err \<noteq> None \<and> gs_calls gs' = gs_calls gs
    | Run b \<Rightarrow> gs_calls gs' = gs_calls gs @ [(tb_Server b, tb_Tool b, rq_Args req)]"
  using assms by (rule Call_decide)

subsection \<open>A concrete gateway\<close>

text \<open>A registry with one approved server, two tools and a session; the downstream echoes its arguments.\<close>

definition demo_server :: Server where
  "demo_server = \<lparr>srv_ID = ''s1'', srv_Name = ''fin'', srv_Owner = ''finance'', srv_Description = [],
     srv_Endpoint = ''http://fin'', srv_Transport = [], srv_Auth = [], srv_Lifecycle = ''approved'',
     srv_Enabled = True, srv_Health = ''ok'', srv_CreatedAt = 0, srv_UpdatedAt = 0,
     srv_Tools = [], srv_Committees = []\<rparr>"

definition demo_tool :: "string \<Rightarrow> string \<Rightarrow> Tool" where
  "demo_tool name impact = \<lparr>tl_ID = ''t-'' @ name, tl_ServerID = ''s1'', tl_Name = name,
     tl_Scope = ''finance'', tl_Impact = impact\<rparr>"

definition demo_db :: db where
  "demo_db = empty_db\<lparr>
     sessions := [\<lparr>sr_id = ''ses'', sr_user_id = None, sr_channel = ''C'', sr_thread_ts = ''1'',
       sr_recipe = [], sr_status = ''active'', sr_created_at = 0, sr_updated_at = 0\<rparr>],
     mcp_servers := [demo_server], mcp_tools := [demo_tool ''look'' ''read'', demo_tool ''pay'' ''high''],
     server_committees := [(''s1'', ''finance'')], stmts := 10\<rparr>"

definition demo_gateway :: "db Gateway" where
  "demo_gateway = NewGateway (\<lambda>s. s) Some (repo_store demo_pg) (\<lambda>srv t args d. (Inr args, d))"

definition demo_request :: "string \<Rightarrow> string \<Rightarrow> string \<Rightarrow> CallRequest" where
  "demo_request committee session tool =
     \<lparr>rq_Identity = \<lparr>id_Subject = ''ada'', id_Committees = [committee], id_IsAgent = False\<rparr>,
      rq_SessionID = session, rq_ServerName = ''fin'', rq_ToolName = tool,
      rq_Args = Raw_JSON (JObj [(''token'', JStr ''s3cret''), (''n'', JNum ''1'')])\<rparr>"

definition demo_clock :: clock where
  "demo_clock = \<lparr>ck_start = 0, ck_committee = 0, ck_global = 0, ck_audit = 2000000\<rparr>"

lemma demo_gateway_simps [simp]:
  "gw_store demo_gateway = repo_store demo_pg"
  "gw_redact demo_gateway = RedactArgs (\<lambda>s. s) Some"
  "gw_caller demo_gateway srv t args d = (Inr args, d)"
  by (simp_all add: demo_gateway_def NewGateway_def)

lemma demo_request_simps [simp]:
  "rq_SessionID (demo_request c s t) = s" "rq_ServerName (demo_request c s t) = ''fin''"
  "rq_ToolName (demo_request c s t) = t" "id_Committees (rq_Identity (demo_request c s t)) = [c]"
  "rq_Args (demo_request c s t) = Raw_JSON (JObj [(''token'', JStr ''s3cret''), (''n'', JNum ''1'')])"
  "id_Subject (rq_Identity (demo_request c s t)) = ''ada''"
  by (simp_all add: demo_request_def)

lemma demo_start [simp]:
  "gs_store (start_gateway l s) = s" "gs_calls (start_gateway l s) = []"
  "gs_limiter (start_gateway l s) = l"
  "limit_step ck i (start_gateway None s) = (True, start_gateway None s)"
  by (simp_all add: start_gateway_def limit_step_def)

lemma demo_db_inv: "db_inv demo_db"
  by (simp add: db_inv_def table_defs demo_db_def demo_server_def demo_tool_def empty_db_def
      lifecycle_ok_def lifecycle_defs impact_ok_def)

lemma demo_tables [simp]:
  "mcp_servers demo_db = [demo_server]" "server_committees demo_db = [(''s1'', ''finance'')]"
  "mcp_tools demo_db = [demo_tool ''look'' ''read'', demo_tool ''pay'' ''high'']"
  "approvals demo_db = []" "audit_log demo_db = []" "stmts demo_db = 10"
  "sr_id ` set (sessions demo_db) = {''ses''}"
  "srv_Name demo_server = ''fin''" "srv_ID demo_server = ''s1''"
  "srv_Lifecycle demo_server = ''approved''" "srv_Enabled demo_server"
  "tl_ServerID (demo_tool n i) = ''s1''" "tl_Name (demo_tool n i) = n" "tl_Impact (demo_tool n i) = i"
  by (simp_all add: demo_db_def demo_server_def demo_tool_def empty_db_def)

lemma demo_decide:
  "decide demo_pg demo_db (demo_request ''finance'' s ''look'')
     = Run \<lparr>tb_Server = server_view demo_pg demo_db demo_server, tb_Tool = demo_tool ''look'' ''read''\<rparr>"
  "decide demo_pg demo_db (demo_request ''finance'' s ''pay'') = Needs_Approval"
  "decide demo_pg demo_db (demo_request ''tech'' s ''look'') = Not_Authorized"
  "decide demo_pg demo_db (demo_request ''finance'' s ''rm'') = Unknown_Tool"
  by (simp_all add: decide_def resolve_spec_def may_use_def approved_for_def)

theorem Call_implements_policy_witness:
  "\<exists>res err gs'. Call demo_gateway demo_clock (demo_request ''finance'' ''ses'' ''look'')
      (start_gateway None demo_db) = ((res, err), gs') \<and>
    gs_calls gs' = [(server_view demo_pg demo_db demo_server, demo_tool ''look'' ''read'',
      Raw_JSON (JObj [(''token'', JStr ''s3cret''), (''n'', JNum ''1'')]))]"
proof -
  obtain res err gs' where c: "Call demo_gateway demo_clock (demo_request ''finance'' ''ses'' ''look'')
      (start_gateway None demo_db) = ((res, err), gs')" by (metis prod.exhaust)
  from Call_implements_policy [OF _ _ _ _ _ c, of demo_pg] demo_db_inv
  show ?thesis using c by (simp add: demo_decide)
qed

subsection \<open>Safety of a call\<close>

text \<open>
  C1. Whatever fails and whatever the downstream does: if a call reaches a downstream server then
  it is the only one made, with the caller's arguments, to a registered server of the requested
  name that is approved, enabled and granted to one of the caller's committees, for a registered
  tool of that server; and if the tool has high impact, the call carries a session in which a
  person approved that tool.
\<close>

theorem gateway_call_safe:
  assumes "gw_store g = repo_store p" "Call g ck req gs = (r, gs')" "gs_calls gs' \<noteq> gs_calls gs"
  shows "\<exists>srv t row. gs_calls gs' = gs_calls gs @ [(srv, t, rq_Args req)] \<and>
    row \<in> set (mcp_servers (gs_store gs)) \<and> srv_Name row = rq_ServerName req \<and>
    srv_ID srv = srv_ID row \<and> srv_Endpoint srv = srv_Endpoint row \<and> srv_Lifecycle row = ''approved'' \<and> srv_Enabled row \<and>
    (\<exists>c \<in> set (id_Committees (rq_Identity req)). (srv_ID row, c) \<in> set (server_committees (gs_store gs))) \<and>
    t \<in> set (mcp_tools (gs_store gs)) \<and> tl_ServerID t = srv_ID row \<and> tl_Name t = rq_ToolName req \<and>
    (tl_Impact t = ''high'' \<longrightarrow> rq_SessionID req \<noteq> [] \<and>
       (\<exists>a \<in> set (approvals (gs_store gs)). pg_uuid_in p (rq_SessionID req) \<noteq> None \<and>
          ar_session_id a = pg_uuid_in p (rq_SessionID req) \<and>
          ar_tool a = rq_ToolName req \<and> ar_status a = ''approved''))"
proof -
  from repo.call_safe [OF assms] obtain b where
    c: "gs_calls gs' = gs_calls gs @ [(tb_Server b, tb_Tool b, rq_Args req)]" and
    reg: "registered_in p (gs_store gs) (rq_ServerName req) (rq_ToolName req) b" and
    au: "authorized (tb_Server b) (rq_Identity req)" and
    high: "tl_Impact (tb_Tool b) = ''high'' \<longrightarrow>
       rq_SessionID req \<noteq> [] \<and> approved_for p (gs_store gs) (rq_SessionID req) (rq_ToolName req)"
    by blast
  from reg obtain s0 where s0: "s0 \<in> set (mcp_servers (gs_store gs))" "srv_Name s0 = rq_ServerName req"
    "tb_Server b = server_view p (gs_store gs) s0" "tb_Tool b \<in> set (mcp_tools (gs_store gs))"
    "tl_ServerID (tb_Tool b) = srv_ID s0" "tl_Name (tb_Tool b) = rq_ToolName req"
    unfolding registered_in_def by blast
  from au have "srv_Lifecycle s0 = ''approved'' \<and> srv_Enabled s0 \<and>
    (\<exists>c \<in> set (id_Committees (rq_Identity req)). (srv_ID s0, c) \<in> set (server_committees (gs_store gs)))"
    by (auto simp: authorized_def s0(3) LifecycleApproved_def list_ex_iff split: if_splits)
  with c s0 high show ?thesis
    unfolding approved_for_def
    by (intro exI [of _ "tb_Server b"] exI [of _ "tb_Tool b"] exI [of _ s0]) (simp add: s0(3))
qed

theorem gateway_call_safe_witness:
  "\<exists>r gs' srv t. Call demo_gateway demo_clock (demo_request ''finance'' ''ses'' ''look'')
      (start_gateway None demo_db) = (r, gs') \<and>
    gs_calls gs' = [(srv, t, rq_Args (demo_request ''finance'' ''ses'' ''look''))] \<and>
    t \<in> set (mcp_tools demo_db) \<and> tl_Name t = ''look''"
proof -
  obtain res err gs' where c: "Call demo_gateway demo_clock (demo_request ''finance'' ''ses'' ''look'')
      (start_gateway None demo_db) = ((res, err), gs')" by (metis prod.exhaust)
  with Call_decide [OF _ _ _ _ _ c, of demo_pg] demo_db_inv have n: "gs_calls gs' \<noteq> []"
    by (simp add: demo_decide)
  from gateway_call_safe [OF _ c, of demo_pg] n c show ?thesis by auto
qed

subsection \<open>The approval of a high-impact call\<close>

lemma audit_state:
  assumes "gw_store g = repo_store p"
  obtains L where "snd (audit g req res ck d) = d\<lparr>stmts := Suc (stmts d), audit_log := L\<rparr>"
proof (cases "WriteAudit p (audit_input g req res ck) d")
  case (Pair r d')
  show ?thesis
  proof (cases r)
    case (Inl e)
    with Pair assms that [of "audit_log d"] show ?thesis
      by (auto simp: audit_store dest!: WriteAudit_error)
  next
    case (Inr e)
    with Pair have "WriteAudit p (audit_input g req res ck) d = (Inr e, d')" by simp
    from WriteAudit_ok [OF this] obtain j where "d' = d\<lparr>stmts := Suc (stmts d),
        audit_log := audit_log d @ [audit_row p (stmts d) (audit_input g req res ck) j]\<rparr>" by auto
    with Pair assms show ?thesis by (intro that) (simp add: audit_store)
  qed
qed

text \<open>A gated call asks the store for an approval record and audits the refusal if it got one.\<close>

lemma Call_gated:
  assumes inv: "db_inv (gs_store gs)" and nf: "\<forall>n. pg_fault p n = None" and g: "gw_store g = repo_store p"
    and sid: "rq_SessionID req = [] \<or> pg_uuid_in p (rq_SessionID req) \<noteq> None"
    and lim: "fst (limit_step ck (rq_Identity req) gs)"
    and dec: "decide p (gs_store gs) req = Needs_Approval"
    and call: "Call g ck req gs = ((res, err), gs')"
  shows "\<exists>n. gs_calls gs' = gs_calls gs \<and>
    (case CreateApproval p (rq_SessionID req) (rq_ToolName req) (gw_redact g (rq_Args req))
        ((gs_store gs)\<lparr>stmts := n\<rparr>) of
      (Inl e, d1) \<Rightarrow> err = Some (Wrap ''gateway: create approval: '' [] e) \<and> gs_store gs' = d1
    | (Inr ap, d1) \<Rightarrow> err = Some (ApprovalRequiredError (ap_ID ap) (rq_ToolName req)) \<and>
        gs_store gs' = snd (audit g req ''gated: awaiting approval'' ck d1))"
proof -
  let ?d = "gs_store gs" and ?sid = "rq_SessionID req" and ?tn = "rq_ToolName req"
  obtain gs1 where l: "limit_step ck (rq_Identity req) gs = (True, gs1)"
    using lim by (metis prod.collapse)
  note fr = limit_step_frame [OF l]
  from dec obtain b where b: "resolve_spec p ?d (rq_ServerName req) ?tn = Some b"
    "may_use ?d (tb_Server b) (rq_Identity req)" "tl_Impact (tb_Tool b) = ''high''"
    "\<not> (?sid \<noteq> [] \<and> approved_for p ?d ?sid ?tn)"
    by (auto simp: decide_def split: option.splits if_splits)
  obtain n where r: "ResolveTool p (rq_ServerName req) ?tn ?d = (Inr b, ?d\<lparr>stmts := n\<rparr>)"
    using ResolveTool_runs [OF inv nf, of "rq_ServerName req" ?tn] b(1) by (metis option.simps(5))
  obtain m where h: "hasApproval g ?sid ?tn (?d\<lparr>stmts := n\<rparr>) = (Inr False, ?d\<lparr>stmts := m\<rparr>)"
    using hasApproval_runs [OF g nf sid, of ?tn "?d\<lparr>stmts := n\<rparr>"] b(4) by auto
  have "gate g req ck b (gs1\<lparr>gs_store := ?d\<lparr>stmts := n\<rparr>\<rparr>) = ((res, err), gs')"
    using call l r b(2) authorized_may_use [OF b(1)]
    by (simp add: Call_def resolve_and_authorize_def fr g)
  with b(3) h g fr show ?thesis
    by (intro exI [of _ m]) (auto simp: gate_def dest: refuse_eq split: prod.splits sum.splits)
qed

lemma Call_gated_pending:
  assumes "db_inv (gs_store gs)" "\<forall>n. pg_fault p n = None" "gw_store g = repo_store p"
    and "rq_SessionID req = [] \<or>
      (\<exists>u. pg_uuid_in p (rq_SessionID req) = Some u \<and> u \<in> sr_id ` set (sessions (gs_store gs)))"
    and "\<forall>n. pg_uuid p n \<notin> ar_id ` set (approvals (gs_store gs))"
    and "gw_redact g (rq_Args req) = Raw_JSON j"
    and "fst (limit_step ck (rq_Identity req) gs)"
    and "decide p (gs_store gs) req = Needs_Approval"
    and "Call g ck req gs = ((res, err), gs')"
  shows "\<exists>a. err = Some (ApprovalRequiredError (ar_id a) (rq_ToolName req)) \<and>
    approvals (gs_store gs') = approvals (gs_store gs) @ [a] \<and> ar_status a = ''pending'' \<and>
    ar_tool a = rq_ToolName req \<and> ar_args_redacted a = j \<and>
    ar_session_id a = (if rq_SessionID req = [] then None else pg_uuid_in p (rq_SessionID req)) \<and>
    gs_calls gs' = gs_calls gs"
proof -
  let ?sid = "rq_SessionID req"
  from assms(4) have "?sid = [] \<or> pg_uuid_in p ?sid \<noteq> None" by auto
  from Call_gated [OF assms(1-3) this assms(7-9)] obtain n where
    c: "gs_calls gs' = gs_calls gs" and
    e: "case CreateApproval p ?sid (rq_ToolName req) (gw_redact g (rq_Args req)) ((gs_store gs)\<lparr>stmts := n\<rparr>) of
      (Inl e, d1) \<Rightarrow> err = Some (Wrap ''gateway: create approval: '' [] e) \<and> gs_store gs' = d1
    | (Inr ap, d1) \<Rightarrow> err = Some (ApprovalRequiredError (ap_ID ap) (rq_ToolName req)) \<and>
        gs_store gs' = snd (audit g req ''gated: awaiting approval'' ck d1)" by (elim exE conjE) (rule that)
  let ?u = "if ?sid = [] then None else pg_uuid_in p ?sid"
  let ?a = "approval_row p n ?u (rq_ToolName req) j"
  let ?d1 = "(gs_store gs)\<lparr>stmts := Suc n, approvals := approvals (gs_store gs) @ [?a]\<rparr>"
  have "CreateApproval p ?sid (rq_ToolName req) (gw_redact g (rq_Args req)) ((gs_store gs)\<lparr>stmts := n\<rparr>)
      = (Inr (scanApproval ?a), ?d1)"
    using assms(2,4,5,6)
    by (auto simp: CreateApproval_def exec_def nullable_def uuid_arg_def defaultJSON_def wrap_err_def Let_def)
  moreover obtain L where "snd (audit g req ''gated: awaiting approval'' ck ?d1)
      = ?d1\<lparr>stmts := Suc (stmts ?d1), audit_log := L\<rparr>" by (rule audit_state [OF assms(3)])
  ultimately show ?thesis
    using e c by (intro exI [of _ ?a]) (simp add: scanApproval_def)
qed

text \<open>
  C4. A high-impact call without an approval is gated: the store gains exactly one approval, pending,
  of that session and tool with the redacted arguments, the error carries its id, and nothing is
  called downstream.
\<close>

theorem gated_call_creates_pending_approval:
  assumes "db_inv (gs_store gs)" "\<forall>n. pg_fault p n = None" "gw_store g = repo_store p"
    and "rq_SessionID req = [] \<or>
      (\<exists>u. pg_uuid_in p (rq_SessionID req) = Some u \<and> u \<in> sr_id ` set (sessions (gs_store gs)))"
    and "\<forall>n. pg_uuid p n \<notin> ar_id ` set (approvals (gs_store gs))"
    and "gw_redact g (rq_Args req) = Raw_JSON j"
    and "fst (limit_step ck (rq_Identity req) gs)"
    and "decide p (gs_store gs) req = Needs_Approval"
    and "Call g ck req gs = ((res, err), gs')"
  shows "\<exists>a. err = Some (ApprovalRequiredError (ar_id a) (rq_ToolName req)) \<and>
    approvals (gs_store gs') = approvals (gs_store gs) @ [a] \<and> ar_status a = ''pending'' \<and>
    ar_tool a = rq_ToolName req \<and> ar_args_redacted a = j \<and>
    ar_session_id a = (if rq_SessionID req = [] then None else pg_uuid_in p (rq_SessionID req)) \<and>
    gs_calls gs' = gs_calls gs"
  using assms by (rule Call_gated_pending)

lemma demo_redact: "\<exists>j. RedactArgs (\<lambda>s. s) Some (rq_Args (demo_request c s t)) = Raw_JSON j"
  by (rule RedactArgs_json) simp

lemma demo_call: "\<exists>res err gs'. Call demo_gateway demo_clock req (start_gateway None d) = ((res, err), gs')"
  by (metis prod.exhaust)

theorem gated_call_creates_pending_approval_witness:
  "\<exists>res gs' a. Call demo_gateway demo_clock (demo_request ''finance'' ''ses'' ''pay'') (start_gateway None demo_db)
      = ((res, Some (ApprovalRequiredError (ar_id a) ''pay'')), gs') \<and>
    approvals (gs_store gs') = [a] \<and> ar_status a = ''pending'' \<and> gs_calls gs' = []"
proof -
  obtain j where j: "RedactArgs (\<lambda>s. s) Some (rq_Args (demo_request ''finance'' ''ses'' ''pay'')) = Raw_JSON j"
    using demo_redact [of "''finance''" "''ses''" "''pay''"] by (elim exE) (rule that)
  obtain res err gs' where c: "Call demo_gateway demo_clock (demo_request ''finance'' ''ses'' ''pay'')
      (start_gateway None demo_db) = ((res, err), gs')" using demo_call by metis
  from gated_call_creates_pending_approval [OF _ _ _ _ _ _ _ _ c, of demo_pg j] demo_db_inv j
  show ?thesis using c by (auto simp: demo_decide)
qed

lemma Call_gated_ok:
  assumes "db_inv (gs_store gs)" "\<forall>n. pg_fault p n = None" "gw_store g = repo_store p"
    and "rq_SessionID req = [] \<or> pg_uuid_in p (rq_SessionID req) \<noteq> None"
    and "fst (limit_step ck (rq_Identity req) gs)"
    and "decide p (gs_store gs) req = Needs_Approval"
    and "Call g ck req gs = ((res, Some (ApprovalRequiredError aid t)), gs')"
  obtains n a0 d1 where "gs_calls gs' = gs_calls gs"
    "CreateApproval p (rq_SessionID req) (rq_ToolName req) (gw_redact g (rq_Args req))
       ((gs_store gs)\<lparr>stmts := n\<rparr>) = (Inr a0, d1)"
    "aid = ap_ID a0" "gs_store gs' = snd (audit g req ''gated: awaiting approval'' ck d1)"
proof -
  from Call_gated [OF assms] obtain n where c: "gs_calls gs' = gs_calls gs" and
    e: "case CreateApproval p (rq_SessionID req) (rq_ToolName req) (gw_redact g (rq_Args req))
        ((gs_store gs)\<lparr>stmts := n\<rparr>) of
      (Inl e, d1) \<Rightarrow> Some (ApprovalRequiredError aid t) = Some (Wrap ''gateway: create approval: '' [] e) \<and>
        gs_store gs' = d1
    | (Inr ap, d1) \<Rightarrow> Some (ApprovalRequiredError aid t) = Some (ApprovalRequiredError (ap_ID ap) (rq_ToolName req)) \<and>
        gs_store gs' = snd (audit g req ''gated: awaiting approval'' ck d1)"
    by (elim exE conjE) (rule that)
  obtain r d1 where cr: "CreateApproval p (rq_SessionID req) (rq_ToolName req) (gw_redact g (rq_Args req))
        ((gs_store gs)\<lparr>stmts := n\<rparr>) = (r, d1)" by force
  with e show ?thesis by (cases r) (auto intro: that [OF c])
qed

lemma registry_same:
  assumes "mcp_servers d' = mcp_servers d" "mcp_tools d' = mcp_tools d"
    "server_committees d' = server_committees d"
  shows "resolve_spec p d' = resolve_spec p d" "may_use d' = may_use d"
proof -
  have "server_view p d' s = server_view p d s" for s using assms by (simp add: server_view_def)
  with assms show "resolve_spec p d' = resolve_spec p d"
    by (simp add: resolve_spec_def fun_eq_iff split: option.splits)
  from assms show "may_use d' = may_use d" by (simp add: may_use_def fun_eq_iff)
qed

lemma decide_after_approval:
  assumes "decide p d req = Needs_Approval" "rq_SessionID req \<noteq> []"
    and "approved_for p d' (rq_SessionID req) (rq_ToolName req)"
    and "mcp_servers d' = mcp_servers d" "mcp_tools d' = mcp_tools d"
      "server_committees d' = server_committees d"
  shows "\<exists>b. decide p d' req = Run b"
  using assms(1-3) registry_same [OF assms(4-6)]
  by (auto simp: decide_def split: option.splits if_splits)

lemma approved_call_reaches:
  assumes "db_inv (gs_store gs)" "\<forall>n. pg_fault p n = None" "gw_store g = repo_store p"
    and "rq_SessionID req \<noteq> []" "pg_uuid_in p (rq_SessionID req) \<noteq> None"
    and "fst (limit_step ck (rq_Identity req) gs)"
    and "decide p (gs_store gs) req = Needs_Approval"
    and "Call g ck req gs = ((res, Some (ApprovalRequiredError aid t)), gs')"
    and "pg_uuid_in p aid = Some aid"
    and "DecideApproval p aid ''approved'' who (gs_store gs') = (Inr ap, d2)"
    and "fst (limit_step ck2 (rq_Identity req) (gs'\<lparr>gs_store := d2\<rparr>))"
    and "Call g ck2 req (gs'\<lparr>gs_store := d2\<rparr>) = ((res2, err2), gs2)"
  shows "\<exists>srv tl. gs_calls gs2 = gs_calls gs @ [(srv, tl, rq_Args req)] \<and> tl_Name tl = rq_ToolName req"
proof -
  let ?d = "gs_store gs" and ?sid = "rq_SessionID req" and ?tn = "rq_ToolName req"
  obtain n a0 d1 where
    c: "gs_calls gs' = gs_calls gs" and
    cr: "CreateApproval p ?sid ?tn (gw_redact g (rq_Args req)) (?d\<lparr>stmts := n\<rparr>) = (Inr a0, d1)" and
    aid: "aid = ap_ID a0" and gs': "gs_store gs' = snd (audit g req ''gated: awaiting approval'' ck d1)"
    by (rule Call_gated_ok [OF assms(1-3) disjI2 assms(6-8)]) (use assms(5) in simp_all)
  from CreateApproval_ok [OF cr] obtain j u where u: "nullable p ?sid = Inr u" and
    a0: "a0 = scanApproval (approval_row p n u ?tn j)" and
    d1: "d1 = ?d\<lparr>stmts := Suc n, approvals := approvals ?d @ [approval_row p n u ?tn j]\<rparr>" by auto
  obtain L where d': "gs_store gs' = d1\<lparr>stmts := Suc (stmts d1), audit_log := L\<rparr>"
    using gs' by (metis audit_state [OF assms(3)])
  have id: "aid = pg_uuid p n" by (simp add: aid a0 scanApproval_def)
  have d2: "d2 = (gs_store gs')\<lparr>stmts := Suc (stmts (gs_store gs')), approvals := upd_where (\<lambda>r. ar_id r = aid)
        (\<lambda>r. r\<lparr>ar_status := ''approved'', ar_decided_by := who,
           ar_decided_at := Some (pg_now p (stmts (gs_store gs')))\<rparr>) (approvals (gs_store gs'))\<rparr>"
    by (rule DecideApproval_ok [OF assms(10)]) (use assms(9) in simp)
  have "u = pg_uuid_in p ?sid" using u assms(4) by (auto simp: nullable_def uuid_arg_def split: option.splits)
  then have ap: "approved_for p d2 ?sid ?tn"
    using assms(5) by (auto simp: approved_for_def d2 d' d1 id)
  have reg: "mcp_servers d2 = mcp_servers ?d" "mcp_tools d2 = mcp_tools ?d"
    "server_committees d2 = server_committees ?d" by (simp_all add: d2 d' d1)
  from decide_after_approval [OF assms(7,4) ap reg] obtain b where run: "decide p d2 req = Run b" by blast
  have "db_inv d1" using CreateApproval_inv [of "?d\<lparr>stmts := n\<rparr>" p ?sid ?tn "gw_redact g (rq_Args req)"]
      assms(1) cr by simp
  then have "db_inv (gs_store gs')" by (simp add: gs' audit_store assms(3) WriteAudit_inv)
  from DecideApproval_inv [OF this] have inv2: "db_inv d2" by (metis assms(10) snd_conv)
  have "tl_Name (tb_Tool b) = ?tn" using run
    by (auto simp: decide_def split: option.splits if_splits elim: resolve_spec_row)
  with Call_decide [OF _ assms(2,3) _ assms(11,12)] inv2 assms(5) run c show ?thesis by auto
qed

text \<open>
  Once a person approves the recorded request, the same call goes through: after the decision
  the policy lets it run, and a repeated call that passes the limiter reaches the tool.
\<close>

theorem approved_call_runs:
  assumes "db_inv (gs_store gs)" "\<forall>n. pg_fault p n = None" "gw_store g = repo_store p"
    and "rq_SessionID req \<noteq> []" "pg_uuid_in p (rq_SessionID req) \<noteq> None"
    and "fst (limit_step ck (rq_Identity req) gs)"
    and "decide p (gs_store gs) req = Needs_Approval"
    and "Call g ck req gs = ((res, Some (ApprovalRequiredError aid t)), gs')"
    and "pg_uuid_in p aid = Some aid"
    and "DecideApproval p aid ''approved'' who (gs_store gs') = (Inr ap, d2)"
    and "fst (limit_step ck2 (rq_Identity req) (gs'\<lparr>gs_store := d2\<rparr>))"
    and "Call g ck2 req (gs'\<lparr>gs_store := d2\<rparr>) = ((res2, err2), gs2)"
  shows "\<exists>srv tl. gs_calls gs2 = gs_calls gs @ [(srv, tl, rq_Args req)] \<and> tl_Name tl = rq_ToolName req"
  using assms by (rule approved_call_reaches)

lemma Call_limiter: "gs_limiter (snd (Call g ck req gs)) = gs_limiter (snd (limit_step ck (rq_Identity req) gs))"
  by (auto simp: Call_def resolve_and_authorize_def gate_def dispatch_def refuse_def Let_def
      split: prod.splits sum.splits bool.splits)

lemma demo_gated:
  obtains res gs' a where "Call demo_gateway demo_clock (demo_request ''finance'' ''ses'' ''pay'')
      (start_gateway None demo_db) = ((res, Some (ApprovalRequiredError (ar_id a) ''pay'')), gs')"
    "approvals (gs_store gs') = [a]" "gs_limiter gs' = None"
proof -
  obtain j where j: "RedactArgs (\<lambda>s. s) Some (rq_Args (demo_request ''finance'' ''ses'' ''pay'')) = Raw_JSON j"
    using demo_redact [of "''finance''" "''ses''" "''pay''"] by (elim exE) (rule that)
  obtain res err gs' where c: "Call demo_gateway demo_clock (demo_request ''finance'' ''ses'' ''pay'')
      (start_gateway None demo_db) = ((res, err), gs')" using demo_call by metis
  from Call_limiter [of demo_gateway demo_clock "demo_request ''finance'' ''ses'' ''pay''" "start_gateway None demo_db"]
  have "gs_limiter gs' = None" by (simp add: c)
  with Call_gated_pending [OF _ _ _ _ _ _ _ _ c, of demo_pg j] demo_db_inv j c that show ?thesis
    by (auto simp: demo_decide)
qed

theorem approved_call_runs_witness:
  "\<exists>res aid gs' ap d2 res2 err2 gs2 srv tl.
    Call demo_gateway demo_clock (demo_request ''finance'' ''ses'' ''pay'') (start_gateway None demo_db)
      = ((res, Some (ApprovalRequiredError (aid) ''pay'')), gs') \<and>
    DecideApproval demo_pg (aid) ''approved'' ''lead'' (gs_store gs') = (Inr ap, d2) \<and>
    Call demo_gateway demo_clock (demo_request ''finance'' ''ses'' ''pay'') (gs'\<lparr>gs_store := d2\<rparr>)
      = ((res2, err2), gs2) \<and>
    gs_calls gs2 = [(srv, tl, rq_Args (demo_request ''finance'' ''ses'' ''pay''))] \<and> tl_Name tl = ''pay''"
proof -
  let ?req = "demo_request ''finance'' ''ses'' ''pay''"
  obtain res gs' a where c: "Call demo_gateway demo_clock ?req (start_gateway None demo_db)
      = ((res, Some (ApprovalRequiredError (ar_id a) ''pay'')), gs')"
    and a: "approvals (gs_store gs') = [a]" and l: "gs_limiter gs' = None" by (rule demo_gated)
  obtain ap d2 where d: "DecideApproval demo_pg (ar_id a) ''approved'' ''lead'' (gs_store gs') = (Inr ap, d2)"
    using a by (simp add: DecideApproval_def store_eval approval_status_def)
  obtain res2 err2 gs2 where c2: "Call demo_gateway demo_clock ?req (gs'\<lparr>gs_store := d2\<rparr>) = ((res2, err2), gs2)"
    by (metis prod.exhaust)
  have lim: "fst (limit_step demo_clock (rq_Identity ?req) (gs'\<lparr>gs_store := d2\<rparr>))"
    by (simp add: limit_step_def l)
  from approved_call_runs [OF _ _ _ _ _ _ _ c _ d lim c2] demo_db_inv
  have "\<exists>srv tl. gs_calls gs2 = [(srv, tl, rq_Args ?req)] \<and> tl_Name tl = ''pay''"
    by (simp add: demo_decide)
  then obtain srv tl where "gs_calls gs2 = [(srv, tl, rq_Args ?req)]" "tl_Name tl = ''pay''"
    by (elim exE conjE)
  with c d c2 show ?thesis by (intro exI conjI)
qed

lemma switched_off:
  assumes "SetServerEnabled p name False d = (Inr u, d')" "s \<in> set (mcp_servers d')" "srv_Name s = name"
  shows "\<not> srv_Enabled s"
proof -
  from assms(1) have d': "mcp_servers d' = upd_where (\<lambda>s. srv_Name s = name)
      (\<lambda>s. s\<lparr>srv_Enabled := False, srv_UpdatedAt := pg_now p (stmts d)\<rparr>) (mcp_servers d)"
    by (auto simp: SetServerEnabled_def rows_or_not_found_def update_server_def Let_def
        split: prod.splits sum.splits if_splits dest!: exec_Inr)
  from assms(2) [unfolded d' set_upd_where] obtain x where
    "s = (if srv_Name x = name then x\<lparr>srv_Enabled := False, srv_UpdatedAt := pg_now p (stmts d)\<rparr> else x)"
    by (elim imageE)
  with assms(3) show ?thesis by (cases "srv_Name x = name") simp_all
qed

lemma disabled_server_stops:
  assumes "SetServerEnabled p name False d = (Inr u, d')" "rq_ServerName req = name"
  shows "decide p d' req \<in> {Unknown_Tool, Not_Authorized} \<and>
    (\<forall>cs v. v \<in> set (visible_rows p cs d') \<longrightarrow> vt_ServerName v \<noteq> name)"
proof -
  note off = switched_off [OF assms(1)]
  have "decide p d' req \<in> {Unknown_Tool, Not_Authorized}"
  proof (cases "resolve_spec p d' (rq_ServerName req) (rq_ToolName req)")
    case (Some b)
    then obtain s0 where "s0 \<in> set (mcp_servers d')" "srv_Name s0 = name" "tb_Server b = server_view p d' s0"
      using assms(2) by (auto elim: resolve_spec_row)
    with off Some show ?thesis by (simp add: decide_def may_use_def)
  qed (simp add: decide_def)
  moreover have "vt_ServerName v \<noteq> name" if "v \<in> set (visible_rows p cs d')" for cs v
    using that off by (auto simp: visible_rows_def)
  ultimately show ?thesis by blast
qed

text \<open>A call answered without an error has reached a tool.\<close>

lemma Call_answered:
  assumes "Call g ck req gs = ((res, None), gs')"
  shows "gs_calls gs' \<noteq> gs_calls gs"
proof -
  obtain ok gs1 where l: "limit_step ck (rq_Identity req) gs = (ok, gs1)" by force
  note fr = limit_step_frame [OF l]
  from assms l fr show ?thesis
    by (auto simp: Call_def resolve_and_authorize_def gate_def dispatch_def refuse_def Let_def
        split: if_splits prod.splits sum.splits bool.splits)
qed

text \<open>At the gateway itself: while every row of a name is switched off, nothing of it runs or is listed.\<close>

lemma off_no_call:
  assumes "gw_store g = repo_store p" "Call g ck req gs = ((res, err), gs')"
    and off: "\<And>s. s \<in> set (mcp_servers (gs_store gs)) \<Longrightarrow> srv_Name s = rq_ServerName req \<Longrightarrow> \<not> srv_Enabled s"
  shows "gs_calls gs' = gs_calls gs \<and> err \<noteq> None"
proof (rule context_conjI)
  show "gs_calls gs' = gs_calls gs"
  proof (rule ccontr)
    assume "gs_calls gs' \<noteq> gs_calls gs"
    from repo.call_safe [OF assms(1,2) this] obtain b where
      "registered_in p (gs_store gs) (rq_ServerName req) (rq_ToolName req) b" "authorized (tb_Server b) (rq_Identity req)" by blast
    with off show False by (auto simp: registered_in_def authorized_def split: if_splits)
  qed
  with assms(2) Call_answered [of g ck req gs res gs'] show "err \<noteq> None" by (cases err) auto
qed

lemma visible_rows_stmts: "visible_rows p cs (d\<lparr>stmts := n\<rparr>) = visible_rows p cs d"
  by (simp add: visible_rows_def cong: if_cong)

lemma off_not_listed:
  assumes "gw_store g = repo_store p" "ListTools g ident gs = (Inr vs, gs')"
    and off: "\<And>s. s \<in> set (mcp_servers (gs_store gs)) \<Longrightarrow> srv_Name s = n \<Longrightarrow> \<not> srv_Enabled s"
  shows "list_all (\<lambda>v. vt_ServerName v \<noteq> n) vs"
proof -
  from assms(1,2) have "vs = [] \<or> vs = visible_rows p (id_Committees ident) (gs_store gs)"
    by (auto simp: ListTools_def ListVisibleTools_def select_def visible_rows_stmts split: prod.splits if_splits dest!: exec_Inr)
  with off show ?thesis by (auto simp: list_all_iff visible_rows_def)
qed

text \<open>
  Operators can stop a server at once: after a successful \<open>SetServerEnabled\<close> to false no call to
  any tool of that server runs, whoever makes it, and none of its tools is listed.
\<close>

theorem kill_switch:
  assumes "SetServerEnabled p name False d = (Inr u, d')" "rq_ServerName req = name"
  shows "decide p d' req \<in> {Unknown_Tool, Not_Authorized} \<and>
    (\<forall>cs v. v \<in> set (visible_rows p cs d') \<longrightarrow> vt_ServerName v \<noteq> name)"
  using assms by (rule disabled_server_stops)

theorem kill_switch_witness:
  "\<exists>d'. SetServerEnabled demo_pg ''fin'' False demo_db = (Inr (), d') \<and>
     decide demo_pg d' (demo_request ''finance'' ''ses'' ''look'') \<in> {Unknown_Tool, Not_Authorized}"
proof -
  have "\<exists>d'. SetServerEnabled demo_pg ''fin'' False demo_db = (Inr (), d')"
    by (simp add: SetServerEnabled_def rows_or_not_found_def update_server_def exec_def)
  then obtain d' where d: "SetServerEnabled demo_pg ''fin'' False demo_db = (Inr (), d')" by (elim exE)
  from kill_switch [OF d, of "demo_request ''finance'' ''ses'' ''look''"] d show ?thesis by simp
qed

subsection \<open>The audit trail\<close>

definition denial :: "goerr \<Rightarrow> string" where
  "denial e = (if e = ErrRateLimited then ''denied: rate limited''
     else if e = ErrUnknownTool then ''denied: unknown tool'' else ''denied: unauthorized'')"

lemma hasApproval_error:
  "hasApproval g sid t s = (Inl e, s') \<Longrightarrow> \<exists>e'. e = Wrap ''gateway: list approvals: '' [] e'"
  by (auto simp: hasApproval_def and_then_def wrap_err_def map_err_Inl_iff
      split: if_splits prod.splits sum.splits)

lemma gate_not_denied:
  assumes "gate g req ck b gs = ((res, Some e), gs')"
  shows "e \<notin> {ErrRateLimited, ErrUnknownTool, ErrUnauthorized}"
  using assms
  by (auto simp: gate_def dispatch_def error_defs Let_def dest!: hasApproval_error refuse_result
      split: if_splits prod.splits sum.splits bool.splits)

lemma Call_denied:
  assumes g: "gw_store g = repo_store p" and c: "Call g ck req gs = ((res, Some e), gs')"
    and e: "e \<in> {ErrRateLimited, ErrUnknownTool, ErrUnauthorized}"
  shows "\<exists>d. same_tables (gs_store gs) d \<and> gs_store gs' = snd (audit g req (denial e) ck d) \<and>
    gs_calls gs' = gs_calls gs"
proof -
  obtain ok gs1 where l: "limit_step ck (rq_Identity req) gs = (ok, gs1)" by force
  note fr = limit_step_frame [OF l]
  show ?thesis
  proof (cases ok)
    case False
    with c l have "refuse g req ck ''denied: rate limited'' ErrRateLimited gs1 = ((res, Some e), gs')"
      by (simp add: Call_def)
    from refuse_eq [OF this] fr show ?thesis
      by (intro exI [of _ "gs_store gs"]) (simp add: denial_def)
  next
    case True
    obtain br s1 where r: "ResolveTool p (rq_ServerName req) (rq_ToolName req) (gs_store gs) = (br, s1)"
      by force
    have same: "same_tables (gs_store gs) s1"
      using ResolveTool_same [of "gs_store gs" p "rq_ServerName req" "rq_ToolName req"] r by simp
    have c1: "resolve_and_authorize g req ck gs1 = ((res, Some e), gs')"
      using c l True by (simp add: Call_def)
    have "\<exists>e1. refuse g req ck (denial e1) e1 (gs1\<lparr>gs_store := s1\<rparr>) = ((res, Some e), gs')"
    proof (cases br)
      case (Inl e0)
      with c1 r g fr e show ?thesis
        by (intro exI [of _ ErrUnknownTool])
          (auto simp: resolve_and_authorize_def denial_def error_defs split: if_splits)
    next
      case (Inr b)
      with c1 r g fr e gate_not_denied [of g req ck b "gs1\<lparr>gs_store := s1\<rparr>" res e gs'] show ?thesis
        by (intro exI [of _ ErrUnauthorized])
          (auto simp: resolve_and_authorize_def denial_def error_defs split: if_splits)
    qed
    then obtain e1 where rf: "refuse g req ck (denial e1) e1 (gs1\<lparr>gs_store := s1\<rparr>) = ((res, Some e), gs')"
      by blast
    from refuse_eq [OF rf] fr same show ?thesis by (intro exI [of _ s1]) simp
  qed
qed

lemma audit_runs:
  assumes "gw_store g = repo_store p" "\<forall>n. pg_fault p n = None"
    and "\<forall>n. pg_serial p n \<notin> lr_id ` set (audit_log d)"
    and "gw_redact g (rq_Args req) = Raw_JSON j" "int4 (go_div (Sub (ck_audit ck) (ck_start ck)) 1000000)"
  obtains row where "audit g req t ck d = (lr_id row, d\<lparr>stmts := Suc (stmts d), audit_log := audit_log d @ [row]\<rparr>)"
    "lr_actor row = id_Subject (rq_Identity req)" "lr_tool row = rq_ServerName req @ ''/'' @ rq_ToolName req"
    "lr_args_redacted row = j" "lr_result row = t"
proof -
  have "WriteAudit p (audit_input g req t ck) d =
    (Inr (scanAudit (audit_row p (stmts d) (audit_input g req t ck) j)),
     d\<lparr>stmts := Suc (stmts d), audit_log := audit_log d @ [audit_row p (stmts d) (audit_input g req t ck) j]\<rparr>)"
    using assms(2-5) by (intro WriteAudit_runs) (auto simp: audit_input_def defaultJSON_def)
  with assms(1) show ?thesis
    by (intro that [of "audit_row p (stmts d) (audit_input g req t ck) j"])
      (simp_all add: audit_def audit_input_def scanAudit_def)
qed

text \<open>
  C7. A refused call is audited: when a call is turned away (rate limit, unknown tool, no grant) and
  the database answers, the only change to the tables is one new audit row with the caller, the
  tool, the redacted arguments and the reason.
\<close>

theorem refusal_audited:
  assumes "gw_store g = repo_store p" "\<forall>n. pg_fault p n = None"
    and "\<forall>n. pg_serial p n \<notin> lr_id ` set (audit_log (gs_store gs))"
    and "gw_redact g (rq_Args req) = Raw_JSON j"
    and "int4 (go_div (Sub (ck_audit ck) (ck_start ck)) 1000000)"
    and "Call g ck req gs = ((res, Some e), gs')"
    and "e \<in> {ErrRateLimited, ErrUnknownTool, ErrUnauthorized}"
  shows "\<exists>row. audit_log (gs_store gs') = audit_log (gs_store gs) @ [row] \<and>
    lr_actor row = id_Subject (rq_Identity req) \<and>
    lr_tool row = rq_ServerName req @ ''/'' @ rq_ToolName req \<and>
    lr_args_redacted row = j \<and> lr_result row = denial e \<and>
    same_tables (gs_store gs) ((gs_store gs')\<lparr>audit_log := audit_log (gs_store gs)\<rparr>) \<and>
    gs_calls gs' = gs_calls gs"
proof -
  from Call_denied [OF assms(1,6,7)] obtain d where d: "same_tables (gs_store gs) d"
    "gs_store gs' = snd (audit g req (denial e) ck d)" "gs_calls gs' = gs_calls gs" by blast
  have log: "audit_log d = audit_log (gs_store gs)" using d(1) by (rule same_tablesD)
  have fresh: "\<forall>n. pg_serial p n \<notin> lr_id ` set (audit_log d)" using assms(3) log by simp
  obtain row where row: "audit g req (denial e) ck d
      = (lr_id row, d\<lparr>stmts := Suc (stmts d), audit_log := audit_log d @ [row]\<rparr>)"
    "lr_actor row = id_Subject (rq_Identity req)" "lr_tool row = rq_ServerName req @ ''/'' @ rq_ToolName req"
    "lr_args_redacted row = j" "lr_result row = denial e"
    by (rule audit_runs [OF assms(1,2) fresh assms(4,5)])
  have "same_tables (gs_store gs) (d\<lparr>stmts := Suc (stmts d), audit_log := audit_log (gs_store gs)\<rparr>)"
    using d(1) log unfolding same_tables_def by (cases d, cases "gs_store gs") simp
  with d row log show ?thesis by (intro exI [of _ row]) simp
qed

lemma demo_latency: "int4 (go_div (Sub (ck_audit demo_clock) (ck_start demo_clock)) 1000000)"
  by (simp add: demo_clock_def Sub_def go_div_def int4_def)

lemma demo_json: obtains j where
  "gw_redact demo_gateway (rq_Args (demo_request c s t)) = Raw_JSON j"
  using demo_redact [of c s t] by (elim exE) (simp add: that)

theorem refusal_audited_witness:
  "\<exists>res gs' row. Call demo_gateway demo_clock (demo_request ''tech'' ''ses'' ''look'') (start_gateway None demo_db)
      = ((res, Some ErrUnauthorized), gs') \<and>
    audit_log (gs_store gs') = [row] \<and> lr_actor row = ''ada'' \<and> lr_result row = ''denied: unauthorized''"
proof -
  let ?req = "demo_request ''tech'' ''ses'' ''look''"
  obtain j where j: "gw_redact demo_gateway (rq_Args ?req) = Raw_JSON j" by (rule demo_json)
  obtain res err gs' where c: "Call demo_gateway demo_clock ?req (start_gateway None demo_db) = ((res, err), gs')"
    by (metis prod.exhaust)
  from Call_decide [OF _ _ _ _ _ c, of demo_pg] demo_db_inv have e: "err = Some ErrUnauthorized"
    by (simp add: demo_decide)
  from refusal_audited [OF _ _ _ j demo_latency c [unfolded e], of demo_pg]
  obtain row where "audit_log (gs_store gs') = [row]" "lr_actor row = ''ada''"
    "lr_result row = ''denied: unauthorized''"
    by (auto simp: denial_def error_defs)
  with c e show ?thesis by (intro exI [of _ res] exI [of _ gs'] exI [of _ row]) simp
qed

text \<open>A call that goes downstream has only read the tables before.\<close>

lemma Call_dispatches:
  assumes "gw_store g = repo_store p" "Call g ck req gs = (r, gs')" "gs_calls gs' \<noteq> gs_calls gs"
  obtains gs1 b d where "limit_step ck (rq_Identity req) gs = (True, gs1)" "same_tables (gs_store gs) d"
    "(r, gs') = dispatch g req ck b (gs1\<lparr>gs_store := d\<rparr>)"
proof -
  from Call_dispatched [OF assms(2,3)] obtain gs1 b s1 s2 where
    l: "limit_step ck (rq_Identity req) gs = (True, gs1)" and
    r: "st_ResolveTool (gw_store g) (rq_ServerName req) (rq_ToolName req) (gs_store gs) = (Inr b, s1)" and
    h: "tl_Impact (tb_Tool b) = ''high'' \<Longrightarrow>
       hasApproval g (rq_SessionID req) (rq_ToolName req) s1 = (Inr True, s2)" and
    nh: "tl_Impact (tb_Tool b) \<noteq> ''high'' \<Longrightarrow> s2 = s1" and
    d: "(r, gs') = dispatch g req ck b (gs1\<lparr>gs_store := s2\<rparr>)" by metis
  have s1: "same_tables (gs_store gs) s1"
    using ResolveTool_same [of "gs_store gs" p "rq_ServerName req" "rq_ToolName req"] r assms(1) by simp
  have "same_tables (gs_store gs) s2"
  proof (cases "tl_Impact (tb_Tool b) = ''high''")
    case True
    from h [OF True] have "s2 = s1 \<or> s2 = s1\<lparr>stmts := Suc (stmts s1)\<rparr>"
      using ListApprovalsBySession_state [of p "rq_SessionID req" s1]
      by (auto simp: hasApproval_def and_then_Inr assms(1) split: if_splits)
    with s1 show ?thesis by auto
  qed (use nh s1 in simp)
  with that l d show thesis by blast
qed

text \<open>
  C6. A call that went downstream is audited: after the downstream answered, exactly one row is
  added with the caller, the tool, the redacted arguments and \<open>ok\<close> or the error's text, and the
  result carries that row's id.
\<close>

theorem served_call_audited:
  assumes "gw_store g = repo_store p" "\<forall>n. pg_fault p n = None"
    and "gw_redact g (rq_Args req) = Raw_JSON j"
    and "int4 (go_div (Sub (ck_audit ck) (ck_start ck)) 1000000)"
    and "Call g ck req gs = ((res, err), gs')" "gs_calls gs' \<noteq> gs_calls gs"
    and "\<forall>srv t d n. same_tables (gs_store gs) d \<longrightarrow>
      pg_serial p n \<notin> lr_id ` set (audit_log (snd (gw_caller g srv t (rq_Args req) d)))"
  shows "\<exists>srv t d out d1 row. gs_calls gs' = gs_calls gs @ [(srv, t, rq_Args req)] \<and>
    same_tables (gs_store gs) d \<and> gw_caller g srv t (rq_Args req) d = (out, d1) \<and>
    gs_store gs' = d1\<lparr>stmts := Suc (stmts d1), audit_log := audit_log d1 @ [row]\<rparr> \<and>
    lr_actor row = id_Subject (rq_Identity req) \<and>
    lr_tool row = rq_ServerName req @ ''/'' @ rq_ToolName req \<and> lr_args_redacted row = j \<and>
    cs_AuditID res = lr_id row \<and>
    (case out of Inl e \<Rightarrow> lr_result row = ''error: '' @ Error e \<and> err = Some (Wrap ''gateway: downstream call: '' [] e)
       | Inr v \<Rightarrow> lr_result row = ''ok'' \<and> err = None \<and> cs_Output res = v)"
proof -
  obtain gs1 b s2 where l: "limit_step ck (rq_Identity req) gs = (True, gs1)" and s2: "same_tables (gs_store gs) s2"
    and d: "((res, err), gs') = dispatch g req ck b (gs1\<lparr>gs_store := s2\<rparr>)"
    by (rule Call_dispatches [OF assms(1,5,6)])
  obtain out d1 where out: "gw_caller g (tb_Server b) (tb_Tool b) (rq_Args req) s2 = (out, d1)" by force
  with assms(7) s2 have fresh: "\<forall>n. pg_serial p n \<notin> lr_id ` set (audit_log d1)" by (metis snd_conv)
  let ?t = "case out of Inl e \<Rightarrow> ''error: '' @ Error e | Inr _ \<Rightarrow> ''ok''"
  obtain row where row: "audit g req ?t ck d1
      = (lr_id row, d1\<lparr>stmts := Suc (stmts d1), audit_log := audit_log d1 @ [row]\<rparr>)"
    "lr_actor row = id_Subject (rq_Identity req)" "lr_tool row = rq_ServerName req @ ''/'' @ rq_ToolName req"
    "lr_args_redacted row = j" "lr_result row = ?t"
    by (rule audit_runs [OF assms(1,2) fresh assms(3,4)])
  show ?thesis
    using d out row s2 limit_step_frame(2) [OF l]
    by (intro exI [of _ "tb_Server b"] exI [of _ "tb_Tool b"] exI [of _ s2] exI [of _ out] exI [of _ d1]
        exI [of _ row]) (cases out; simp add: dispatch_def)
qed

theorem served_call_audited_witness:
  "\<exists>res gs' row. Call demo_gateway demo_clock (demo_request ''finance'' ''ses'' ''look'') (start_gateway None demo_db)
      = ((res, None), gs') \<and> audit_log (gs_store gs') = [row] \<and> cs_AuditID res = lr_id row \<and>
    lr_result row = ''ok'' \<and> lr_tool row = ''fin/look''"
proof -
  let ?req = "demo_request ''finance'' ''ses'' ''look''"
  obtain j where j: "gw_redact demo_gateway (rq_Args ?req) = Raw_JSON j" by (rule demo_json)
  obtain res err gs' where c: "Call demo_gateway demo_clock ?req (start_gateway None demo_db) = ((res, err), gs')"
    by (metis prod.exhaust)
  from Call_decide [OF _ _ _ _ _ c, of demo_pg] demo_db_inv
  have n: "gs_calls gs' \<noteq> gs_calls (start_gateway None demo_db)" by (simp add: demo_decide)
  have log: "audit_log d = []" if "same_tables demo_db d" for d using same_tablesD(8) [OF that] by simp
  have fr: "\<forall>srv t d n. same_tables (gs_store (start_gateway None demo_db)) d \<longrightarrow>
      pg_serial demo_pg n \<notin> lr_id ` set (audit_log (snd (gw_caller demo_gateway srv t (rq_Args ?req) d)))"
    using log by simp
  from served_call_audited [OF _ _ j demo_latency c n fr]
  obtain row where "audit_log (gs_store gs') = [row]" "cs_AuditID res = lr_id row" "lr_result row = ''ok''"
    "lr_tool row = ''fin/look''" "err = None"
    using log by auto
  with c show ?thesis by (intro exI [of _ res] exI [of _ gs'] exI [of _ row]) simp
qed

subsection \<open>Redaction\<close>

text \<open>
  C9. Secrets are masked before arguments are stored, when the arguments can be decoded: if every
  number written anywhere in a JSON object fits a \<open>float64\<close>, its redacted form has the same keys,
  each once, every key that lowers to a sensitive name has the value \<open>"***"\<close>, and every other key
  has its last value, decoded and encoded again.  If one number does not fit (\<open>1e400\<close>), the
  arguments are recorded exactly as they came, their secrets with them.
\<close>

theorem redact_masks_secrets:
  "if list_all (\<lambda>s. num s \<noteq> None) (numbers (JObj kvs))
   then \<exists>m. RedactArgs uni num (Raw_JSON (JObj kvs)) = Raw_JSON (JObj m) \<and>
     fst ` set m = fst ` set kvs \<and> distinct (map fst m) \<and>
     (\<forall>(k, v) \<in> set m. if ToLower uni k \<in> set sensitiveKeys then v = JStr ''***''
        else \<exists>w. map_of (rev kvs) k = Some w \<and> any_json num w = Some v)
   else RedactArgs uni num (Raw_JSON (JObj kvs)) = Raw_JSON (JObj kvs)"
proof (cases "list_all (\<lambda>s. num s \<noteq> None) (numbers (JObj kvs))")
  case True
  show ?thesis unfolding if_P [OF True] by (rule RedactArgs_object [OF True])
next
  case False
  show ?thesis unfolding if_not_P [OF False] by (rule RedactArgs_undecodable [OF False])
qed

text \<open>A decoder that reads every number but \<open>1e400\<close>: the token is masked beside \<open>1\<close> and kept beside \<open>1e400\<close>.\<close>

theorem redact_masks_secrets_witness:
  "(\<exists>m. RedactArgs (\<lambda>s. s) (\<lambda>s. if s = ''1e400'' then None else Some s)
          (Raw_JSON (JObj [(''Token'', JStr ''x''), (''a'', JNum ''1'')])) = Raw_JSON (JObj m) \<and>
        (''Token'', JStr ''***'') \<in> set m) \<and>
   RedactArgs (\<lambda>s. s) (\<lambda>s. if s = ''1e400'' then None else Some s)
     (Raw_JSON (JObj [(''Token'', JStr ''x''), (''a'', JNum ''1e400'')])) =
     Raw_JSON (JObj [(''Token'', JStr ''x''), (''a'', JNum ''1e400'')])"
proof
  let ?num = "\<lambda>s. if s = ''1e400'' then None else Some s"
  let ?kvs = "[(''Token'', JStr ''x''), (''a'', JNum ''1'')]"
  have "list_all (\<lambda>s. ?num s \<noteq> None) (numbers (JObj ?kvs))" by simp
  from redact_masks_secrets [where num = ?num and kvs = ?kvs and uni = "\<lambda>s. s", unfolded if_P [OF this]]
  obtain m where m: "RedactArgs (\<lambda>s. s) ?num (Raw_JSON (JObj ?kvs)) = Raw_JSON (JObj m)"
    "fst ` set m = {''Token'', ''a''}"
    "\<forall>(k, v) \<in> set m. if ToLower (\<lambda>s. s) k \<in> set sensitiveKeys then v = JStr ''***''
       else \<exists>w. map_of (rev ?kvs) k = Some w \<and> any_json ?num w = Some v"
    by auto
  from m(2) have "''Token'' \<in> fst ` set m" by simp
  then obtain v where v: "(''Token'', v) \<in> set m" by auto
  have "ToLower (\<lambda>s. s) ''Token'' \<in> set sensitiveKeys" by code_simp
  with m(3) v have "v = JStr ''***''" by auto
  with m(1) v show "\<exists>m. RedactArgs (\<lambda>s. s) ?num (Raw_JSON (JObj ?kvs)) = Raw_JSON (JObj m) \<and>
      (''Token'', JStr ''***'') \<in> set m" by blast
next
  let ?num = "\<lambda>s. if s = ''1e400'' then None else Some s"
  let ?kvs = "[(''Token'', JStr ''x''), (''a'', JNum ''1e400'')]"
  have "\<not> list_all (\<lambda>s. ?num s \<noteq> None) (numbers (JObj ?kvs))" by simp
  from redact_masks_secrets [where num = ?num and kvs = ?kvs and uni = "\<lambda>s. s", unfolded if_not_P [OF this]]
  show "RedactArgs (\<lambda>s. s) ?num (Raw_JSON (JObj ?kvs)) = Raw_JSON (JObj ?kvs)" .
qed

subsection \<open>Discovery\<close>

lemma visible_rows_iff:
  "v \<in> set (visible_rows p cs d) \<longleftrightarrow>
     (\<exists>s \<in> set (mcp_servers d). \<exists>t \<in> set (mcp_tools d). \<exists>c \<in> set cs.
        tl_ServerID t = srv_ID s \<and> srv_Lifecycle s = ''approved'' \<and> srv_Enabled s \<and>
        (srv_ID s, c) \<in> set (server_committees d) \<and>
        v = \<lparr>vt_ServerName = srv_Name s, vt_ServerID = srv_ID s, vt_ToolName = tl_Name t,
             vt_Scope = tl_Scope t, vt_Impact = tl_Impact t\<rparr>)" (is "?l \<longleftrightarrow> ?r")
proof
  assume ?l
  then obtain t s b where "t \<in> set (mcp_tools d)" "s \<in> set (mcp_servers d)" "b \<in> set cs"
    "tl_ServerID t = srv_ID s" "srv_Lifecycle s = ''approved''" "srv_Enabled s"
    "(srv_ID s, b) \<in> set (server_committees d)"
    "v = \<lparr>vt_ServerName = srv_Name s, vt_ServerID = srv_ID s, vt_ToolName = tl_Name t,
             vt_Scope = tl_Scope t, vt_Impact = tl_Impact t\<rparr>"
    by (auto simp: visible_rows_def LifecycleApproved_def) metis
  then show ?r by (intro bexI [of _ s] bexI [of _ t] bexI [of _ b]) simp_all
next
  assume ?r
  then obtain s t c where st: "s \<in> set (mcp_servers d)" "t \<in> set (mcp_tools d)" "c \<in> set cs"
    "tl_ServerID t = srv_ID s" "srv_Lifecycle s = ''approved''" "srv_Enabled s"
    "(srv_ID s, c) \<in> set (server_committees d)"
    "v = \<lparr>vt_ServerName = srv_Name s, vt_ServerID = srv_ID s, vt_ToolName = tl_Name t,
             vt_Scope = tl_Scope t, vt_Impact = tl_Impact t\<rparr>" by blast
  from st(7) st show ?l
    unfolding visible_rows_def set_sort set_remdups set_concat
    by (intro UN_I [of "_"] imageI)
      (auto simp: LifecycleApproved_def disjoint_iff intro!: bexI [of _ t] bexI [of _ s] bexI [of _ "(srv_ID s, c)"])
qed

text \<open>A row is visible for a pair of names exactly when such a server with such a tool may be used.\<close>

lemma visible_pair_iff:
  "(\<exists>v \<in> set (visible_rows p (id_Committees ident) d). vt_ServerName v = sn \<and> vt_ToolName v = tn) \<longleftrightarrow>
     (\<exists>s \<in> set (mcp_servers d). \<exists>t \<in> set (mcp_tools d). srv_Name s = sn \<and> tl_Name t = tn \<and>
        tl_ServerID t = srv_ID s \<and> may_use d s ident)"
  (is "?l \<longleftrightarrow> ?m")
proof
  let ?cs = "id_Committees ident"
  assume ?l
  then obtain v where v: "v \<in> set (visible_rows p ?cs d)" "vt_ServerName v = sn" "vt_ToolName v = tn" by blast
  from v(1) [unfolded visible_rows_iff] obtain s t c where "s \<in> set (mcp_servers d)"
    "t \<in> set (mcp_tools d)" "c \<in> set ?cs" "tl_ServerID t = srv_ID s" "srv_Lifecycle s = ''approved''"
    "srv_Enabled s" "(srv_ID s, c) \<in> set (server_committees d)"
    "srv_Name s = vt_ServerName v" "tl_Name t = vt_ToolName v" by (elim bexE conjE) simp
  with v show ?m by (intro bexI [of _ s] bexI [of _ t]) (auto simp: may_use_def)
next
  let ?cs = "id_Committees ident"
  assume ?m
  then obtain s t c where st: "s \<in> set (mcp_servers d)" "t \<in> set (mcp_tools d)" "srv_Name s = sn"
    "tl_Name t = tn" "tl_ServerID t = srv_ID s" "srv_Lifecycle s = ''approved''" "srv_Enabled s"
    "c \<in> set ?cs" "(srv_ID s, c) \<in> set (server_committees d)"
    unfolding may_use_def by blast
  let ?v = "\<lparr>vt_ServerName = srv_Name s, vt_ServerID = srv_ID s, vt_ToolName = tl_Name t,
           vt_Scope = tl_Scope t, vt_Impact = tl_Impact t\<rparr>"
  have "?v \<in> set (visible_rows p ?cs d)" unfolding visible_rows_iff
    by (rule bexI [of _ s], rule bexI [of _ t], rule bexI [of _ c]) (simp_all add: st)
  with st show ?l by (intro bexI [of _ ?v]) simp_all
qed

text \<open>Names being unique, such a pair is the one that resolves.\<close>

lemma resolve_pair_iff:
  assumes "db_inv d"
  shows "(\<exists>b. resolve_spec p d sn tn = Some b \<and> may_use d (tb_Server b) ident) \<longleftrightarrow>
     (\<exists>s \<in> set (mcp_servers d). \<exists>t \<in> set (mcp_tools d). srv_Name s = sn \<and> tl_Name t = tn \<and>
        tl_ServerID t = srv_ID s \<and> may_use d s ident)"
  (is "?r \<longleftrightarrow> ?m")
proof
  assume ?r
  then obtain b where b: "resolve_spec p d sn tn = Some b" "may_use d (tb_Server b) ident" by blast
  from b(1) show ?m by (rule resolve_spec_row) (use b(2) in \<open>auto simp: may_use_def\<close>)
next
  have names: "distinct (map srv_Name (mcp_servers d))"
    and keys: "distinct (map (\<lambda>t. (tl_ServerID t, tl_Name t)) (mcp_tools d))"
    using assms by (auto simp: db_inv_def servers_ok_def tools_ok_def)
  assume ?m
  then obtain s t where st: "s \<in> set (mcp_servers d)" "t \<in> set (mcp_tools d)" "srv_Name s = sn"
    "tl_Name t = tn" "tl_ServerID t = srv_ID s" "may_use d s ident" by blast
  have "find (\<lambda>s. srv_Name s = sn) (mcp_servers d) = Some s"
    using find_key_unique [OF names st(1)] st(3) by simp
  moreover have "find (\<lambda>t. tl_ServerID t = srv_ID s \<and> tl_Name t = tn) (mcp_tools d) = Some t"
    using find_key_unique [OF keys st(2)] st(4,5) by simp
  ultimately show ?r using st(6) by (simp add: resolve_spec_def may_use_def)
qed

text \<open>
  C8. A caller lists exactly the tools it may call: when the listing succeeds, a server's tool is in
  the list if and only if the registry has that tool on a server that is approved, enabled and
  granted to one of the caller's committees; no tool is listed twice.
\<close>

theorem listed_iff_authorized:
  assumes "db_inv (gs_store gs)" "gw_store g = repo_store p"
    and "ListTools g ident gs = (Inr vs, gs')"
  shows "(\<exists>v \<in> set vs. vt_ServerName v = sn \<and> vt_ToolName v = tn) \<longleftrightarrow>
      (\<exists>b. resolve_spec p (gs_store gs) sn tn = Some b \<and> may_use (gs_store gs) (tb_Server b) ident)"
proof -
  let ?d = "gs_store gs" and ?cs = "id_Committees ident"
  have vr: "visible_rows p ?cs (?d\<lparr>stmts := n\<rparr>) = visible_rows p ?cs ?d" for n
    by (simp add: visible_rows_def cong: if_cong)
  from assms(2,3) have "vs = (if ?cs = [] then [] else visible_rows p ?cs ?d)"
    by (auto simp: ListTools_def ListVisibleTools_def select_def vr
        split: prod.splits if_splits dest!: exec_Inr)
  then have "v \<in> set vs \<longleftrightarrow> v \<in> set (visible_rows p ?cs ?d)" for v by (auto simp: visible_rows_iff)
  then have "set vs = set (visible_rows p ?cs ?d)" by blast
  then show ?thesis by (simp add: visible_pair_iff resolve_pair_iff [OF assms(1)])
qed

theorem listed_iff_authorized_witness:
  "\<exists>vs gs'. ListTools demo_gateway (rq_Identity (demo_request ''finance'' [] ''look'')) (start_gateway None demo_db)
      = (Inr vs, gs') \<and> (\<exists>v \<in> set vs. vt_ServerName v = ''fin'' \<and> vt_ToolName v = ''look'')"
proof -
  let ?i = "rq_Identity (demo_request ''finance'' [] ''look'')"
  obtain vs gs' where l: "ListTools demo_gateway ?i (start_gateway None demo_db) = (Inr vs, gs')"
    by (simp add: ListTools_def ListVisibleTools_def exec_def select_def wrap_err_def Let_def)
  have "\<exists>b. resolve_spec demo_pg demo_db ''fin'' ''look'' = Some b \<and> may_use demo_db (tb_Server b) ?i"
    by (simp add: resolve_spec_def may_use_def)
  with listed_iff_authorized [OF _ _ l, of demo_pg "''fin''" "''look''"] demo_db_inv l
  show ?thesis by (intro exI [of _ vs] exI [of _ gs']) simp
qed

end
