(* ===== verification/GatewaySession.thy ===== *)
theory GatewaySession
  imports GatewayProperties
begin

text \<open>
  Sequences of gateway calls.  The gateway (\<open>src/gateway/internal/policy/gateway.go\<close>) keeps nothing
  of a call but its limiter's buckets and what the store records, so a session is the calls made
  one after another from one state: \<open>run_calls\<close> is that run, \<open>admitted\<close> says that the limiter let
  every call of it pass.  The lemmas give what a call that went downstream leaves of the tables, and
  from that how far one approval reaches.
\<close>

section \<open>The calls of a session\<close>

fun run_calls :: "'s Gateway \<Rightarrow> (clock \<times> CallRequest) list \<Rightarrow> 's gstate \<Rightarrow> 's gstate" where
  "run_calls g [] gs = gs"
| "run_calls g ((ck, req) # cs) gs = run_calls g cs (snd (Call g ck req gs))"

fun admitted :: "'s Gateway \<Rightarrow> (clock \<times> CallRequest) list \<Rightarrow> 's gstate \<Rightarrow> bool" where
  "admitted g [] gs \<longleftrightarrow> True"
| "admitted g ((ck, req) # cs) gs \<longleftrightarrow>
     fst (limit_step ck (rq_Identity req) gs) \<and> admitted g cs (snd (Call g ck req gs))"

lemma run_calls_append: "run_calls g (cs @ ds) gs = run_calls g ds (run_calls g cs gs)"
  by (induction g cs gs rule: run_calls.induct) simp_all

lemma admitted_append: "admitted g (cs @ ds) gs \<longleftrightarrow> admitted g cs gs \<and> admitted g ds (run_calls g cs gs)"
  by (induction g cs gs rule: run_calls.induct) simp_all

text \<open>Without a limiter every run is admitted.\<close>

lemma admitted_unlimited: "gs_limiter gs = None \<Longrightarrow> admitted g cs gs"
proof (induction g cs gs rule: admitted.induct)
  case (2 g ck req cs gs)
  have "gs_limiter (snd (Call g ck req gs)) = None" using 2(2) by (simp add: Call_limiter limit_step_def)
  with 2 show ?case by (simp add: limit_step_def)
qed simp

section \<open>What a call leaves\<close>

text \<open>The tables a decision reads: the registry and the approvals.\<close>

definition same_policy :: "db \<Rightarrow> db \<Rightarrow> bool" where
  "same_policy d d' \<longleftrightarrow> mcp_servers d' = mcp_servers d \<and> mcp_tools d' = mcp_tools d \<and>
     server_committees d' = server_committees d \<and> approvals d' = approvals d"

lemma same_policy_decide:
  assumes "same_policy d d'"
  shows "decide p d' = decide p d"
proof -
  have "resolve_spec p d' = resolve_spec p d" "may_use d' = may_use d"
    by (rule registry_same; use assms in \<open>simp add: same_policy_def\<close>)+
  moreover have "approved_for p d' = approved_for p d"
    by (rule approved_for_tables) (use assms in \<open>simp add: same_policy_def\<close>)
  ultimately show ?thesis by (intro ext) (simp add: decide_def split: option.split)
qed

text \<open>A call that went downstream, through a caller that leaves the database alone, changes the audit log only.\<close>

lemma served_call_frame:
  assumes "gw_store g = repo_store p" "Call g ck req gs = (r, gs')" "gs_calls gs' \<noteq> gs_calls gs"
    and quiet: "\<forall>srv t a d. snd (gw_caller g srv t a d) = d" and inv: "db_inv (gs_store gs)"
  shows "db_inv (gs_store gs') \<and> same_policy (gs_store gs) (gs_store gs')"
proof -
  from assms(1-3) obtain gs1 b d where d: "same_tables (gs_store gs) d"
    and run: "(r, gs') = dispatch g req ck b (gs1\<lparr>gs_store := d\<rparr>)" by (rule Call_dispatches)
  have "\<exists>res. gs_store gs' = snd (audit g req res ck d)"
    using run quiet by (auto simp: dispatch_def Let_def split: prod.splits sum.splits)
       (metis snd_conv)+
  then obtain res where s: "gs_store gs' = snd (audit g req res ck d)" ..
  have "db_inv d" using d inv by (simp add: db_inv_same_tables)
  then have "db_inv (gs_store gs')" by (simp add: s audit_store assms(1) WriteAudit_inv)
  moreover obtain L where "gs_store gs' = d\<lparr>stmts := Suc (stmts d), audit_log := L\<rparr>"
    using s audit_state [OF assms(1)] by metis
  then have "same_policy (gs_store gs) (gs_store gs')" using same_tablesD [OF d] by (simp add: same_policy_def)
  ultimately show ?thesis ..
qed

lemma run_reaches:
  assumes "db_inv (gs_store gs)" "\<forall>n. pg_fault p n = None" "gw_store g = repo_store p"
    and "\<forall>srv t a d. snd (gw_caller g srv t a d) = d"
    and "list_all (\<lambda>(ck, req). (rq_SessionID req = [] \<or> pg_uuid_in p (rq_SessionID req) \<noteq> None) \<and>
           (\<exists>b. decide p (gs_store gs) req = Run b)) cs"
    and "admitted g cs gs"
  shows "map (\<lambda>(srv, t, a). (srv_Name srv, tl_Name t, a)) (gs_calls (run_calls g cs gs)) =
    map (\<lambda>(srv, t, a). (srv_Name srv, tl_Name t, a)) (gs_calls gs) @
      map (\<lambda>(ck, req). (rq_ServerName req, rq_ToolName req, rq_Args req)) cs"
  using assms
proof (induction g cs gs rule: run_calls.induct)
  case (2 g ck req cs gs)
  obtain res err gs' where c: "Call g ck req gs = ((res, err), gs')" by (metis prod.exhaust)
  from 2(6) obtain b where b: "decide p (gs_store gs) req = Run b" by auto
  have calls: "gs_calls gs' = gs_calls gs @ [(tb_Server b, tb_Tool b, rq_Args req)]"
    using Call_decide [OF 2(2-4) _ _ c] 2(6,7) b by simp
  have fr: "db_inv (gs_store gs')" "same_policy (gs_store gs) (gs_store gs')"
    using served_call_frame [OF 2(4) c _ 2(5,2)] calls by simp_all
  have "srv_Name (tb_Server b) = rq_ServerName req \<and> tl_Name (tb_Tool b) = rq_ToolName req"
    using b by (auto simp: decide_def split: option.splits if_splits elim: resolve_spec_row)
  moreover note 2(1) [OF _ 2(3-5), unfolded c snd_conv, OF fr(1)]
  ultimately show ?case using 2(6,7) calls fr(2) by (simp add: c same_policy_decide)
qed simp

section \<open>How far an approval reaches\<close>

text \<open>
  C5. One approval covers the rest of the session: once a tool name is approved in a session, every
  later call of a tool of that name in that session that its caller may make goes downstream, in
  order and with its own arguments, high impact or not.  The approval is neither used up by a call
  nor tied to the arguments the person saw, nor to the server, nor to the caller who asked.
\<close>

theorem approval_covers_session:
  assumes "db_inv (gs_store gs)" "\<forall>n. pg_fault p n = None" "gw_store g = repo_store p"
    and "\<forall>srv t a d. snd (gw_caller g srv t a d) = d"
    and "sid \<noteq> []" "approved_for p (gs_store gs) sid tool"
    and "list_all (\<lambda>(ck, req). rq_SessionID req = sid \<and> rq_ToolName req = tool \<and>
           (\<exists>b. resolve_spec p (gs_store gs) (rq_ServerName req) tool = Some b \<and>
              may_use (gs_store gs) (tb_Server b) (rq_Identity req))) cs"
    and "admitted g cs gs"
  shows "map (\<lambda>(srv, t, a). (srv_Name srv, tl_Name t, a)) (gs_calls (run_calls g cs gs)) =
    map (\<lambda>(srv, t, a). (srv_Name srv, tl_Name t, a)) (gs_calls gs) @
      map (\<lambda>(ck, req). (rq_ServerName req, tool, rq_Args req)) cs"
proof -
  from assms(6) have "pg_uuid_in p sid \<noteq> None" by (auto simp: approved_for_def)
  with assms(5-7) have "list_all (\<lambda>(ck, req). (rq_SessionID req = [] \<or> pg_uuid_in p (rq_SessionID req) \<noteq> None) \<and>
      (\<exists>b. decide p (gs_store gs) req = Run b)) cs"
    by (auto simp: list_all_iff decide_def)
  from run_reaches [OF assms(1-4) this assms(8)] assms(7) show ?thesis
    by (auto simp: list_all_iff)
qed

text \<open>The demonstration registry after the lead approved the payment tool.\<close>

definition approved_db :: db where
  "approved_db = demo_db\<lparr>approvals := [\<lparr>ar_id = ''a1'', ar_session_id = Some ''ses'', ar_tool = ''pay'',
     ar_args_redacted = JNull, ar_status = ''approved'', ar_decided_by = ''lead'', ar_decided_at = Some 1,
     ar_created_at = 0\<rparr>]\<rparr>"

lemma approved_db_simps [simp]:
  "resolve_spec p approved_db = resolve_spec p demo_db" "may_use approved_db = may_use demo_db"
  "approved_for demo_pg approved_db ''ses'' ''pay''"
  by (rule registry_same; simp add: approved_db_def)+ (simp add: approved_for_def approved_db_def)

lemma approved_db_inv: "db_inv approved_db"
  using demo_db_inv by (simp add: approved_db_def db_inv_def table_defs approval_status_def)

theorem approval_covers_session_witness:
  "map (\<lambda>(srv, t, a). (srv_Name srv, tl_Name t, a)) (gs_calls (run_calls demo_gateway
      [(demo_clock, demo_request ''finance'' ''ses'' ''pay''),
       (demo_clock, (demo_request ''finance'' ''ses'' ''pay'')\<lparr>rq_Args := Raw_JSON (JNum ''900'')\<rparr>)]
      (start_gateway None approved_db)))
    = [(''fin'', ''pay'', rq_Args (demo_request ''finance'' ''ses'' ''pay'')),
       (''fin'', ''pay'', Raw_JSON (JNum ''900''))]"
proof -
  let ?cs = "[(demo_clock, demo_request ''finance'' ''ses'' ''pay''),
      (demo_clock, (demo_request ''finance'' ''ses'' ''pay'')\<lparr>rq_Args := Raw_JSON (JNum ''900'')\<rparr>)]"
  have ad: "admitted demo_gateway ?cs (start_gateway None approved_db)" by (rule admitted_unlimited) simp
  have "list_all (\<lambda>(ck, req). rq_SessionID req = ''ses'' \<and> rq_ToolName req = ''pay'' \<and>
      (\<exists>b. resolve_spec demo_pg (gs_store (start_gateway None approved_db)) (rq_ServerName req) ''pay'' = Some b \<and>
         may_use (gs_store (start_gateway None approved_db)) (tb_Server b) (rq_Identity req))) ?cs"
    by (simp add: resolve_spec_def may_use_def)
  from approval_covers_session [OF _ _ _ _ _ _ this ad] approved_db_inv show ?thesis by simp
qed

end
