(* ===== verification/Http.thy ===== *)
theory Http
  imports Json
begin

text \<open>
  What the services use of \<open>net/http\<close> and of decoding a JSON body into a struct.  A request shows a
  handler its headers (\<open>Header.Get\<close>, empty when absent), its body and the path values of its route;
  a response is a status code and the JSON written.  Routing itself is \<open>net/http\<close>'s: each server
  below lists its routes with the handler of each.
\<close>

record Request =
  req_Header :: "string \<Rightarrow> string"
  req_Body :: raw
  req_PathValue :: "string \<Rightarrow> string"
  req_Query :: "string \<Rightarrow> string"

record Response =
  resp_Code :: int
  resp_Body :: raw

definition writeJSON :: "int \<Rightarrow> json \<Rightarrow> Response" where
  "writeJSON code v = \<lparr>resp_Code = code, resp_Body = Raw_JSON v\<rparr>"

definition error_json :: "string \<Rightarrow> json" where
  "error_json m = JObj [(''error'', JStr m)]"

definition write_error :: "int \<Rightarrow> string \<Rightarrow> Response" where
  "write_error code m = writeJSON code (error_json m)"

text \<open>The bearer check the servers share.\<close>

definition bearer_ok :: "string \<Rightarrow> Request \<Rightarrow> bool" where
  "bearer_ok token r \<longleftrightarrow> \<not> (token = [] \<or> req_Header r ''Authorization'' \<noteq> ''Bearer '' @ token)"

definition auth :: "string \<Rightarrow> Request \<Rightarrow> (Request \<Rightarrow> 's \<Rightarrow> Response \<times> 's) \<Rightarrow> 's \<Rightarrow> Response \<times> 's" where
  "auth token r next s =
     (if \<not> bearer_ok token r then (write_error 401 ''unauthorized'', s) else next r s)"

text \<open>What every server promises of the check in front of its handlers.\<close>

locale gate =
  fixes ok :: "Request \<Rightarrow> bool"
    and guard :: "Request \<Rightarrow> (Request \<Rightarrow> 's \<Rightarrow> Response \<times> 's) \<Rightarrow> 's \<Rightarrow> Response \<times> 's"
    and refusal :: Response
  assumes denied: "\<not> ok r \<Longrightarrow> guard r h s = (refusal, s)"
    and refusal_code: "resp_Code refusal = 401"
    and passed: "ok r \<Longrightarrow> guard r h s = h r s"
begin

lemma effect_needs_ok: "snd (guard r h s) \<noteq> s \<Longrightarrow> ok r"
  by (rule ccontr) (simp add: denied)

lemma answer_needs_ok: "resp_Code (fst (guard r h s)) \<noteq> 401 \<Longrightarrow> ok r"
  by (rule ccontr) (simp add: denied refusal_code)

lemma guarded_result: "guard r h s = (x, s') \<Longrightarrow> resp_Code x \<noteq> 401 \<Longrightarrow> h r s = (x, s')"
  using answer_needs_ok [of r h s] passed [of r h s] by simp

end

interpretation bearer: gate "bearer_ok token" "auth token" "write_error 401 ''unauthorized''" for token
  by unfold_locales (simp_all add: auth_def write_error_def writeJSON_def)

lemma auth_rejects: "\<not> bearer_ok token r \<Longrightarrow> auth token r h s = (write_error 401 ''unauthorized'', s)"
  by (simp add: auth_def)

lemma bearer_ok_empty [simp]: "\<not> bearer_ok [] r"
  by (simp add: bearer_ok_def)

text \<open>A raw value inside a struct: no bytes are written as \<open>null\<close>; bytes that are no JSON fail the encoder.\<close>

fun raw_value :: "raw \<Rightarrow> json option" where
  "raw_value Raw_Empty = Some JNull"
| "raw_value (Raw_JSON j) = Some j"
| "raw_value (Raw_Bad s) = None"

subsection \<open>Decoding a body into a struct\<close>

text \<open>
  \<open>Decode\<close> of the first value of the body: an object gives its entries, \<open>null\<close> sets nothing,
  anything else (also an empty body) is an error.  Entries are assigned in order; a name matches a
  field when they are equal up to case folding (\<open>cf\<close> beyond ASCII); \<open>null\<close> leaves a field as it
  is and a value of another type is an error.
\<close>

fun body_object :: "raw \<Rightarrow> (string \<times> json) list option" where
  "body_object (Raw_JSON (JObj kvs)) = Some kvs"
| "body_object (Raw_JSON JNull) = Some []"
| "body_object _ = None"

definition field_matches :: "(string \<Rightarrow> string) \<Rightarrow> string \<Rightarrow> string \<Rightarrow> bool" where
  "field_matches cf name k \<longleftrightarrow> ToLower cf k = ToLower cf name"

definition decode_field ::
  "(string \<Rightarrow> string) \<Rightarrow> string \<Rightarrow> (json \<Rightarrow> 'a option) \<Rightarrow> 'a \<Rightarrow> (string \<times> json) list \<Rightarrow> 'a option" where
  "decode_field cf name of_json zero kvs =
     foldl (\<lambda>a (k, v). if field_matches cf name k
              then (case a of None \<Rightarrow> None
                    | Some x \<Rightarrow> if v = JNull then Some x else of_json v) else a)
       (Some zero) kvs"

fun json_str :: "json \<Rightarrow> string option" where
  "json_str (JStr s) = Some s"
| "json_str _ = None"

fun json_bool :: "json \<Rightarrow> bool option" where
  "json_bool (JBool b) = Some b"
| "json_bool _ = None"

text \<open>A Go \<open>int\<close> takes a number that is written as an integer in range.\<close>

fun json_int :: "json \<Rightarrow> int option" where
  "json_int (JNum s) = Atoi s"
| "json_int _ = None"

fun json_strs :: "json \<Rightarrow> string list option" where
  "json_strs (JArr xs) =
     (let ys = map (\<lambda>x. if x = JNull then Some [] else json_str x) xs
      in if None \<in> set ys then None else Some (map the ys))"
| "json_strs _ = None"

definition str_field :: "(string \<Rightarrow> string) \<Rightarrow> string \<Rightarrow> (string \<times> json) list \<Rightarrow> string option" where
  "str_field cf name = decode_field cf name json_str []"

definition bool_field :: "(string \<Rightarrow> string) \<Rightarrow> string \<Rightarrow> (string \<times> json) list \<Rightarrow> bool option" where
  "bool_field cf name = decode_field cf name json_bool False"

definition int_field :: "(string \<Rightarrow> string) \<Rightarrow> string \<Rightarrow> (string \<times> json) list \<Rightarrow> int option" where
  "int_field cf name = decode_field cf name json_int 0"

text \<open>Into a slice, \<open>null\<close> is the nil slice.\<close>

definition strs_field :: "(string \<Rightarrow> string) \<Rightarrow> string \<Rightarrow> (string \<times> json) list \<Rightarrow> string list option" where
  "strs_field cf name kvs =
     foldl (\<lambda>a (k, v). if field_matches cf name k
              then (case a of None \<Rightarrow> None | Some x \<Rightarrow> if v = JNull then Some [] else json_strs v) else a)
       (Some []) kvs"

text \<open>A \<open>json.RawMessage\<close> takes any value, \<open>null\<close> included.\<close>

definition raw_field :: "(string \<Rightarrow> string) \<Rightarrow> string \<Rightarrow> (string \<times> json) list \<Rightarrow> raw" where
  "raw_field cf name kvs =
     foldl (\<lambda>a (k, v). if field_matches cf name k then Raw_JSON v else a) Raw_Empty kvs"

end
