(* ===== verification/Filepath.thy ===== *)
theory Filepath
  imports GoLib
begin

text \<open>
  What the repository uses of \<open>path/filepath\<close> on Unix: \<open>Clean\<close>, \<open>Join\<close> and \<open>WalkDir\<close>.  A file
  system is what \<open>Lstat\<close> and \<open>ReadDir\<close> show of it: \<open>ReadDir\<close> gives the entries sorted by name, a
  symbolic link is no directory.
\<close>

subsection \<open>Paths\<close>

text \<open>
  \<open>Clean\<close> element by element: drop empty and dot elements, let dot-dot remove the element before
  it, drop it at the root and keep it at the start of a relative path.
\<close>

definition clean_step :: "bool \<Rightarrow> string list \<Rightarrow> string \<Rightarrow> string list" where
  "clean_step rooted out e =
     (if e = [] \<or> e = ''.'' then out
      else if e = ''..'' then
        (if out \<noteq> [] \<and> last out \<noteq> ''..'' then butlast out
         else if rooted then out else out @ [''..''])
      else out @ [e])"

definition clean_elems :: "bool \<Rightarrow> string \<Rightarrow> string list" where
  "clean_elems rooted p = foldl (clean_step rooted) [] (split_on (CHR ''/'') p)"

definition Clean :: "string \<Rightarrow> string" where
  "Clean p =
     (let rooted = HasPrefix p ''/'';
          s = (if rooted then ''/'' else []) @ Join (clean_elems rooted p) ''/''
      in if s = [] then ''.'' else s)"

fun path_join :: "string list \<Rightarrow> string" where
  "path_join [] = []"
| "path_join (e # es) = (if e \<noteq> [] then Clean (Join (e # es) ''/'') else path_join es)"

definition TrimPrefix :: "string \<Rightarrow> string \<Rightarrow> string" where
  "TrimPrefix s p = (if HasPrefix s p then drop (length p) s else s)"

definition path_base :: "string \<Rightarrow> string" where
  "path_base p = (case rev (filter (\<lambda>e. e \<noteq> []) (split_on (CHR ''/'') p)) of
     [] \<Rightarrow> (if p = [] then ''.'' else ''/'') | e # es \<Rightarrow> e)"

subsection \<open>Walking a tree\<close>

datatype fsnode =
    RegFile
  | Directory "(string \<times> fsnode) list"
  | Unreadable bool string

datatype walk = Continue | SkipDir | Fail goerr

text \<open>
  The callback gets the path, the entry's name, whether it is a directory and the error (with
  \<open>os.IsNotExist\<close> of it), and threads the caller's state.
\<close>

type_synonym 'a walk_fn =
  "string \<Rightarrow> string \<Rightarrow> bool \<Rightarrow> (bool \<times> string) option \<Rightarrow> 'a \<Rightarrow> walk \<times> 'a"

fun end_dir :: "walk \<times> 'a \<Rightarrow> walk \<times> 'a" where
  "end_dir (SkipDir, a) = (Continue, a)"
| "end_dir r = r"

fun walkDir :: "'a walk_fn \<Rightarrow> string \<Rightarrow> string \<Rightarrow> fsnode \<Rightarrow> 'a \<Rightarrow> walk \<times> 'a"
  and walkDirs :: "'a walk_fn \<Rightarrow> string \<Rightarrow> (string \<times> fsnode) list \<Rightarrow> 'a \<Rightarrow> walk \<times> 'a" where
  "walkDir fn path name RegFile a = fn path name False None a"
| "walkDir fn path name (Directory es) a =
     (case fn path name True None a of
        (Continue, a') \<Rightarrow> walkDirs fn path es a'
      | r \<Rightarrow> end_dir r)"
| "walkDir fn path name (Unreadable nx m) a =
     (case fn path name True None a of
        (Continue, a') \<Rightarrow> end_dir (fn path name True (Some (nx, m)) a')
      | r \<Rightarrow> end_dir r)"
| "walkDirs fn path [] a = (Continue, a)"
| "walkDirs fn path ((n, nd) # es) a =
     (case walkDir fn (path_join [path, n]) n nd a of
        (Continue, a') \<Rightarrow> walkDirs fn path es a'
      | r \<Rightarrow> end_dir r)"

definition WalkDir :: "'a walk_fn \<Rightarrow> string \<Rightarrow> (bool \<times> string) + fsnode \<Rightarrow> 'a \<Rightarrow> goerr option \<times> 'a" where
  "WalkDir fn root node a =
     (case (case node of
              Inl err \<Rightarrow> fn root [] False (Some err) a
            | Inr nd \<Rightarrow> walkDir fn root (path_base root) nd a) of
        (Fail e, a') \<Rightarrow> (Some e, a')
      | (_, a') \<Rightarrow> (None, a'))"

subsection \<open>A clean rooted path stays below the root\<close>

definition plain_elem :: "string \<Rightarrow> bool" where
  "plain_elem e \<longleftrightarrow> e \<noteq> [] \<and> e \<noteq> ''.'' \<and> e \<noteq> ''..'' \<and> CHR ''/'' \<notin> set e"

lemma clean_step_plain:
  assumes "list_all plain_elem out" "CHR ''/'' \<notin> set e"
  shows "list_all plain_elem (clean_step True out e)"
  using assms by (auto simp: clean_step_def plain_elem_def list_all_iff dest: in_set_butlastD)

lemma clean_elems_plain: "list_all plain_elem (clean_elems True p)"
proof -
  have "list_all plain_elem (foldl (clean_step True) out es)"
    if "list_all plain_elem out" "\<forall>e \<in> set es. CHR ''/'' \<notin> set e" for out es
    using that by (induction es arbitrary: out) (auto intro: clean_step_plain)
  from this [of "[]" "split_on (CHR ''/'') p"] show ?thesis
    unfolding clean_elems_def using split_on_no_sep [of _ "CHR ''/''" p] by simp
qed

lemma split_on_append_sep: "c \<notin> set x \<Longrightarrow> split_on c (x @ c # y) = x # split_on c y"
  by (induction x) auto

lemma split_on_no: "c \<notin> set x \<Longrightarrow> split_on c x = [x]"
  by (induction x) auto

lemma split_on_Join:
  "\<forall>x \<in> set xs. c \<notin> set x \<Longrightarrow> xs \<noteq> [] \<Longrightarrow> split_on c (Join xs [c]) = xs"
proof (induction xs rule: induct_list012)
  case (3 x y zs)
  then show ?case by (simp add: split_on_append_sep)
qed (auto simp: split_on_no)

lemma foldl_clean_plain:
  "list_all plain_elem es \<Longrightarrow> foldl (clean_step r) out es = out @ es"
  by (induction es arbitrary: out) (auto simp: clean_step_def plain_elem_def)

end
