(* ===== verification/Runtime.thy ===== *)
theory Runtime
  imports Http Filepath
begin

text \<open>
  The agent runtime (package runtime): configuration and model choice (config.go, model.go),
  recipes (recipe.go), task resolution (runtime.go), the Goose environment (goose.go) and the
  command line of cmd/runtime/main.go.  The concurrent life of a task is in \<open>RuntimeTask\<close>.
  Files, YAML and the operating system are arguments.
\<close>

subsection \<open>Configuration and model choice\<close>

record RuntimeConfig =
  rc_Provider :: string
  rc_Model :: string
  rc_EscalationModel :: string
  rc_OpenRouterAPIKey :: string
  rc_GatewayURL :: string
  rc_GatewayToken :: string
  rc_RecipesDir :: string
  rc_GooseHintsPath :: string

definition LoadConfig :: "(string \<Rightarrow> string) \<Rightarrow> RuntimeConfig" where
  "LoadConfig env =
     \<lparr>rc_Provider = firstNonEmpty [env ''GOOSE_PROVIDER'', ''openrouter''],
      rc_Model = firstNonEmpty [env ''GOOSE_MODEL'', ''anthropic/claude-sonnet-4.6''],
      rc_EscalationModel = firstNonEmpty [env ''GOOSE_ESCALATION_MODEL'', ''anthropic/claude-opus-4.8''],
      rc_OpenRouterAPIKey = env ''OPENROUTER_API_KEY'', rc_GatewayURL = env ''GATEWAY_MCP_URL'',
      rc_GatewayToken = env ''GATEWAY_SERVICE_TOKEN'',
      rc_RecipesDir = firstNonEmpty [env ''RECIPES_DIR'', ''recipes''],
      rc_GooseHintsPath = env ''GOOSEHINTS_PATH''\<rparr>"

record ModelConfig =
  mc_Default :: string
  mc_Escalation :: string

definition Models :: "RuntimeConfig \<Rightarrow> ModelConfig" where
  "Models c = \<lparr>mc_Default = rc_Model c, mc_Escalation = rc_EscalationModel c\<rparr>"

definition Select :: "ModelConfig \<Rightarrow> string \<Rightarrow> bool \<Rightarrow> string" where
  "Select m recipeModel hard =
     (if recipeModel \<noteq> [] then recipeModel
      else if hard \<and> mc_Escalation m \<noteq> [] then mc_Escalation m
      else mc_Default m)"

subsection \<open>Tasks\<close>

record TaskRequest =
  tr_RecipeID :: string
  tr_InlineGoal :: string
  tr_Params :: "string \<rightharpoonup> string"
  tr_Identity :: string
  tr_Committee :: string
  tr_HardTask :: bool

datatype EventKind = KindStatus | KindToolCall | KindApprovalRequired | KindOutput | KindError | KindDone

record Event =
  ev_Kind :: EventKind
  ev_Text :: string
  ev_Tool :: string
  ev_ApprovalID :: string

record Result =
  rs_Output :: string
  rs_AuditRef :: string

record RunSpec =
  sp_Goal :: string
  sp_Instructions :: string
  sp_Model :: string
  sp_Identity :: string
  sp_Committee :: string
  sp_Params :: "string \<rightharpoonup> string"

subsection \<open>Recipes\<close>

record Recipe =
  rec_Title :: string
  rec_Description :: string
  rec_Owner :: string
  rec_Model :: string
  rec_Instructions :: string

text \<open>The fields of a recipe that the runtime reads; \<open>files\<close> reads a file, \<open>yaml\<close> decodes it.\<close>

record files =
  fs_read :: "string \<Rightarrow> goerr + string"
  fs_stat :: "string \<Rightarrow> bool"
  fs_yaml :: "string \<Rightarrow> goerr + Recipe"

definition LoadRecipe :: "files \<Rightarrow> string \<Rightarrow> goerr + Recipe" where
  "LoadRecipe os path =
     (case fs_read os path of
        Inl e \<Rightarrow> Inl (Wrap ''runtime: read recipe %s: '' [path] e)
      | Inr bytes \<Rightarrow>
          (case fs_yaml os bytes of
             Inl e \<Rightarrow> Inl (Wrap ''runtime: parse recipe %s: '' [path] e)
           | Inr r \<Rightarrow>
               (if rec_Title r = [] \<or> rec_Instructions r = [] \<or> rec_Owner r = []
                then Inl (Errorf ''runtime: recipe %s missing title, owner, or instructions'' [path])
                else Inr r)))"

fun try_exts :: "files \<Rightarrow> string \<Rightarrow> string \<Rightarrow> string list \<Rightarrow> string option" where
  "try_exts os recipesDir clean [] = None"
| "try_exts os recipesDir clean (ext # exts) =
     (let path = path_join [recipesDir, clean @ ext]
      in if fs_stat os path then Some path else try_exts os recipesDir clean exts)"

definition recipe_id :: "string \<Rightarrow> string" where
  "recipe_id i = TrimPrefix (Clean (''/'' @ i)) ''/''"

definition LoadRecipeByID :: "files \<Rightarrow> string \<Rightarrow> string \<Rightarrow> goerr + Recipe" where
  "LoadRecipeByID os recipesDir i =
     (let clean = recipe_id i
      in if clean = [] \<or> Contains clean ''..'' then Inl (Errorf ''runtime: invalid recipe id %q'' [i])
         else case try_exts os recipesDir clean [''.yaml'', ''.yml''] of
                Some path \<Rightarrow> LoadRecipe os path
              | None \<Rightarrow> Inl (Errorf ''runtime: recipe %q not found under %s'' [i, recipesDir]))"

subsection \<open>Resolving a task\<close>

record Runtime =
  rt_models :: ModelConfig
  rt_recipesDir :: string

definition buildSpec :: "files \<Rightarrow> Runtime \<Rightarrow> TaskRequest \<Rightarrow> goerr + RunSpec" where
  "buildSpec os r req =
     (let spec = \<lparr>sp_Goal = [], sp_Instructions = [], sp_Model = [], sp_Identity = tr_Identity req,
                  sp_Committee = tr_Committee req, sp_Params = tr_Params req\<rparr>
      in if tr_RecipeID req \<noteq> [] then
           (case LoadRecipeByID os (rt_recipesDir r) (tr_RecipeID req) of
              Inl e \<Rightarrow> Inl e
            | Inr rc \<Rightarrow> Inr (spec\<lparr>sp_Goal := rec_Title rc, sp_Instructions := rec_Instructions rc,
                         sp_Model := Select (rt_models r) (rec_Model rc) (tr_HardTask req)\<rparr>))
         else if tr_InlineGoal req \<noteq> [] then
           Inr (spec\<lparr>sp_Goal := tr_InlineGoal req, sp_Model := Select (rt_models r) [] (tr_HardTask req)\<rparr>)
         else Inl (Errorf ''runtime: task needs a recipe_id or inline_goal'' []))"

subsection \<open>The Goose environment\<close>

definition gooseEnv :: "RuntimeConfig \<Rightarrow> RunSpec \<Rightarrow> string list" where
  "gooseEnv cfg spec =
     [''GOOSE_PROVIDER='' @ rc_Provider cfg, ''GOOSE_MODEL='' @ sp_Model spec] @
     (if rc_OpenRouterAPIKey cfg \<noteq> [] then [''OPENROUTER_API_KEY='' @ rc_OpenRouterAPIKey cfg] else []) @
     (if rc_GatewayURL cfg \<noteq> [] then [''SCOTTYLABS_GATEWAY_URL='' @ rc_GatewayURL cfg] else []) @
     (if rc_GatewayToken cfg \<noteq> [] then [''SCOTTYLABS_GATEWAY_TOKEN='' @ rc_GatewayToken cfg] else [])"

definition goose_prompt :: "RunSpec \<Rightarrow> string" where
  "goose_prompt spec = (if sp_Instructions spec \<noteq> [] then sp_Instructions spec else sp_Goal spec)"

subsection \<open>The command line\<close>

text \<open>
  A value option at the end of the arguments: \<open>--goal\<close> is checked; \<open>--committee\<close> and
  \<open>--identity\<close> index past the end, which panics.
\<close>

datatype 'a outcome = Returns 'a | Panics

fun parse_loop :: "string list \<Rightarrow> TaskRequest \<Rightarrow> (goerr + TaskRequest) outcome" where
  "parse_loop [] req =
     Returns (if tr_RecipeID req = [] \<and> tr_InlineGoal req = []
              then Inl (Errorf ''provide a recipe id or --goal'' []) else Inr req)"
| "parse_loop (a # as) req =
     (if a = ''--goal'' then
        (case as of [] \<Rightarrow> Returns (Inl (Errorf ''--goal needs a value'' []))
         | v # as' \<Rightarrow> parse_loop as' (req\<lparr>tr_InlineGoal := v\<rparr>))
      else if a = ''--committee'' then
        (case as of [] \<Rightarrow> Panics | v # as' \<Rightarrow> parse_loop as' (req\<lparr>tr_Committee := v\<rparr>))
      else if a = ''--identity'' then
        (case as of [] \<Rightarrow> Panics | v # as' \<Rightarrow> parse_loop as' (req\<lparr>tr_Identity := v\<rparr>))
      else if a = ''--hard'' then parse_loop as (req\<lparr>tr_HardTask := True\<rparr>)
      else (case cut_at ''='' a of
              Some (k, v) \<Rightarrow> parse_loop as (req\<lparr>tr_Params := (tr_Params req)(k \<mapsto> v)\<rparr>)
            | None \<Rightarrow> parse_loop as (req\<lparr>tr_RecipeID := a\<rparr>)))"

definition parseArgs :: "string list \<Rightarrow> (goerr + TaskRequest) outcome" where
  "parseArgs args = parse_loop args
     \<lparr>tr_RecipeID = [], tr_InlineGoal = [], tr_Params = Map.empty, tr_Identity = ''cli'',
      tr_Committee = [], tr_HardTask = False\<rparr>"

subsection \<open>A recipe stays in its directory\<close>

lemma path_join_dir:
  assumes "d \<noteq> []"
  shows "path_join [d, x] = Clean (d @ ''/'' @ x)"
  using assms by simp

lemma recipe_id_elems:
  obtains es where "recipe_id i = Join es ''/''" "list_all plain_elem es"
proof -
  have "HasPrefix (''/'' @ i) ''/''" by (simp add: HasPrefix_def)
  then have c: "Clean (''/'' @ i) = ''/'' @ Join (clean_elems True (''/'' @ i)) ''/''"
    by (simp add: Clean_def Let_def)
  have "recipe_id i = Join (clean_elems True (''/'' @ i)) ''/''"
    unfolding recipe_id_def c by (simp add: TrimPrefix_def HasPrefix_def)
  then show ?thesis by (rule that) (rule clean_elems_plain)
qed

lemma split_Join_ext:
  assumes "list_all plain_elem es" "es \<noteq> []" "CHR ''/'' \<notin> set ext"
  shows "split_on (CHR ''/'') (Join es ''/'' @ ext) = butlast es @ [last es @ ext]"
proof -
  have j: "Join es ''/'' @ ext = Join (butlast es @ [last es @ ext]) ''/''"
    using assms(2)
  proof (induction es rule: induct_list012)
    case (3 x y zs)
    then show ?case by (cases zs) auto
  qed auto
  have "\<forall>x \<in> set (butlast es @ [last es @ ext]). CHR ''/'' \<notin> set x"
    using assms by (auto simp: list_all_iff plain_elem_def dest: in_set_butlastD)
  then show ?thesis unfolding j by (rule split_on_Join) simp
qed

lemma plain_elem_ext:
  "plain_elem e \<Longrightarrow> CHR ''/'' \<notin> set ext \<Longrightarrow> length ext > 2 \<Longrightarrow> plain_elem (e @ ext)"
  by (auto simp: plain_elem_def dest: arg_cong [of _ _ length])

lemma split_on_slash_append: "split_on c (x @ c # y) = split_on c x @ split_on c y"
  by (induction x) (auto split: list.splits)

lemma Join_snoc_nonempty: "z \<noteq> [] \<Longrightarrow> Join (xs @ [z]) sep \<noteq> []"
proof (induction xs rule: induct_list012)
  case (2 x)
  then show ?case by simp
next
  case (3 x y zs)
  then show ?case by simp
qed simp

text \<open>The path tried for a recipe is the directory's own elements followed by plain ones.\<close>

lemma recipe_path_below:
  assumes "recipesDir \<noteq> []" "recipe_id i \<noteq> []" "ext \<in> set [''.yaml'', ''.yml'']"
  shows "\<exists>es. es \<noteq> [] \<and> list_all plain_elem es \<and>
    path_join [recipesDir, recipe_id i @ ext] =
      (if HasPrefix recipesDir ''/'' then ''/'' else []) @
      Join (clean_elems (HasPrefix recipesDir ''/'') recipesDir @ es) ''/''"
proof -
  obtain es where es: "recipe_id i = Join es ''/''" "list_all plain_elem es" by (rule recipe_id_elems)
  with assms(2) have ne: "es \<noteq> []" by auto
  from assms(3) have ext: "CHR ''/'' \<notin> set ext" "length ext > 2" by auto
  let ?es = "butlast es @ [last es @ ext]"
  have plain: "list_all plain_elem ?es"
    using es(2) ne ext by (auto simp: list_all_iff intro: plain_elem_ext dest: in_set_butlastD)
  let ?r = "HasPrefix recipesDir ''/''"
  have r: "HasPrefix (recipesDir @ ''/'' @ recipe_id i @ ext) ''/'' = ?r"
    using assms(1) by (cases recipesDir) (auto simp: HasPrefix_def)
  have "clean_elems ?r (recipesDir @ ''/'' @ recipe_id i @ ext) = clean_elems ?r recipesDir @ ?es"
    using split_Join_ext [OF es(2) ne ext(1)] foldl_clean_plain [OF plain]
    by (simp add: clean_elems_def split_on_slash_append es(1))
  then have "Clean (recipesDir @ ''/'' @ recipe_id i @ ext) =
      (if ?r then ''/'' else []) @ Join (clean_elems ?r recipesDir @ ?es) ''/''"
  proof -
    have "Join ((clean_elems ?r recipesDir @ butlast es) @ [last es @ ext]) ''/'' \<noteq> []"
      using ext by (intro Join_snoc_nonempty) auto
    with r show ?thesis
      by (simp add: Clean_def Let_def \<open>clean_elems ?r (recipesDir @ ''/'' @ recipe_id i @ ext)
          = clean_elems ?r recipesDir @ ?es\<close> [simplified])
  qed
  with plain assms(1) show ?thesis
    by (intro exI [of _ ?es]) (simp add: path_join_dir del: path_join.simps)
qed

lemma try_exts_Some:
  "try_exts os d c exts = Some path \<Longrightarrow> \<exists>ext \<in> set exts. path = path_join [d, c @ ext] \<and> fs_stat os path"
  by (induction exts) (auto simp: Let_def split: if_splits simp del: path_join.simps)

text \<open>
  C22. A recipe id cannot escape the recipes directory: whatever the id, a recipe that loads was read
  from a path that is the directory's own (clean) path followed by at least one more element, none
  of them empty, dot, dot-dot or with a slash in it; and it has a title, an owner and instructions.
\<close>

theorem recipe_confined:
  assumes "LoadRecipeByID os recipesDir i = Inr r" "recipesDir \<noteq> []"
  shows "\<exists>es path bytes. es \<noteq> [] \<and> list_all plain_elem es \<and>
    path = (if HasPrefix recipesDir ''/'' then ''/'' else []) @
      Join (clean_elems (HasPrefix recipesDir ''/'') recipesDir @ es) ''/'' \<and>
    fs_read os path = Inr bytes \<and> fs_yaml os bytes = Inr r \<and>
    rec_Title r \<noteq> [] \<and> rec_Owner r \<noteq> [] \<and> rec_Instructions r \<noteq> []"
proof -
  from assms(1) obtain path where p: "try_exts os recipesDir (recipe_id i) [''.yaml'', ''.yml''] = Some path"
    and l: "LoadRecipe os path = Inr r" and ne: "recipe_id i \<noteq> []"
    by (auto simp: LoadRecipeByID_def Let_def simp del: try_exts.simps split: if_splits option.splits)
  from try_exts_Some [OF p] obtain ext where ext: "ext \<in> set [''.yaml'', ''.yml'']"
    "path = path_join [recipesDir, recipe_id i @ ext]" by blast
  from recipe_path_below [OF assms(2) ne ext(1)] ext(2) obtain es where
    "es \<noteq> []" "list_all plain_elem es"
    "path = (if HasPrefix recipesDir ''/'' then ''/'' else []) @
      Join (clean_elems (HasPrefix recipesDir ''/'') recipesDir @ es) ''/''" by auto
  moreover from l obtain bytes where "fs_read os path = Inr bytes" "fs_yaml os bytes = Inr r"
    "rec_Title r \<noteq> []" "rec_Owner r \<noteq> []" "rec_Instructions r \<noteq> []"
    by (auto simp: LoadRecipe_def split: sum.splits if_splits)
  ultimately show ?thesis by blast
qed

definition demo_files :: files where
  "demo_files = \<lparr>fs_read = (\<lambda>p. if p = ''recipes/etc/pw.yaml'' then Inr p else Inl (External ''no file'')),
     fs_stat = (\<lambda>p. p = ''recipes/etc/pw.yaml''),
     fs_yaml = (\<lambda>b. Inr \<lparr>rec_Title = ''t'', rec_Description = [], rec_Owner = ''o'', rec_Model = [],
        rec_Instructions = ''i''\<rparr>)\<rparr>"

lemma demo_recipe: "is_ok (LoadRecipeByID demo_files ''recipes'' ''../../etc/./pw'')"
  by code_simp

theorem recipe_confined_witness:
  "\<exists>r es. LoadRecipeByID demo_files ''recipes'' ''../../etc/./pw'' = Inr r \<and> es \<noteq> [] \<and> list_all plain_elem es"
proof -
  from demo_recipe obtain r where r: "LoadRecipeByID demo_files ''recipes'' ''../../etc/./pw'' = Inr r"
    by (auto simp: is_ok_iff)
  from recipe_confined [OF r] obtain es where "es \<noteq> []" "list_all plain_elem es" by auto
  with r show ?thesis by (intro exI conjI)
qed

text \<open>
  The command line panics exactly when its last argument is \<open>--committee\<close> or \<open>--identity\<close> read as
  an option (not as the value of the option before it); otherwise it returns a request or an error.
\<close>

fun dangling :: "string list \<Rightarrow> bool" where
  "dangling [] = False"
| "dangling [a] = (a = ''--committee'' \<or> a = ''--identity'')"
| "dangling (a # v # as) =
     (if a = ''--goal'' \<or> a = ''--committee'' \<or> a = ''--identity'' then dangling as else dangling (v # as))"

lemma parse_loop_panics: "parse_loop as req = Panics \<longleftrightarrow> dangling as"
proof (induction as arbitrary: req rule: dangling.induct)
  case (2 a)
  then show ?case by (auto split: option.splits)
next
  case (3 a v as)
  then show ?case by (cases "cut_at ''='' a") auto
qed simp

end
