(* ===== verification/RuntimeTask.thy ===== *)
theory RuntimeTask
  imports Runtime
begin

text \<open>
  A running task: runtime/agentruntime.go and the goroutine \<open>run\<close> of runtime/runtime.go.  The
  engine is a program over the two hooks, a codatatype because nothing makes an engine return: it may
  emit events for ever, or block; the goroutine, the reader of the event channel and the
  callers of \<open>ResolveApproval\<close> interleave as the steps of \<open>task_step\<close>.  The channels are the
  buffers of the code (32 events, 1 decision); the last five fields record the history.
\<close>

subsection \<open>Engines and tasks\<close>

text \<open>
  \<open>Hang k\<close> is an engine that blocks while its context lives, on its process for example; when the
  context is cancelled it goes on with \<open>k\<close> (which may be the same blocked program again).
\<close>

codatatype prog =
    Emit Event prog
  | Ask string string "goerr + bool \<Rightarrow> prog"
  | Return "goerr + Result"
  | Hang prog

record decision =
  dc_approvalID :: string
  dc_granted :: bool
  dc_decidedBy :: string

datatype pc =
    At prog
  | Waiting string "goerr + bool \<Rightarrow> prog"
  | Sending "Event list"
  | Closed
  | Finished

record task =
  tk_pc :: pc
  tk_events :: "Event list"
  tk_decisions :: "decision list"
  tk_result :: "(goerr + Result) option"
  tk_cancelled :: bool
  tk_sent :: "Event list"
  tk_received :: "Event list"
  tk_accepted :: "decision list"
  tk_answers :: "(string \<times> decision) list"
  tk_skipped :: "decision list"

definition ctx_canceled :: goerr where
  "ctx_canceled = Sentinel ''context canceled''"

definition approval_event :: "string \<Rightarrow> string \<Rightarrow> Event" where
  "approval_event tool i = \<lparr>ev_Kind = KindApprovalRequired, ev_Text = [], ev_Tool = tool, ev_ApprovalID = i\<rparr>"

definition done_event :: Event where
  "done_event = \<lparr>ev_Kind = KindDone, ev_Text = [], ev_Tool = [], ev_ApprovalID = []\<rparr>"

definition final_event :: "goerr + Result \<Rightarrow> Event" where
  "final_event r =
     (case r of
        Inl e \<Rightarrow> \<lparr>ev_Kind = KindError, ev_Text = Error e, ev_Tool = [], ev_ApprovalID = []\<rparr>
      | Inr v \<Rightarrow> \<lparr>ev_Kind = KindOutput, ev_Text = rs_Output v, ev_Tool = [], ev_ApprovalID = []\<rparr>)"

text \<open>\<open>SubmitTask\<close> with the engine's program for the resolved plan.\<close>

definition new_task :: "prog \<Rightarrow> task" where
  "new_task p = \<lparr>tk_pc = At p, tk_events = [], tk_decisions = [], tk_result = None, tk_cancelled = False,
     tk_sent = [], tk_received = [], tk_accepted = [], tk_answers = [], tk_skipped = []\<rparr>"

definition SubmitTask :: "files \<Rightarrow> Runtime \<Rightarrow> (RunSpec \<Rightarrow> prog) \<Rightarrow> TaskRequest \<Rightarrow> goerr + task" where
  "SubmitTask os r engine req =
     (case buildSpec os r req of Inl e \<Rightarrow> Inl e | Inr spec \<Rightarrow> Inr (new_task (engine spec)))"

text \<open>
  The Goose engine: without a key it fails; otherwise it starts the process, streams each line of its
  output as a status event and returns the whole output.  What the process does is the argument
  \<open>proc\<close> of its environment and prompt.  Its output is a codatatype, finite or not: lines, then the
  end of the output, or silence without an end (the error is the one of a process killed by the
  context).  The second part of \<open>Runs\<close> is what \<open>Wait\<close> gives, by the output that was left unread: a
  process that blocks on its full pipe does not end.
\<close>

codatatype stdout = Line string stdout | Eof | Silent goerr

datatype wait_result = Ended "goerr option" | Blocked goerr

datatype process =
    PipeFails goerr
  | StartFails goerr
  | Runs stdout "stdout \<Rightarrow> wait_result"

definition status_event :: "string \<Rightarrow> Event" where
  "status_event line = \<lparr>ev_Kind = KindStatus, ev_Text = line, ev_Tool = [], ev_ApprovalID = []\<rparr>"

text \<open>The scanner drops a carriage return and stops at a line that fills its buffer of a megabyte.\<close>

definition drop_cr :: "string \<Rightarrow> string" where
  "drop_cr line = (if line \<noteq> [] \<and> last line = CHR 0x0D then butlast line else line)"

definition fits :: "string \<Rightarrow> bool" where
  "fits line \<longleftrightarrow> length line < 1024 * 1024"

definition goose_failed :: "goerr \<Rightarrow> prog" where
  "goose_failed e = Return (Inl (Wrap ''runtime: goose run failed: '' [] e))"

text \<open>\<open>Wait\<close>, and the result after it: \<open>out\<close> is what the builder \<open>last\<close> holds.\<close>

definition goose_wait :: "string \<Rightarrow> wait_result \<Rightarrow> prog" where
  "goose_wait out w =
     (case w of
        Ended (Some e) \<Rightarrow> goose_failed e
      | Ended None \<Rightarrow> Return (Inr \<lparr>rs_Output = TrimSpace out, rs_AuditRef = []\<rparr>)
      | Blocked e \<Rightarrow> Hang (goose_failed e))"

text \<open>The scan loop; an error of the scanner is not looked at, the loop just ends.\<close>

primcorec goose_scan :: "(stdout \<Rightarrow> wait_result) \<Rightarrow> string \<Rightarrow> stdout \<Rightarrow> prog" where
  "goose_scan wait out s =
     (case s of
        Line line rest \<Rightarrow>
          if fits line then Emit (status_event (drop_cr line)) (goose_scan wait (out @ drop_cr line @ [CHR 0x0A]) rest)
          else goose_wait out (wait s)
      | Eof \<Rightarrow> goose_wait out (wait s)
      | Silent e \<Rightarrow> Hang (goose_failed e))"

lemma goose_scan_simps [simp]:
  "fits line \<Longrightarrow> goose_scan wait out (Line line rest) =
     Emit (status_event (drop_cr line)) (goose_scan wait (out @ drop_cr line @ [CHR 0x0A]) rest)"
  "\<not> fits line \<Longrightarrow> goose_scan wait out (Line line rest) = goose_wait out (wait (Line line rest))"
  "goose_scan wait out Eof = goose_wait out (wait Eof)"
  "goose_scan wait out (Silent e) = Hang (goose_failed e)"
  by (subst goose_scan.code; simp)+

definition GooseEngine_Run :: "RuntimeConfig \<Rightarrow> (string list \<Rightarrow> string \<Rightarrow> process) \<Rightarrow> RunSpec \<Rightarrow> prog" where
  "GooseEngine_Run cfg proc spec =
     (if rc_OpenRouterAPIKey cfg = []
      then Return (Inl (Errorf ''runtime: GooseEngine needs OPENROUTER_API_KEY (set via the environment; see runtime/README.md)'' []))
      else (case proc (gooseEnv cfg spec) (goose_prompt spec) of
              PipeFails e \<Rightarrow> Return (Inl (Wrap ''runtime: goose stdout: '' [] e))
            | StartFails e \<Rightarrow> Return (Inl (Wrap ''runtime: start goose (is the binary installed?): '' [] e))
            | Runs s wait \<Rightarrow> goose_scan wait [] s))"

definition room :: "task \<Rightarrow> bool" where
  "room t \<longleftrightarrow> length (tk_events t) < 32"

definition send :: "Event \<Rightarrow> task \<Rightarrow> task" where
  "send e t = t\<lparr>tk_events := tk_events t @ [e], tk_sent := tk_sent t @ [e]\<rparr>"

text \<open>The filter of the wait loop: a decision for another approval is dropped.\<close>

definition for_other :: "string \<Rightarrow> decision \<Rightarrow> bool" where
  "for_other approvalID d \<longleftrightarrow> dc_approvalID d \<noteq> [] \<and> dc_approvalID d \<noteq> approvalID"

subsection \<open>Steps\<close>

inductive task_step :: "task \<Rightarrow> task \<Rightarrow> bool" where
  emit: "tk_pc t = At (Emit e k) \<Longrightarrow> room t \<Longrightarrow> task_step t ((send e t)\<lparr>tk_pc := At k\<rparr>)"
| emit_cancelled: "tk_pc t = At (Emit e k) \<Longrightarrow> tk_cancelled t \<Longrightarrow> task_step t (t\<lparr>tk_pc := At k\<rparr>)"
| ask: "tk_pc t = At (Ask tool i k) \<Longrightarrow> room t \<Longrightarrow>
    task_step t ((send (approval_event tool i) t)\<lparr>tk_pc := Waiting i k\<rparr>)"
| ask_cancelled: "tk_pc t = At (Ask tool i k) \<Longrightarrow> tk_cancelled t \<Longrightarrow>
    task_step t (t\<lparr>tk_pc := At (k (Inl ctx_canceled))\<rparr>)"
| skip: "tk_pc t = Waiting i k \<Longrightarrow> tk_decisions t = d # ds \<Longrightarrow> for_other i d \<Longrightarrow>
    task_step t (t\<lparr>tk_decisions := ds, tk_skipped := tk_skipped t @ [d]\<rparr>)"
| answer: "tk_pc t = Waiting i k \<Longrightarrow> tk_decisions t = d # ds \<Longrightarrow> \<not> for_other i d \<Longrightarrow>
    task_step t (t\<lparr>tk_pc := At (k (Inr (dc_granted d))), tk_decisions := ds,
                   tk_answers := tk_answers t @ [(i, d)]\<rparr>)"
| wait_cancelled: "tk_pc t = Waiting i k \<Longrightarrow> tk_cancelled t \<Longrightarrow>
    task_step t (t\<lparr>tk_pc := At (k (Inl ctx_canceled))\<rparr>)"
| unblock: "tk_pc t = At (Hang k) \<Longrightarrow> tk_cancelled t \<Longrightarrow> task_step t (t\<lparr>tk_pc := At k\<rparr>)"
| return: "tk_pc t = At (Return r) \<Longrightarrow>
    task_step t (t\<lparr>tk_pc := Sending [final_event r, done_event], tk_result := Some r\<rparr>)"
| send_final: "tk_pc t = Sending (e # es) \<Longrightarrow> room t \<Longrightarrow> task_step t ((send e t)\<lparr>tk_pc := Sending es\<rparr>)"
| close_events: "tk_pc t = Sending [] \<Longrightarrow> task_step t (t\<lparr>tk_pc := Closed\<rparr>)"
| close_done: "tk_pc t = Closed \<Longrightarrow> task_step t (t\<lparr>tk_pc := Finished\<rparr>)"
| receive: "tk_events t = e # es \<Longrightarrow>
    task_step t (t\<lparr>tk_events := es, tk_received := tk_received t @ [e]\<rparr>)"
| resolve: "tk_decisions t = [] \<Longrightarrow>
    task_step t (t\<lparr>tk_decisions := [d], tk_accepted := tk_accepted t @ [d]\<rparr>)"
| cancel: "task_step t (t\<lparr>tk_cancelled := True\<rparr>)"

text \<open>What \<open>ResolveApproval\<close> may answer: it is accepted when the buffer is free and refused when the task is done.\<close>

definition resolve_accepts :: "task \<Rightarrow> bool" where
  "resolve_accepts t \<longleftrightarrow> tk_decisions t = []"

definition resolve_refuses :: "task \<Rightarrow> bool" where
  "resolve_refuses t \<longleftrightarrow> tk_pc t = Finished"

inductive runs :: "prog \<Rightarrow> task \<Rightarrow> bool" for p where
  start: "runs p (new_task p)"
| step: "runs p t \<Longrightarrow> task_step t t' \<Longrightarrow> runs p t'"

subsection \<open>The invariant\<close>

definition asked :: "task \<Rightarrow> string list" where
  "asked t = map ev_ApprovalID (filter (\<lambda>e. ev_Kind e = KindApprovalRequired) (tk_sent t))"

text \<open>Channels lose and reorder nothing; every accepted decision is used at most once.\<close>

definition channels_ok :: "task \<Rightarrow> bool" where
  "channels_ok t \<longleftrightarrow> tk_received t @ tk_events t = tk_sent t \<and> length (tk_events t) \<le> 32 \<and>
     length (tk_decisions t) \<le> 1 \<and>
     mset (tk_accepted t) = mset (tk_decisions t) + mset (map snd (tk_answers t)) + mset (tk_skipped t) \<and>
     list_all (\<lambda>(i, d). \<not> for_other i d) (tk_answers t)"

text \<open>Answers go to the approvals asked for, in order, each at most once.\<close>

definition answers_ok :: "task \<Rightarrow> bool" where
  "answers_ok t \<longleftrightarrow>
     (case tk_pc t of
        Waiting i k \<Rightarrow> subseq (map fst (tk_answers t) @ [i]) (asked t)
      | _ \<Rightarrow> subseq (map fst (tk_answers t)) (asked t))"

text \<open>The stream ends with the outcome and \<open>done\<close>, and the result is set before it does.\<close>

definition ending_ok :: "task \<Rightarrow> bool" where
  "ending_ok t \<longleftrightarrow>
     (case tk_pc t of
        At p \<Rightarrow> tk_result t = None
      | Waiting i k \<Rightarrow> tk_result t = None
      | Sending es \<Rightarrow> \<exists>r pre. tk_result t = Some r \<and> tk_sent t @ es = pre @ [final_event r, done_event]
      | _ \<Rightarrow> \<exists>r pre. tk_result t = Some r \<and> tk_sent t = pre @ [final_event r, done_event])"

lemmas task_defs = channels_ok_def answers_ok_def ending_ok_def send_def room_def asked_def

lemma channels_step: "task_step t t' \<Longrightarrow> channels_ok t \<Longrightarrow> channels_ok t'"
  by (induction rule: task_step.induct) (auto simp: channels_ok_def send_def room_def)

lemma ending_step: "task_step t t' \<Longrightarrow> ending_ok t \<Longrightarrow> ending_ok t'"
  by (induction rule: task_step.induct) (auto simp: ending_ok_def send_def split: pc.splits)

lemma asked_send [simp]: "asked (send e t) = asked t @ (if ev_Kind e = KindApprovalRequired then [ev_ApprovalID e] else [])"
  by (simp add: asked_def send_def)

lemma asked_upd [simp]:
  "asked (t\<lparr>tk_pc := a\<rparr>) = asked t" "asked (t\<lparr>tk_decisions := b\<rparr>) = asked t" "asked (t\<lparr>tk_skipped := c\<rparr>) = asked t"
  "asked (t\<lparr>tk_answers := d\<rparr>) = asked t" "asked (t\<lparr>tk_result := e\<rparr>) = asked t"
  "asked (t\<lparr>tk_events := f\<rparr>) = asked t" "asked (t\<lparr>tk_received := g\<rparr>) = asked t"
  "asked (t\<lparr>tk_accepted := h\<rparr>) = asked t" "asked (t\<lparr>tk_cancelled := i\<rparr>) = asked t"
  by (simp_all add: asked_def)

lemma answers_upd [simp]:
  "tk_answers (send e t) = tk_answers t" "tk_pc (send e t) = tk_pc t" "tk_result (send e t) = tk_result t"
  by (simp_all add: send_def)

lemma subseq_snoc_drop: "subseq (xs @ [x]) ys \<Longrightarrow> subseq xs ys"
  by (rule subseq_order.trans [of _ "xs @ [x]"]) (simp_all add: subseq_rev_drop_many)

lemma subseq_snoc: "subseq xs ys \<Longrightarrow> subseq (xs @ [x]) (ys @ [x])"
  by (simp add: list_emb_append_mono)

lemma answers_step: "task_step t t' \<Longrightarrow> answers_ok t \<Longrightarrow> answers_ok t'"
  by (induction rule: task_step.induct)
    (auto simp: answers_ok_def approval_event_def
      dest: subseq_snoc_drop intro: subseq_rev_drop_many subseq_snoc split: pc.splits)

lemma new_task_ok: "channels_ok (new_task p)" "answers_ok (new_task p)" "ending_ok (new_task p)"
  by (simp_all add: new_task_def channels_ok_def answers_ok_def ending_ok_def asked_def)

lemma runs_ok: "runs p t \<Longrightarrow> channels_ok t \<and> answers_ok t \<and> ending_ok t"
  by (induction rule: runs.induct)
    (auto intro: new_task_ok channels_step answers_step ending_step)

subsection \<open>Properties\<close>

text \<open>
  C18. The approval protocol, in every interleaving of the engine, the reader of the events and the
  callers that decide: events arrive in the order they were sent and none is lost; the answers an
  engine gets go to approvals it asked for, in order, each at most once; every answer is a decision
  that was accepted, for that approval or for none in particular, and no decision answers twice;
  and when the task is finished its stream ended with the outcome (the error, or the output) and
  \<open>done\<close>, and its result is set.
\<close>

theorem task_protocol:
  assumes "runs p t"
  shows "tk_received t @ tk_events t = tk_sent t \<and>
    subseq (map fst (tk_answers t)) (asked t) \<and>
    list_all (\<lambda>(i, d). dc_approvalID d = [] \<or> dc_approvalID d = i) (tk_answers t) \<and>
    mset (map snd (tk_answers t)) \<subseteq># mset (tk_accepted t) \<and>
    (tk_pc t = Finished \<longrightarrow>
       (\<exists>r pre. tk_result t = Some r \<and> tk_sent t = pre @ [final_event r, done_event]))"
proof -
  from runs_ok [OF assms] have c: "channels_ok t" and a: "answers_ok t" and e: "ending_ok t" by auto
  from a have "subseq (map fst (tk_answers t)) (asked t)"
    by (auto simp: answers_ok_def dest: subseq_snoc_drop split: pc.splits)
  moreover from c have "list_all (\<lambda>(i, d). dc_approvalID d = [] \<or> dc_approvalID d = i) (tk_answers t)"
    by (auto simp: channels_ok_def for_other_def list_all_iff)
  moreover from c have "mset (map snd (tk_answers t)) \<subseteq># mset (tk_accepted t)"
    by (simp add: channels_ok_def)
  ultimately show ?thesis using c e by (auto simp: channels_ok_def ending_ok_def)
qed

text \<open>Engines that never ask: their stream is their events, then the outcome.\<close>

definition emits :: "Event list \<Rightarrow> goerr + Result \<Rightarrow> prog" where
  "emits es r = foldr Emit es (Return r)"

lemma emits_simps [simp]:
  "emits [] r = Return r" "emits (e # es) r = Emit e (emits es r)"
  by (simp_all add: emits_def)

lemma emits_inject: "Emit e k = emits es r \<Longrightarrow> \<exists>es'. es = e # es' \<and> k = emits es' r"
  by (cases es) auto

lemma emits_not_Ask [simp]: "Ask tool i k \<noteq> emits es r" "Hang k' \<noteq> emits es r"
  by (cases es; auto)+

lemma emits_Return: "Return x = emits es r \<longleftrightarrow> es = [] \<and> x = r"
  by (cases es) auto

definition streaming :: "Event list \<Rightarrow> goerr + Result \<Rightarrow> task \<Rightarrow> bool" where
  "streaming es r t \<longleftrightarrow>
     (case tk_pc t of
        At p \<Rightarrow> \<exists>es1 es2. es = es1 @ es2 \<and> p = emits es2 r \<and> (\<not> tk_cancelled t \<longrightarrow> tk_sent t = es1)
      | Waiting i k \<Rightarrow> False
      | Sending xs \<Rightarrow> tk_result t = Some r \<and> (\<not> tk_cancelled t \<longrightarrow> tk_sent t @ xs = es @ [final_event r, done_event])
      | _ \<Rightarrow> tk_result t = Some r \<and> (\<not> tk_cancelled t \<longrightarrow> tk_sent t = es @ [final_event r, done_event]))"

lemma streaming_step: "task_step t t' \<Longrightarrow> streaming es r t \<Longrightarrow> streaming es r t'"
proof (induction rule: task_step.induct)
  case (emit t e k)
  then obtain es1 es2 where p: "es = es1 @ es2" "Emit e k = emits es2 r" "\<not> tk_cancelled t \<longrightarrow> tk_sent t = es1"
    by (auto simp: streaming_def)
  from emits_inject [OF p(2)] obtain es' where "es2 = e # es'" "k = emits es' r" by blast
  with p(1,3) have "es = (es1 @ [e]) @ es' \<and> k = emits es' r \<and> (\<not> tk_cancelled t \<longrightarrow> tk_sent t @ [e] = es1 @ [e])" by simp
  then show ?case unfolding streaming_def send_def by (simp del: append_assoc) blast
next
  case (emit_cancelled t e k)
  then obtain es1 es2 where p: "es = es1 @ es2" "Emit e k = emits es2 r" by (auto simp: streaming_def)
  from emits_inject [OF p(2)] obtain es' where "es2 = e # es'" "k = emits es' r" by blast
  with p(1) emit_cancelled have "es = (es1 @ [e]) @ es' \<and> k = emits es' r \<and> tk_cancelled t" by simp
  then show ?case unfolding streaming_def by (simp del: append_assoc) blast
next
  case (return t x)
  then show ?case by (auto simp: streaming_def emits_Return)
qed (auto simp: streaming_def send_def split: pc.splits)

lemma runs_streaming: "runs (emits es r) t \<Longrightarrow> streaming es r t"
proof (induction rule: runs.induct)
  case start
  then show ?case by (auto simp: streaming_def new_task_def)
qed (rule streaming_step)

definition demo_prog :: prog where
  "demo_prog = Ask ''pay'' ''a1'' (\<lambda>r. Return (Inr \<lparr>rs_Output = ''paid'', rs_AuditRef = []\<rparr>))"

definition yes :: "string \<Rightarrow> decision" where
  "yes i = \<lparr>dc_approvalID = i, dc_granted = True, dc_decidedBy = ''lead''\<rparr>"

lemma early_run:
  "\<exists>t. runs p t \<and> tk_pc t = At p \<and> tk_decisions t = [d] \<and> tk_events t = [] \<and> tk_sent t = [] \<and> tk_answers t = []
     \<and> tk_accepted t = [d]"
proof (intro exI conjI)
  show "runs p ((new_task p)\<lparr>tk_decisions := [d], tk_accepted := tk_accepted (new_task p) @ [d]\<rparr>)"
    by (rule runs.step [OF runs.start task_step.resolve]) (simp add: new_task_def)
qed (simp_all add: new_task_def)

text \<open>
  A decision with no approval id that arrives before anything was asked stays in the buffer and
  answers the next request, whatever it is for.
\<close>

lemma early_decision_answers:
  assumes "dc_approvalID d = []"
  shows "\<exists>t. runs (Ask tool i k) t \<and> tk_pc t = At (k (Inr (dc_granted d))) \<and> tk_answers t = [(i, d)]"
proof -
  obtain t where t: "runs (Ask tool i k) t" "tk_pc t = At (Ask tool i k)" "tk_decisions t = [d]"
    "tk_events t = []" "tk_answers t = []" using early_run by metis
  let ?t1 = "(send (approval_event tool i) t)\<lparr>tk_pc := Waiting i k\<rparr>"
  have r1: "runs (Ask tool i k) ?t1"
    by (rule runs.step [OF t(1) task_step.ask]) (simp_all add: t room_def)
  have "runs (Ask tool i k) (?t1\<lparr>tk_pc := At (k (Inr (dc_granted d))), tk_decisions := [],
      tk_answers := tk_answers ?t1 @ [(i, d)]\<rparr>)"
    by (rule runs.step [OF r1 task_step.answer]) (simp_all add: send_def t for_other_def assms)
  then show ?thesis
    by (intro exI [of _ "?t1\<lparr>tk_pc := At (k (Inr (dc_granted d))), tk_decisions := [],
      tk_answers := tk_answers ?t1 @ [(i, d)]\<rparr>"]) (simp add: send_def t)
qed

theorem task_protocol_witness:
  "\<exists>t. runs demo_prog t \<and> tk_answers t = [(''a1'', yes [])] \<and> subseq (map fst (tk_answers t)) (asked t)"
proof -
  have "dc_approvalID (yes []) = []" by (simp add: yes_def)
  from early_decision_answers [OF this, of "''pay''" "''a1''" "\<lambda>r. Return (Inr \<lparr>rs_Output = ''paid'', rs_AuditRef = []\<rparr>)"]
  obtain t where t: "runs demo_prog t" "tk_answers t = [(''a1'', yes [])]" unfolding demo_prog_def by blast
  with task_protocol [OF t(1)] show ?thesis by blast
qed

lemma progressI:
  assumes "task_step t t'" "tk_accepted t' = tk_accepted t" "tk_cancelled t' = tk_cancelled t" "tk_received t' = tk_received t"
    and "tk_pc t' \<noteq> tk_pc t \<or> tk_sent t' \<noteq> tk_sent t \<or> tk_decisions t' \<noteq> tk_decisions t \<or> tk_events t' \<noteq> tk_events t"
  shows "\<exists>t'. task_step t t' \<and> t' \<noteq> t \<and> tk_accepted t' = tk_accepted t \<and> tk_cancelled t' = tk_cancelled t \<and>
    tk_received t' = tk_received t"
  using assms by auto

text \<open>With room in the event channel the engine's goroutine moves on its own.\<close>

lemma engine_moves:
  assumes "room t" "tk_pc t \<noteq> Finished" "\<forall>i k. tk_pc t = Waiting i k \<longrightarrow> tk_decisions t \<noteq> []"
    and "\<forall>k. tk_pc t \<noteq> At (Hang k)"
  shows "\<exists>t'. task_step t t' \<and> t' \<noteq> t \<and> tk_accepted t' = tk_accepted t \<and> tk_cancelled t' = tk_cancelled t \<and>
    tk_received t' = tk_received t"
proof (cases "tk_pc t")
  case (At q)
  show ?thesis
  proof (cases q)
    case (Emit e k)
    from task_step.emit [OF At [unfolded Emit] assms(1)] show ?thesis
      by (rule progressI) (simp_all add: send_def)
  next
    case (Ask tool i k)
    from task_step.ask [OF At [unfolded Ask] assms(1)] show ?thesis
      by (rule progressI) (simp_all add: send_def)
  next
    case (Return r)
    from task_step.return [OF At [unfolded Return]] show ?thesis
      by (rule progressI) (simp_all add: send_def At)
  next
    case (Hang k)
    with At assms(4) show ?thesis by simp
  qed
next
  case (Waiting i k)
  with assms(3) obtain d ds where d: "tk_decisions t = d # ds" by (cases "tk_decisions t") auto
  show ?thesis
  proof (cases "for_other i d")
    case True
    from task_step.skip [OF Waiting d True] show ?thesis
      by (rule progressI) (simp_all add: send_def d)
  next
    case False
    from task_step.answer [OF Waiting d False] show ?thesis
      by (rule progressI) (simp_all add: send_def d)
  qed
next
  case (Sending es)
  show ?thesis
  proof (cases es)
    case Nil
    from task_step.close_events [OF Sending [unfolded Nil]] show ?thesis
      by (rule progressI) (simp_all add: send_def Sending)
  next
    case (Cons e es')
    from task_step.send_final [OF Sending [unfolded Cons] assms(1)] show ?thesis
      by (rule progressI) (simp_all add: send_def)
  qed
next
  case Closed
  from task_step.close_done [OF Closed] show ?thesis
      by (rule progressI) (simp_all add: send_def Closed)
qed (use assms in simp)

text \<open>
  C19. A task is never stuck by its own doing: in every reachable state of an unfinished task, unless
  the engine waits for a decision that nobody has given or is itself blocked, the task or the reader of its events can take a step.
\<close>

theorem task_progress:
  assumes "runs p t" "tk_pc t \<noteq> Finished" "\<forall>i k. tk_pc t = Waiting i k \<longrightarrow> tk_decisions t \<noteq> []"
    and "\<forall>k. tk_pc t \<noteq> At (Hang k)"
  shows "\<exists>t'. task_step t t' \<and> t' \<noteq> t \<and> tk_accepted t' = tk_accepted t \<and> tk_cancelled t' = tk_cancelled t"
proof (cases "room t")
  case False
  then obtain e es where e: "tk_events t = e # es" by (cases "tk_events t") (auto simp: room_def)
  show ?thesis by (intro exI conjI, rule task_step.receive [OF e]) (auto simp: e dest: arg_cong [of _ _ tk_events])
next
  case True
  from engine_moves [OF this assms(2-4)] show ?thesis by blast
qed

theorem task_progress_witness:
  "\<exists>t'. task_step (new_task demo_prog) t' \<and> t' \<noteq> new_task demo_prog \<and> tk_accepted t' = []"
proof -
  have "tk_pc (new_task demo_prog) = At demo_prog" by (simp add: new_task_def)
  with task_progress [OF runs.start, of demo_prog] show ?thesis by (auto simp: new_task_def demo_prog_def)
qed

subsection \<open>The engine's goroutine as a function\<close>

text \<open>Its next step, when it has one that needs nobody else; runs are computed with it.\<close>

definition engine_move :: "task \<Rightarrow> task option" where
  "engine_move t =
     (case tk_pc t of
        At (Emit e k) \<Rightarrow> if room t then Some ((send e t)\<lparr>tk_pc := At k\<rparr>) else None
      | At (Ask tool i k) \<Rightarrow> if room t then Some ((send (approval_event tool i) t)\<lparr>tk_pc := Waiting i k\<rparr>) else None
      | At (Return r) \<Rightarrow> Some (t\<lparr>tk_pc := Sending [final_event r, done_event], tk_result := Some r\<rparr>)
      | At (Hang k) \<Rightarrow> if tk_cancelled t then Some (t\<lparr>tk_pc := At k\<rparr>) else None
      | Waiting i k \<Rightarrow>
          (case tk_decisions t of
             [] \<Rightarrow> None
           | d # ds \<Rightarrow>
               if for_other i d then Some (t\<lparr>tk_decisions := ds, tk_skipped := tk_skipped t @ [d]\<rparr>)
               else Some (t\<lparr>tk_pc := At (k (Inr (dc_granted d))), tk_decisions := ds, tk_answers := tk_answers t @ [(i, d)]\<rparr>))
      | Sending (e # es) \<Rightarrow> if room t then Some ((send e t)\<lparr>tk_pc := Sending es\<rparr>) else None
      | Sending [] \<Rightarrow> Some (t\<lparr>tk_pc := Closed\<rparr>)
      | Closed \<Rightarrow> Some (t\<lparr>tk_pc := Finished\<rparr>)
      | Finished \<Rightarrow> None)"

lemma engine_move_step:
  "engine_move t = Some t' \<Longrightarrow> task_step t t' \<and> tk_received t' = tk_received t \<and> tk_accepted t' = tk_accepted t \<and>
     tk_cancelled t' = tk_cancelled t"
  by (auto simp: engine_move_def send_def intro: task_step.intros [unfolded send_def]
      split: pc.splits prog.splits list.splits if_splits)

end
