(* ===== verification/RuntimeServer.thy ===== *)
theory RuntimeServer
  imports RuntimeTask
begin

text \<open>
  The runtime as an HTTP service: runtime/internal/server/server.go.  The manager keeps one state
  per task; \<open>drain_event\<close> and \<open>drain_end\<close> are the body and the end of the background loop that
  reads a task's events, the handlers are the routes.
\<close>

subsection \<open>The manager\<close>

record pendingApproval =
  pa_Tool :: string
  pa_ApprovalID :: string

record taskState =
  ts_events :: "Event list"
  ts_pending :: "pendingApproval option"
  ts_status :: string
  ts_result :: Result
  ts_errMsg :: string

definition no_Result :: Result where
  "no_Result = \<lparr>rs_Output = [], rs_AuditRef = []\<rparr>"

definition new_taskState :: taskState where
  "new_taskState = \<lparr>ts_events = [], ts_pending = None, ts_status = ''running'', ts_result = no_Result, ts_errMsg = []\<rparr>"

definition drain_event :: "taskState \<Rightarrow> Event \<Rightarrow> taskState" where
  "drain_event ts e =
     (let ts = ts\<lparr>ts_events := ts_events ts @ [e]\<rparr>
      in case ev_Kind e of
           KindApprovalRequired \<Rightarrow>
             ts\<lparr>ts_status := ''awaiting_approval'',
                ts_pending := Some \<lparr>pa_Tool = ev_Tool e, pa_ApprovalID = ev_ApprovalID e\<rparr>\<rparr>
         | KindError \<Rightarrow> ts\<lparr>ts_errMsg := ev_Text e\<rparr>
         | _ \<Rightarrow> ts)"

text \<open>After the stream closed: \<open>Task.Result\<close> gave a value and perhaps an error.\<close>

definition drain_end :: "taskState \<Rightarrow> goerr + Result \<Rightarrow> taskState" where
  "drain_end ts res =
     (let ts = ts\<lparr>ts_result := (case res of Inl e \<Rightarrow> no_Result | Inr r \<Rightarrow> r)\<rparr>;
          ts = (case res of
                  Inl e \<Rightarrow> (let ts = ts\<lparr>ts_status := ''error''\<rparr>
                           in if ts_errMsg ts = [] then ts\<lparr>ts_errMsg := Error e\<rparr> else ts)
                | Inr r \<Rightarrow> ts\<lparr>ts_status := ''done''\<rparr>)
      in ts\<lparr>ts_pending := None\<rparr>)"

definition drain :: "Event list \<Rightarrow> goerr + Result \<Rightarrow> taskState" where
  "drain es res = drain_end (foldl drain_event new_taskState es) res"

record snapshot =
  sn_Status :: string
  sn_Events :: "Event list"
  sn_Pending :: "pendingApproval option"
  sn_Result :: "Result option"
  sn_Error :: string

definition snapshot_of :: "taskState \<Rightarrow> snapshot" where
  "snapshot_of ts =
     \<lparr>sn_Status = ts_status ts, sn_Events = ts_events ts, sn_Pending = ts_pending ts,
      sn_Result = (if ts_status ts = ''done'' then Some (ts_result ts) else None),
      sn_Error = ts_errMsg ts\<rparr>"

subsection \<open>JSON\<close>

fun kind_text :: "EventKind \<Rightarrow> string" where
  "kind_text KindStatus = ''status''"
| "kind_text KindToolCall = ''tool_call''"
| "kind_text KindApprovalRequired = ''approval_required''"
| "kind_text KindOutput = ''output''"
| "kind_text KindError = ''error''"
| "kind_text KindDone = ''done''"

text \<open>A member with \<open>omitempty\<close>.\<close>

definition omit :: "string \<Rightarrow> string \<Rightarrow> (string \<times> json) list" where
  "omit k s = (if s = [] then [] else [(k, JStr s)])"

definition event_json :: "Event \<Rightarrow> json" where
  "event_json e = JObj ([(''kind'', JStr (kind_text (ev_Kind e)))] @ omit ''text'' (ev_Text e) @
     omit ''tool'' (ev_Tool e) @ omit ''approval_id'' (ev_ApprovalID e))"

definition snapshot_json :: "snapshot \<Rightarrow> json" where
  "snapshot_json s = JObj ([(''status'', JStr (sn_Status s)), (''events'', JArr (map event_json (sn_Events s)))] @
     (case sn_Pending s of None \<Rightarrow> []
      | Some p \<Rightarrow> [(''pending_approval'', JObj [(''tool'', JStr (pa_Tool p)), (''approval_id'', JStr (pa_ApprovalID p))])]) @
     (case sn_Result s of None \<Rightarrow> []
      | Some r \<Rightarrow> [(''result'', JObj ([(''output'', JStr (rs_Output r))] @ omit ''audit_ref'' (rs_AuditRef r)))]) @
     omit ''error'' (sn_Error s))"

text \<open>A \<open>map[string]string\<close> field: entries in order, \<open>null\<close> is the empty string.\<close>

fun json_params :: "json \<Rightarrow> (string \<rightharpoonup> string) option" where
  "json_params (JObj kvs) =
     (let vs = map (\<lambda>(k, v). (k, if v = JNull then Some [] else json_str v)) kvs
      in if None \<in> snd ` set vs then None else Some (map_of (rev (map (\<lambda>(k, v). (k, the v)) vs))))"
| "json_params _ = None"

definition decode_task :: "(string \<Rightarrow> string) \<Rightarrow> raw \<Rightarrow> TaskRequest option" where
  "decode_task cf body =
     (case body_object body of
        None \<Rightarrow> None
      | Some kvs \<Rightarrow>
          (case (str_field cf ''recipe_id'' kvs, str_field cf ''inline_goal'' kvs,
                 decode_field cf ''params'' json_params Map.empty kvs, str_field cf ''identity'' kvs,
                 str_field cf ''committee'' kvs, bool_field cf ''hard_task'' kvs) of
             (Some r, Some g, Some p, Some i, Some c, Some h) \<Rightarrow>
               Some \<lparr>tr_RecipeID = r, tr_InlineGoal = g, tr_Params = p, tr_Identity = i,
                     tr_Committee = c, tr_HardTask = h\<rparr>
           | _ \<Rightarrow> None))"

subsection \<open>The routes\<close>

text \<open>
  A server state: the manager's map and the running tasks it started.  \<open>fresh\<close> is the random id.
\<close>

record server =
  rv_tasks :: "string \<rightharpoonup> taskState"
  rv_running :: "string \<rightharpoonup> task"

definition handleSubmit ::
  "(string \<Rightarrow> string) \<Rightarrow> files \<Rightarrow> Runtime \<Rightarrow> (RunSpec \<Rightarrow> prog) \<Rightarrow> string \<Rightarrow> Request \<Rightarrow> server \<Rightarrow> Response \<times> server" where
  "handleSubmit cf os rt engine fresh r s =
     (case decode_task cf (req_Body r) of
        None \<Rightarrow> (write_error 400 ''bad request'', s)
      | Some req \<Rightarrow>
          (case SubmitTask os rt engine req of
             Inl e \<Rightarrow> (write_error 400 (Error e), s)
           | Inr t \<Rightarrow>
               (writeJSON 202 (JObj [(''task_id'', JStr fresh)]),
                s\<lparr>rv_tasks := (rv_tasks s)(fresh \<mapsto> new_taskState),
                  rv_running := (rv_running s)(fresh \<mapsto> t)\<rparr>)))"

definition handleGet :: "Request \<Rightarrow> server \<Rightarrow> Response \<times> server" where
  "handleGet r s =
     (case rv_tasks s (req_PathValue r ''id'') of
        None \<Rightarrow> (write_error 404 ''no such task'', s)
      | Some ts \<Rightarrow> (writeJSON 200 (snapshot_json (snapshot_of ts)), s))"

definition decode_approve :: "(string \<Rightarrow> string) \<Rightarrow> raw \<Rightarrow> decision option" where
  "decode_approve cf body =
     (case body_object body of
        None \<Rightarrow> None
      | Some kvs \<Rightarrow>
          (case (str_field cf ''approval_id'' kvs, bool_field cf ''granted'' kvs, str_field cf ''decided_by'' kvs) of
             (Some i, Some g, Some b) \<Rightarrow> Some \<lparr>dc_approvalID = i, dc_granted = g, dc_decidedBy = b\<rparr>
           | _ \<Rightarrow> None))"

text \<open>
  \<open>ResolveApproval\<close> blocks until the decision buffer is free or the task is done; \<open>accepted\<close> says
  which of the two the select took.  The channel holds one decision.  The list here also holds the
  decisions of requests that came while it was full, in order: their sends complete one after the
  other as the task takes decisions.  RuntimeManager has the channel as it is, one place, and a request
  waits for it in its step \<open>accept\<close>.
\<close>

definition resolved :: "taskState \<Rightarrow> taskState" where
  "resolved ts = (if ts_status ts = ''awaiting_approval''
     then ts\<lparr>ts_status := ''running'', ts_pending := None\<rparr> else ts)"

definition handleApprove :: "(string \<Rightarrow> string) \<Rightarrow> bool \<Rightarrow> Request \<Rightarrow> server \<Rightarrow> Response \<times> server" where
  "handleApprove cf accepted r s =
     (let i = req_PathValue r ''id''
      in case (rv_tasks s i, rv_running s i) of
           (Some ts, Some t) \<Rightarrow>
             (case decode_approve cf (req_Body r) of
                None \<Rightarrow> (write_error 400 ''bad request'', s)
              | Some d \<Rightarrow>
                  (if \<not> accepted then (write_error 409 ''runtime: task already finished'', s)
                   else (writeJSON 200 (JObj [(''status'', JStr ''resolved'')]),
                     s\<lparr>rv_running := (rv_running s)(i \<mapsto>
                         t\<lparr>tk_decisions := tk_decisions t @ [d], tk_accepted := tk_accepted t @ [d]\<rparr>),
                       rv_tasks := (rv_tasks s)(i \<mapsto> resolved ts)\<rparr>)))
         | _ \<Rightarrow> (write_error 404 ''no such task'', s))"

subsection \<open>Facts\<close>

lemma drain_events_fold: "ts_events (foldl drain_event ts es) = ts_events ts @ es"
proof (induction es arbitrary: ts)
  case (Cons e es)
  then show ?case by (cases "ev_Kind e") (simp_all add: drain_event_def)
qed simp

lemma drain_pending:
  "ts_pending ts \<noteq> None \<longleftrightarrow> ts_status ts = ''awaiting_approval'' \<Longrightarrow>
     ts_pending (drain_event ts e) \<noteq> None \<longleftrightarrow> ts_status (drain_event ts e) = ''awaiting_approval''"
  by (cases "ev_Kind e") (simp_all add: drain_event_def)

text \<open>
  A poller sees the whole run: once a finished task's stream has been drained, the snapshot lists
  every event the task sent, no approval is pending, the status is \<open>done\<close> with the result exactly
  when the engine returned one and \<open>error\<close> with a message otherwise.
\<close>

theorem snapshot_of_finished_task:
  assumes "runs p t" "tk_pc t = Finished" "tk_events t = []" "tk_result t = Some res"
  shows "let s = snapshot_of (drain (tk_received t) res)
    in sn_Events s = tk_sent t \<and> sn_Pending s = None \<and>
       (case res of
          Inr v \<Rightarrow> sn_Status s = ''done'' \<and> sn_Result s = Some v
        | Inl e \<Rightarrow> sn_Status s = ''error'' \<and> sn_Result s = None \<and> sn_Error s = Error e)"
proof -
  from runs_ok [OF assms(1)] have "channels_ok t" and e: "ending_ok t" by auto
  then have recv: "tk_received t = tk_sent t" using assms(3) by (simp add: channels_ok_def)
  from e assms(2,4) obtain pre where sent: "tk_sent t = pre @ [final_event res, done_event]"
    by (auto simp: ending_ok_def)
  let ?ts = "foldl drain_event new_taskState (tk_sent t)"
  have ev: "ts_events ?ts = tk_sent t" by (simp add: drain_events_fold new_taskState_def)
  have err: "ts_errMsg ?ts = Error e" if "res = Inl e" for e
    by (simp add: sent that drain_event_def final_event_def done_event_def Let_def)
  show ?thesis
    using ev err by (cases res) (simp_all add: recv drain_def drain_end_def snapshot_of_def Let_def)
qed

lemma finished_run:
  "\<exists>t. runs (Return res) t \<and> tk_pc t = Finished \<and> tk_events t = [] \<and> tk_result t = Some res \<and>
     tk_received t = [final_event res, done_event]"
proof -
  let ?t0 = "new_task (Return res)"
  have r0: "runs (Return res) ?t0" by (rule runs.start)
  define t1 where "t1 = ?t0\<lparr>tk_pc := Sending [final_event res, done_event], tk_result := Some res\<rparr>"
  have r1: "runs (Return res) t1" unfolding t1_def
    by (rule runs.step [OF r0 task_step.return]) (simp add: new_task_def)
  define t2 where "t2 = (send (final_event res) t1)\<lparr>tk_pc := Sending [done_event]\<rparr>"
  have r2: "runs (Return res) t2" unfolding t2_def
    by (rule runs.step [OF r1 task_step.send_final]) (simp_all add: t1_def room_def new_task_def)
  define t3 where "t3 = (send done_event t2)\<lparr>tk_pc := Sending []\<rparr>"
  have r3: "runs (Return res) t3" unfolding t3_def
    by (rule runs.step [OF r2 task_step.send_final]) (simp_all add: t2_def t1_def room_def send_def new_task_def)
  have e3: "tk_events t3 = [final_event res, done_event]" by (simp add: t3_def t2_def t1_def send_def new_task_def)
  define t4 where "t4 = t3\<lparr>tk_events := [done_event], tk_received := tk_received t3 @ [final_event res]\<rparr>"
  have r4: "runs (Return res) t4" unfolding t4_def
    by (rule runs.step [OF r3 task_step.receive [OF e3]])
  define t5 where "t5 = t4\<lparr>tk_events := [], tk_received := tk_received t4 @ [done_event]\<rparr>"
  have r5: "runs (Return res) t5" unfolding t5_def
    by (rule runs.step [OF r4 task_step.receive]) (simp add: t4_def)
  have r6: "runs (Return res) (t5\<lparr>tk_pc := Closed\<rparr>)"
    by (rule runs.step [OF r5 task_step.close_events]) (simp add: t5_def t4_def t3_def)
  have "runs (Return res) (t5\<lparr>tk_pc := Closed, tk_pc := Finished\<rparr>)"
    by (rule runs.step [OF r6 task_step.close_done]) simp
  then show ?thesis
    by (intro exI [of _ "t5\<lparr>tk_pc := Closed, tk_pc := Finished\<rparr>"])
      (simp add: t5_def t4_def t3_def t2_def t1_def send_def new_task_def)
qed

theorem snapshot_of_finished_task_witness:
  "\<exists>t. runs (Return (Inl (External ''boom''))) t \<and>
     (let s = snapshot_of (drain (tk_received t) (Inl (External ''boom'')))
      in sn_Status s = ''error'' \<and> sn_Error s = ''boom'' \<and> length (sn_Events s) = 2)"
proof -
  obtain t where t: "runs (Return (Inl (External ''boom''))) t" "tk_pc t = Finished" "tk_events t = []"
    "tk_result t = Some (Inl (External ''boom''))"
    "tk_received t = [final_event (Inl (External ''boom'')), done_event]"
    using finished_run by metis
  have "tk_sent t = tk_received t" using runs_ok [OF t(1)] t(3) by (simp add: channels_ok_def)
  with snapshot_of_finished_task [OF t(1-4)] t show ?thesis
    by (intro exI [of _ t]) (simp add: Let_def)
qed

lemma finished_steps: "\<exists>t. task_step\<^sup>*\<^sup>* (new_task (Return res)) t \<and> tk_pc t = Finished \<and> \<not> tk_cancelled t"
proof -
  have st: "task_step t t' \<Longrightarrow> task_step\<^sup>*\<^sup>* t' u \<Longrightarrow> task_step\<^sup>*\<^sup>* t u" for t t' u
    by (rule converse_rtranclp_into_rtranclp)
  let ?t0 = "new_task (Return res)"
  define t1 where "t1 = ?t0\<lparr>tk_pc := Sending [final_event res, done_event], tk_result := Some res\<rparr>"
  define t2 where "t2 = (send (final_event res) t1)\<lparr>tk_pc := Sending [done_event]\<rparr>"
  define t3 where "t3 = (send done_event t2)\<lparr>tk_pc := Sending []\<rparr>"
  have "task_step ?t0 t1" unfolding t1_def by (rule task_step.return) (simp add: new_task_def)
  moreover have "task_step t1 t2" unfolding t2_def
    by (rule task_step.send_final) (simp_all add: t1_def room_def new_task_def)
  moreover have "task_step t2 t3" unfolding t3_def
    by (rule task_step.send_final) (simp_all add: t2_def t1_def room_def send_def new_task_def)
  moreover have "task_step t3 (t3\<lparr>tk_pc := Closed\<rparr>)" by (rule task_step.close_events) (simp add: t3_def)
  moreover have "task_step (t3\<lparr>tk_pc := Closed\<rparr>) (t3\<lparr>tk_pc := Closed, tk_pc := Finished\<rparr>)"
    by (rule task_step.close_done) simp
  ultimately have "task_step\<^sup>*\<^sup>* ?t0 (t3\<lparr>tk_pc := Closed, tk_pc := Finished\<rparr>)"
    by (meson st rtranclp.rtrancl_refl)
  then show ?thesis
    by (intro exI conjI) (auto simp: t3_def t2_def t1_def send_def new_task_def)
qed

text \<open>
  What the scanner reads of an output that it comes to the end of: the lines, and what it leaves unread
  when a line does not fit its buffer.
\<close>

inductive scans :: "stdout \<Rightarrow> string list \<Rightarrow> stdout \<Rightarrow> bool" where
  at_end: "scans Eof [] Eof"
| too_long: "\<not> fits line \<Longrightarrow> scans (Line line rest) [] (Line line rest)"
| line: "fits line \<Longrightarrow> scans rest ls unread \<Longrightarrow> scans (Line line rest) (drop_cr line # ls) unread"

definition goose_text :: "string list \<Rightarrow> string" where
  "goose_text ls = concat (map (\<lambda>line. line @ [CHR 0x0A]) ls)"

definition goose_result :: "string \<Rightarrow> goerr option \<Rightarrow> goerr + Result" where
  "goose_result out failed =
     (case failed of Some e \<Rightarrow> Inl (Wrap ''runtime: goose run failed: '' [] e)
      | None \<Rightarrow> Inr \<lparr>rs_Output = TrimSpace out, rs_AuditRef = []\<rparr>)"

lemma goose_scan_emits:
  "scans s ls unread \<Longrightarrow> wait unread = Ended failed \<Longrightarrow>
     goose_scan wait out s = emits (map status_event ls) (goose_result (out @ goose_text ls) failed)"
  by (induction arbitrary: out rule: scans.induct)
    (simp_all add: goose_wait_def goose_failed_def goose_result_def goose_text_def split: option.split)

text \<open>
  A recipe run end to end: when a task submitted with the Goose engine finishes without being
  cancelled and its process ran and ended, the stream is one status event per line of the process in
  order, then the output (all lines, trimmed) or the error, then \<open>done\<close>; and the process was
  started with the model chosen for the task and never without the provider key.
\<close>

theorem goose_stream:
  assumes "buildSpec os r req = Inr spec" "SubmitTask os r (GooseEngine_Run cfg proc) req = Inr t0"
    and "task_step\<^sup>*\<^sup>* t0 t" "tk_pc t = Finished" "\<not> tk_cancelled t"
    and "proc (gooseEnv cfg spec) (goose_prompt spec) = Runs s wait" "rc_OpenRouterAPIKey cfg \<noteq> []"
    and "scans s ls unread" "wait unread = Ended failed"
  shows "\<exists>res. tk_result t = Some res \<and> tk_sent t = map status_event ls @ [final_event res, done_event] \<and>
    res = goose_result (goose_text ls) failed \<and>
    (''GOOSE_MODEL='' @ sp_Model spec) \<in> set (gooseEnv cfg spec) \<and>
    (''OPENROUTER_API_KEY='' @ rc_OpenRouterAPIKey cfg) \<in> set (gooseEnv cfg spec)"
proof -
  let ?res = "goose_result (goose_text ls) failed"
  from assms(1,2) have t0: "t0 = new_task (GooseEngine_Run cfg proc spec)" by (simp add: SubmitTask_def)
  have p: "GooseEngine_Run cfg proc spec = emits (map status_event ls) ?res"
    using assms(6,7) goose_scan_emits [where wait = wait and out = "[]", OF assms(8,9)] by (simp add: GooseEngine_Run_def)
  from assms(3) have "runs (emits (map status_event ls) ?res) t"
    unfolding t0 p by (induction rule: rtranclp_induct) (auto intro: runs.intros)
  from runs_streaming [OF this] assms(4,5) show ?thesis using assms(7)
    by (intro exI [of _ ?res]) (auto simp: streaming_def gooseEnv_def)
qed

text \<open>
  A line of a megabyte cuts the output short without a word: when the process ends well, the task's
  result is the text before that line.
\<close>

lemma long_line_truncates:
  assumes "scans s ls (Line line rest)" "wait (Line line rest) = Ended None"
  shows "\<not> fits line \<and> goose_scan wait [] s =
    emits (map status_event ls) (Inr \<lparr>rs_Output = TrimSpace (goose_text ls), rs_AuditRef = []\<rparr>)"
proof
  have "scans s ls u \<Longrightarrow> u = Line line rest \<Longrightarrow> \<not> fits line" for s ls u
    by (induction rule: scans.induct) auto
  with assms(1) show "\<not> fits line" by blast
qed (use goose_scan_emits [where wait = wait and out = "[]", OF assms] in \<open>simp add: goose_result_def\<close>)

definition demo_goose :: RuntimeConfig where
  "demo_goose = \<lparr>rc_Provider = ''openrouter'', rc_Model = ''m'', rc_EscalationModel = ''big'', rc_OpenRouterAPIKey = ''key'',
     rc_GatewayURL = [], rc_GatewayToken = [], rc_RecipesDir = ''recipes'', rc_GooseHintsPath = []\<rparr>"

definition demo_goal :: TaskRequest where
  "demo_goal = \<lparr>tr_RecipeID = [], tr_InlineGoal = ''sum up'', tr_Params = Map.empty, tr_Identity = ''cli'',
     tr_Committee = [], tr_HardTask = True\<rparr>"

theorem goose_stream_witness:
  "\<exists>t0 t. SubmitTask demo_files \<lparr>rt_models = Models demo_goose, rt_recipesDir = ''recipes''\<rparr>
       (GooseEngine_Run demo_goose (\<lambda>env prompt. Runs Eof (\<lambda>rest. Ended (Some (External ''exit status 1''))))) demo_goal = Inr t0 \<and>
     task_step\<^sup>*\<^sup>* t0 t \<and> tk_pc t = Finished \<and> length (tk_sent t) = 2"
proof -
  let ?rt = "\<lparr>rt_models = Models demo_goose, rt_recipesDir = ''recipes''\<rparr>"
  let ?proc = "\<lambda>env prompt. Runs Eof (\<lambda>rest. Ended (Some (External ''exit status 1'')))"
  let ?r = "Inl (Wrap ''runtime: goose run failed: '' [] (External ''exit status 1''))"
  obtain spec where b: "buildSpec demo_files ?rt demo_goal = Inr spec"
    by (simp add: buildSpec_def demo_goal_def)
  then have s: "SubmitTask demo_files ?rt (GooseEngine_Run demo_goose ?proc) demo_goal = Inr (new_task (Return ?r))"
    by (simp add: SubmitTask_def GooseEngine_Run_def demo_goose_def goose_wait_def goose_failed_def)
  obtain t where t: "task_step\<^sup>*\<^sup>* (new_task (Return ?r)) t" "tk_pc t = Finished" "\<not> tk_cancelled t"
    using finished_steps by blast
  have k: "rc_OpenRouterAPIKey demo_goose \<noteq> []" by (simp add: demo_goose_def)
  from goose_stream [OF b s t refl k scans.at_end refl] have "length (tk_sent t) = 2" by auto
  with s t show ?thesis by blast
qed

text \<open>
  An accepted decision clears the pending approval the poller sees even when it is for another
  approval, which the task drops.
\<close>

lemma approve_clears_pending:
  assumes "rv_tasks s i = Some ts" "ts_status ts = ''awaiting_approval''" "rv_running s i = Some t"
    and "req_PathValue r ''id'' = i" "decode_approve cf (req_Body r) = Some d"
    and "tk_pc t = Waiting a k" "for_other a d"
  shows "\<exists>s'. handleApprove cf True r s = (writeJSON 200 (JObj [(''status'', JStr ''resolved'')]), s') \<and>
    (\<exists>ts'. rv_tasks s' i = Some ts' \<and> ts_pending ts' = None \<and> ts_status ts' = ''running'') \<and>
    (\<exists>t'. rv_running s' i = Some t' \<and> tk_pc t' = Waiting a k)"
  using assms by (simp add: handleApprove_def resolved_def)

end
