(* ===== verification/RuntimeManager.thy ===== *)
theory RuntimeManager
  imports RuntimeServer
begin

text \<open>
  The manager of runtime/internal/server/server.go as its goroutines interleave.  For one submitted
  task there run the engine's goroutine (\<open>task_step\<close>), the drainer, which takes an event from the
  channel and then records it under the lock, and any number of requests to \<open>handleApprove\<close>, each of
  which first delivers its decision to the task and then, in a second critical section, clears the
  question.  The handlers of RuntimeServer are the runs in which a request is not interrupted.  Tasks
  are submitted with the background context, so none is cancelled.
\<close>

section \<open>Steps\<close>

record manager =
  mg_task :: task
  mg_state :: taskState
  mg_hand :: "Event option"
  mg_drained :: bool
  mg_inflight :: nat

definition submitted :: "prog \<Rightarrow> manager" where
  "submitted p = \<lparr>mg_task = new_task p, mg_state = new_taskState, mg_hand = None, mg_drained = False, mg_inflight = 0\<rparr>"

text \<open>
  \<open>take\<close> and \<open>store\<close> are the two halves of a round of the drain loop, \<open>finish\<close> is its end after the stream
  closed and \<open>Result\<close> returned; \<open>accept\<close> and \<open>settle\<close> are the two halves of \<open>handleApprove\<close>.
\<close>

inductive manager_step :: "manager \<Rightarrow> manager \<Rightarrow> bool" where
  engine: "task_step (mg_task m) t \<Longrightarrow> tk_received t = tk_received (mg_task m) \<Longrightarrow>
    tk_accepted t = tk_accepted (mg_task m) \<Longrightarrow> tk_cancelled t = tk_cancelled (mg_task m) \<Longrightarrow>
    manager_step m (m\<lparr>mg_task := t\<rparr>)"
| take: "tk_events (mg_task m) = e # es \<Longrightarrow> mg_hand m = None \<Longrightarrow>
    manager_step m (m\<lparr>mg_task := (mg_task m)\<lparr>tk_events := es, tk_received := tk_received (mg_task m) @ [e]\<rparr>,
      mg_hand := Some e\<rparr>)"
| store: "mg_hand m = Some e \<Longrightarrow>
    manager_step m (m\<lparr>mg_state := drain_event (mg_state m) e, mg_hand := None\<rparr>)"
| finish: "mg_hand m = None \<Longrightarrow> tk_events (mg_task m) = [] \<Longrightarrow> tk_pc (mg_task m) = Finished \<Longrightarrow>
    tk_result (mg_task m) = Some r \<Longrightarrow> \<not> mg_drained m \<Longrightarrow>
    manager_step m (m\<lparr>mg_state := drain_end (mg_state m) r, mg_drained := True\<rparr>)"
| accept: "tk_decisions (mg_task m) = [] \<Longrightarrow>
    manager_step m (m\<lparr>mg_task := (mg_task m)\<lparr>tk_decisions := [d], tk_accepted := tk_accepted (mg_task m) @ [d]\<rparr>,
      mg_inflight := Suc (mg_inflight m)\<rparr>)"
| settle: "mg_inflight m = Suc n \<Longrightarrow>
    manager_step m (m\<lparr>mg_state := resolved (mg_state m), mg_inflight := n\<rparr>)"

inductive managed :: "prog \<Rightarrow> manager \<Rightarrow> bool" for p where
  start: "managed p (submitted p)"
| step: "managed p m \<Longrightarrow> manager_step m m' \<Longrightarrow> managed p m'"

text \<open>What the manager does to the task is a run of the task.\<close>

lemma manager_task: "manager_step m m' \<Longrightarrow> task_step (mg_task m) (mg_task m') \<or> mg_task m' = mg_task m"
  by (induction rule: manager_step.induct) (auto intro: task_step.intros)

lemma managed_runs: "managed p m \<Longrightarrow> runs p (mg_task m)"
proof (induction rule: managed.induct)
  case start
  then show ?case by (simp add: submitted_def runs.start)
next
  case (step m m')
  then show ?case using manager_task [of m m'] by (auto intro: runs.step)
qed

section \<open>What a snapshot says\<close>

definition in_hand :: "manager \<Rightarrow> Event list" where
  "in_hand m = (case mg_hand m of None \<Rightarrow> [] | Some e \<Rightarrow> [e])"

definition events_seen :: "manager \<Rightarrow> bool" where
  "events_seen m \<longleftrightarrow> ts_events (mg_state m) @ in_hand m = tk_received (mg_task m)"

text \<open>The question shown is one that was asked, and there is one exactly while the status says so.\<close>

definition question_ok :: "taskState \<Rightarrow> bool" where
  "question_ok ts \<longleftrightarrow> (ts_pending ts \<noteq> None \<longleftrightarrow> ts_status ts = ''awaiting_approval'') \<and>
     (\<forall>q. ts_pending ts = Some q \<longrightarrow> (\<exists>e \<in> set (ts_events ts). ev_Kind e = KindApprovalRequired \<and>
        ev_Tool e = pa_Tool q \<and> ev_ApprovalID e = pa_ApprovalID q))"

definition final_status :: "goerr + Result \<Rightarrow> string" where
  "final_status r = (case r of Inl e \<Rightarrow> ''error'' | Inr v \<Rightarrow> ''done'')"

definition status_ok :: "manager \<Rightarrow> bool" where
  "status_ok m \<longleftrightarrow>
     (if mg_drained m
      then \<exists>r. tk_result (mg_task m) = Some r \<and> tk_pc (mg_task m) = Finished \<and> tk_events (mg_task m) = [] \<and>
        mg_hand m = None \<and> ts_status (mg_state m) = final_status r \<and> (\<forall>v. r = Inr v \<longrightarrow> ts_result (mg_state m) = v)
      else ts_status (mg_state m) = ''running'' \<or> ts_status (mg_state m) = ''awaiting_approval'')"

lemma drain_event_simps [simp]:
  "ts_events (drain_event ts e) = ts_events ts @ [e]" "ts_result (drain_event ts e) = ts_result ts"
  by (cases "ev_Kind e"; simp add: drain_event_def)+

lemma drain_end_simps [simp]:
  "ts_events (drain_end ts r) = ts_events ts" "ts_pending (drain_end ts r) = None"
  "ts_status (drain_end ts r) = final_status r" "ts_result (drain_end ts (Inr v)) = v"
  by (cases r; simp add: drain_end_def final_status_def Let_def)+

lemma resolved_simps [simp]:
  "ts_events (resolved ts) = ts_events ts" "ts_result (resolved ts) = ts_result ts"
  "ts_status (resolved ts) = (if ts_status ts = ''awaiting_approval'' then ''running'' else ts_status ts)"
  by (simp_all add: resolved_def)

lemma final_status_simps [simp]: "final_status r \<noteq> ''awaiting_approval''" "''awaiting_approval'' \<noteq> final_status r"
  "final_status r \<noteq> ''running''"
  by (simp_all add: final_status_def split: sum.split)

lemma events_step: "manager_step m m' \<Longrightarrow> events_seen m \<Longrightarrow> events_seen m'"
  by (induction rule: manager_step.induct) (auto simp: events_seen_def in_hand_def)

lemma finished_stays:
  assumes "task_step t t'" "tk_pc t = Finished" "tk_received t' = tk_received t" "tk_accepted t' = tk_accepted t"
    and "tk_cancelled t' = tk_cancelled t"
  shows "t' = t"
  using assms by (cases rule: task_step.cases) auto

lemma question_step: "manager_step m m' \<Longrightarrow> question_ok (mg_state m) \<Longrightarrow> question_ok (mg_state m')"
proof (induction rule: manager_step.induct)
  case (store m e)
  then show ?case by (cases "ev_Kind e") (auto simp: question_ok_def drain_event_def)
qed (auto simp: question_ok_def resolved_def)

lemma status_step: "manager_step m m' \<Longrightarrow> status_ok m \<Longrightarrow> status_ok m'"
proof (induction rule: manager_step.induct)
  case (engine m t)
  then show ?case using finished_stays [of "mg_task m" t] by (auto simp: status_ok_def split: if_splits)
next
  case (store m e)
  then show ?case by (cases "ev_Kind e") (auto simp: status_ok_def drain_event_def split: if_splits)
next
  case (finish m r)
  then show ?case by (auto simp: status_ok_def)
qed (auto simp: status_ok_def split: if_splits)

lemma managed_ok: "managed p m \<Longrightarrow> events_seen m \<and> question_ok (mg_state m) \<and> status_ok m"
proof (induction rule: managed.induct)
  case start
  then show ?case
    by (simp add: submitted_def events_seen_def in_hand_def question_ok_def status_ok_def new_taskState_def new_task_def)
qed (blast intro: events_step question_step status_step)

text \<open>Once the stream is drained nothing changes the state a poller reads.\<close>

lemma drained_step: "manager_step m m' \<Longrightarrow> mg_drained m \<Longrightarrow> status_ok m \<Longrightarrow> mg_drained m' \<and> mg_state m' = mg_state m"
  by (induction rule: manager_step.induct) (auto simp: status_ok_def resolved_def)

lemma drained_stays:
  assumes "manager_step\<^sup>*\<^sup>* m m'" "mg_drained m" "status_ok m"
  shows "mg_drained m' \<and> status_ok m' \<and> mg_state m' = mg_state m"
  using assms(1)
proof (induction rule: rtranclp_induct)
  case (step a b)
  then show ?case using drained_step [of a b] status_step [of a b] by auto
qed (use assms in simp)

text \<open>
  C20. A poller is told the truth in every interleaving of the engine, the drainer and the requests that
  decide: the events in a snapshot are a prefix of those sent; a question is shown exactly while the
  status is \<open>awaiting_approval\<close>, and it is one that was asked; a status other than \<open>running\<close> and
  \<open>awaiting_approval\<close> means that the task is over, every event is there, the status and the result are
  the engine's outcome, and no later step changes the snapshot.
\<close>

theorem snapshot_truthful:
  assumes "managed p m" "s = snapshot_of (mg_state m)" "t = mg_task m"
  shows "prefix (sn_Events s) (tk_sent t) \<and> (sn_Pending s \<noteq> None \<longleftrightarrow> sn_Status s = ''awaiting_approval'') \<and>
    (\<forall>q. sn_Pending s = Some q \<longrightarrow> pa_ApprovalID q \<in> set (asked t)) \<and>
    (sn_Status s \<in> {''running'', ''awaiting_approval''} \<or>
     tk_pc t = Finished \<and> sn_Events s = tk_sent t \<and>
     (\<exists>r. tk_result t = Some r \<and>
        (case r of Inl e \<Rightarrow> sn_Status s = ''error'' | Inr v \<Rightarrow> sn_Status s = ''done'' \<and> sn_Result s = Some v)) \<and>
     (\<forall>m'. manager_step\<^sup>*\<^sup>* m m' \<longrightarrow> snapshot_of (mg_state m') = s))"
proof -
  have ev: "ts_events (mg_state m) @ in_hand m = tk_received t" and q: "question_ok (mg_state m)" and st: "status_ok m"
    using managed_ok [OF assms(1)] assms(3) by (auto simp: events_seen_def)
  have ch: "tk_received t @ tk_events t = tk_sent t"
    using runs_ok [OF managed_runs [OF assms(1)]] assms(3) by (simp add: channels_ok_def)
  with ev have sent: "tk_sent t = ts_events (mg_state m) @ in_hand m @ tk_events t" by (metis append_assoc)
  have asked: "pa_ApprovalID x \<in> set (asked t)" if "ts_pending (mg_state m) = Some x" for x
    using q that by (force simp: question_ok_def asked_def sent)
  show ?thesis
  proof (cases "mg_drained m")
    case True
    with st obtain r where r: "tk_result t = Some r" "tk_pc t = Finished" "tk_events t = []" "mg_hand m = None"
      "ts_status (mg_state m) = final_status r" "\<forall>v. r = Inr v \<longrightarrow> ts_result (mg_state m) = v"
      by (auto simp: status_ok_def assms(3))
    have stays: "\<forall>m'. manager_step\<^sup>*\<^sup>* m m' \<longrightarrow> snapshot_of (mg_state m') = s"
    proof (intro allI impI)
      fix m'
      assume "manager_step\<^sup>*\<^sup>* m m'"
      from drained_stays [OF this True st] show "snapshot_of (mg_state m') = s" by (simp add: assms(2))
    qed
    have s: "sn_Events s = tk_sent t" "sn_Pending s = None" "sn_Status s = final_status r"
      using q r(4,5) by (simp_all add: assms(2) snapshot_of_def sent in_hand_def r(3) question_ok_def)
    have "case r of Inl e \<Rightarrow> sn_Status s = ''error'' | Inr v \<Rightarrow> sn_Status s = ''done'' \<and> sn_Result s = Some v"
      using r(5,6) by (cases r) (simp_all add: assms(2) snapshot_of_def final_status_def)
    with r(1,2) s stays show ?thesis by simp
  next
    case False
    with st q asked show ?thesis
      by (auto simp: assms(2) snapshot_of_def sent question_ok_def status_ok_def)
  qed
qed

section \<open>Running the manager\<close>

text \<open>The steps as a function, so that runs can be computed.\<close>

datatype action = Engine | Take | Store | Finish | Accept decision | Settle

fun move :: "manager \<Rightarrow> action \<Rightarrow> manager option" where
  "move m Engine = (case engine_move (mg_task m) of None \<Rightarrow> None | Some t \<Rightarrow> Some (m\<lparr>mg_task := t\<rparr>))"
| "move m Take =
     (case (tk_events (mg_task m), mg_hand m) of
        (e # es, None) \<Rightarrow> Some (m\<lparr>mg_task := (mg_task m)\<lparr>tk_events := es, tk_received := tk_received (mg_task m) @ [e]\<rparr>,
                              mg_hand := Some e\<rparr>)
      | _ \<Rightarrow> None)"
| "move m Store =
     (case mg_hand m of None \<Rightarrow> None | Some e \<Rightarrow> Some (m\<lparr>mg_state := drain_event (mg_state m) e, mg_hand := None\<rparr>))"
| "move m Finish =
     (if mg_hand m = None \<and> tk_events (mg_task m) = [] \<and> \<not> mg_drained m
      then (case (tk_pc (mg_task m), tk_result (mg_task m)) of
              (Finished, Some r) \<Rightarrow> Some (m\<lparr>mg_state := drain_end (mg_state m) r, mg_drained := True\<rparr>)
            | _ \<Rightarrow> None)
      else None)"
| "move m (Accept d) =
     (if tk_decisions (mg_task m) = []
      then Some (m\<lparr>mg_task := (mg_task m)\<lparr>tk_decisions := [d], tk_accepted := tk_accepted (mg_task m) @ [d]\<rparr>,
                   mg_inflight := Suc (mg_inflight m)\<rparr>)
      else None)"
| "move m Settle =
     (case mg_inflight m of 0 \<Rightarrow> None | Suc n \<Rightarrow> Some (m\<lparr>mg_state := resolved (mg_state m), mg_inflight := n\<rparr>))"

lemma move_step: "move m a = Some m' \<Longrightarrow> manager_step m m'"
proof (cases a)
  case Engine
  then show "move m a = Some m' \<Longrightarrow> manager_step m m'"
    by (auto dest!: engine_move_step intro: manager_step.engine split: option.splits)
qed (auto intro: manager_step.intros split: if_splits option.splits list.splits pc.splits nat.splits)

fun moves :: "manager \<Rightarrow> action list \<Rightarrow> manager option" where
  "moves m [] = Some m"
| "moves m (a # as) = (case move m a of None \<Rightarrow> None | Some m' \<Rightarrow> moves m' as)"

lemma moves_managed: "managed p m \<Longrightarrow> moves m as = Some m' \<Longrightarrow> managed p m'"
  by (induction as arbitrary: m) (auto dest: move_step intro: managed.step split: option.splits)

definition paid_run :: "action list" where
  "paid_run = [Engine, Take, Store, Accept (yes ''a1''), Settle, Engine, Engine, Engine, Engine, Engine, Engine,
     Take, Store, Take, Store, Finish]"

theorem snapshot_truthful_witness:
  "\<exists>m. managed demo_prog m \<and> sn_Status (snapshot_of (mg_state m)) = ''done'' \<and>
    sn_Events (snapshot_of (mg_state m)) = tk_sent (mg_task m) \<and> length (tk_sent (mg_task m)) = 3"
proof -
  obtain m where m: "moves (submitted demo_prog) paid_run = Some m" "ts_status (mg_state m) = ''done''"
    "length (tk_sent (mg_task m)) = 3"
    by (simp add: submitted_def demo_prog_def paid_run_def engine_move_def new_task_def new_taskState_def room_def
        send_def approval_event_def drain_event_def resolved_def for_other_def yes_def final_event_def done_event_def final_status_def)
  from moves_managed [OF managed.start m(1)] have mg: "managed demo_prog m" .
  from snapshot_truthful [OF mg refl refl] m(2,3) mg show ?thesis by (auto simp: snapshot_of_def)
qed

section \<open>A question that gets lost\<close>

text \<open>
  The two halves of \<open>handleApprove\<close> are not one: when the engine takes the answer and asks its next
  question, and the drainer shows it, before the request clears the old one, the request clears the
  new question.  The task then waits for an answer to a question that no poller can see.
\<close>

definition two_questions :: prog where
  "two_questions = Ask ''pay'' ''a1'' (\<lambda>_. Ask ''send'' ''a2'' (\<lambda>_. Return (Inr no_Result)))"

lemma question_lost:
  "\<exists>m k. managed two_questions m \<and> tk_pc (mg_task m) = Waiting ''a2'' k \<and> tk_decisions (mg_task m) = [] \<and>
    mg_inflight m = 0 \<and> sn_Status (snapshot_of (mg_state m)) = ''running'' \<and> sn_Pending (snapshot_of (mg_state m)) = None \<and>
    sn_Events (snapshot_of (mg_state m)) = tk_sent (mg_task m)"
proof -
  obtain m k where m: "moves (submitted two_questions)
      [Engine, Take, Store, Accept (yes ''a1''), Engine, Engine, Take, Store, Settle] = Some m"
    "tk_pc (mg_task m) = Waiting ''a2'' k" "tk_decisions (mg_task m) = []" "mg_inflight m = 0"
    "ts_status (mg_state m) = ''running''" "ts_pending (mg_state m) = None" "ts_events (mg_state m) = tk_sent (mg_task m)"
    by (simp add: submitted_def two_questions_def engine_move_def new_task_def new_taskState_def room_def
        send_def approval_event_def drain_event_def resolved_def for_other_def yes_def)
  from moves_managed [OF managed.start m(1)] m show ?thesis by (auto simp: snapshot_of_def)
qed

text \<open>A request that is not interrupted between its halves leaves the next question on the screen.\<close>

lemma question_kept:
  "\<exists>m. moves (submitted two_questions) [Engine, Take, Store, Accept (yes ''a1''), Settle, Engine, Engine, Take, Store] = Some m \<and>
    ts_pending (mg_state m) = Some \<lparr>pa_Tool = ''send'', pa_ApprovalID = ''a2''\<rparr>"
  by (simp add: submitted_def two_questions_def engine_move_def new_task_def new_taskState_def room_def
      send_def approval_event_def drain_event_def resolved_def for_other_def yes_def)

end
