(* ===== verification/Manifest.thy ===== *)
theory Manifest
  imports Filepath StoreRegistry
begin

text \<open>
  The registry contract: gateway/internal/manifest/manifest.go.  Reading a file and decoding its
  YAML are arguments (\<open>readFile\<close>, \<open>yaml\<close>); validation is fail-closed, and \<open>LoadDir\<close> collects the
  files named \<open>manifest.yaml\<close> of a directory tree.
\<close>

record manifestTool =
  mt_Name :: string
  mt_Scope :: string
  mt_Impact :: string

record manifestFile =
  mf_Name :: string
  mf_Owner :: string
  mf_Description :: string
  mf_Endpoint :: string
  mf_Transport :: string
  mf_Auth :: string
  mf_Tools :: "manifestTool list"
  mf_AllowedCommittees :: "string list"
  mf_Lifecycle :: string

definition validImpact :: "string \<Rightarrow> bool" where
  "validImpact i \<longleftrightarrow> i \<in> set [''read'', ''write'', ''high'']"

text \<open>The loop over the tools, from index \<open>i\<close> on.\<close>

fun validate_tools :: "string \<Rightarrow> nat \<Rightarrow> manifestTool list \<Rightarrow> ToolInput list res" where
  "validate_tools path i [] = Inr []"
| "validate_tools path i (t # ts) =
     (if mt_Name t = [] then
        Inl (Errorf ''manifest %s: tool %d has no name'' [path, Itoa (int i)])
      else if mt_Scope t = [] then
        Inl (Errorf ''manifest %s: tool %q has no scope (fail closed)'' [path, mt_Name t])
      else if \<not> validImpact (mt_Impact t) then
        Inl (Errorf ''manifest %s: tool %q has invalid impact %q (read|write|high)''
               [path, mt_Name t, mt_Impact t])
      else (case validate_tools path (Suc i) ts of
              Inl e \<Rightarrow> Inl e
            | Inr ins \<Rightarrow> Inr (\<lparr>tin_Name = mt_Name t, tin_Scope = mt_Scope t,
                              tin_Impact = mt_Impact t\<rparr> # ins)))"

definition validate :: "manifestFile \<Rightarrow> string \<Rightarrow> ServerInput res" where
  "validate m path =
     (if mf_Name m = [] then Inl (Errorf ''manifest %s: name is required'' [path])
      else if mf_Endpoint m = [] then Inl (Errorf ''manifest %s: endpoint is required'' [path])
      else if mf_Tools m = [] then Inl (Errorf ''manifest %s: at least one tool is required'' [path])
      else (case validate_tools path 0 (mf_Tools m) of
              Inl e \<Rightarrow> Inl e
            | Inr ts \<Rightarrow>
                Inr \<lparr>sin_Name = mf_Name m, sin_Owner = mf_Owner m,
                     sin_Description = mf_Description m, sin_Endpoint = mf_Endpoint m,
                     sin_Transport = mf_Transport m, sin_Auth = mf_Auth m, sin_Tools = ts,
                     sin_Committees = mf_AllowedCommittees m\<rparr>))"

lemma validate_tools_map:
  "validate_tools path i ts = Inr ins \<Longrightarrow>
     ins = map (\<lambda>t. \<lparr>tin_Name = mt_Name t, tin_Scope = mt_Scope t, tin_Impact = mt_Impact t\<rparr>) ts"
  by (induction path i ts arbitrary: ins rule: validate_tools.induct) (auto split: if_splits sum.splits)

lemma validate_tools_of:
  assumes "validate m path = Inr inp"
  shows "sin_Name inp = mf_Name m \<and>
    sin_Tools inp = map (\<lambda>t. \<lparr>tin_Name = mt_Name t, tin_Scope = mt_Scope t, tin_Impact = mt_Impact t\<rparr>) (mf_Tools m)"
  using assms by (auto simp: validate_def split: if_splits sum.splits dest: validate_tools_map)

definition Load_manifest ::
  "(string \<Rightarrow> string res) \<Rightarrow> (string \<Rightarrow> manifestFile res) \<Rightarrow> string \<Rightarrow> ServerInput res" where
  "Load_manifest readFile yaml path =
     (case readFile path of
        Inl e \<Rightarrow> Inl (Wrap ''manifest: read %s: '' [path] e)
      | Inr bytes \<Rightarrow>
          (case yaml bytes of
             Inl e \<Rightarrow> Inl (Wrap ''manifest: parse %s: '' [path] e)
           | Inr m \<Rightarrow> validate m path))"

definition manifest_walk :: "string list walk_fn" where
  "manifest_walk path name isDir err paths =
     (case err of
        Some (nx, m) \<Rightarrow> (if nx then (SkipDir, paths) else (Fail (External m), paths))
      | None \<Rightarrow> (Continue, if \<not> isDir \<and> name = ''manifest.yaml'' then paths @ [path] else paths))"

fun load_all ::
  "(string \<Rightarrow> string res) \<Rightarrow> (string \<Rightarrow> manifestFile res) \<Rightarrow> string list \<Rightarrow> ServerInput list res" where
  "load_all readFile yaml [] = Inr []"
| "load_all readFile yaml (p # ps) =
     (case Load_manifest readFile yaml p of
        Inl e \<Rightarrow> Inl e
      | Inr i \<Rightarrow> (case load_all readFile yaml ps of Inl e \<Rightarrow> Inl e | Inr is \<Rightarrow> Inr (i # is)))"

definition LoadDir ::
  "(string \<Rightarrow> string res) \<Rightarrow> (string \<Rightarrow> manifestFile res) \<Rightarrow> (string \<Rightarrow> (bool \<times> string) + fsnode) \<Rightarrow>
   string \<Rightarrow> ServerInput list res" where
  "LoadDir readFile yaml lstat root =
     (let serversDir = path_join [root, ''mcp-servers'']
      in case WalkDir manifest_walk serversDir (lstat serversDir) [] of
           (Some e, paths) \<Rightarrow> Inl e
         | (None, paths) \<Rightarrow> load_all readFile yaml paths)"

subsection \<open>What a loaded manifest satisfies\<close>

text \<open>A server input that the registry's own checks accept, tool by tool.\<close>

definition input_ok :: "ServerInput \<Rightarrow> bool" where
  "input_ok i \<longleftrightarrow> sin_Name i \<noteq> [] \<and> sin_Endpoint i \<noteq> [] \<and> sin_Tools i \<noteq> [] \<and>
     list_all (\<lambda>t. tin_Name t \<noteq> [] \<and> tin_Scope t \<noteq> [] \<and> impact_ok (tin_Impact t)) (sin_Tools i)"

lemma validate_tools_ok:
  "validate_tools path i ts = Inr ins \<Longrightarrow>
     list_all (\<lambda>t. tin_Name t \<noteq> [] \<and> tin_Scope t \<noteq> [] \<and> impact_ok (tin_Impact t)) ins \<and>
     map (\<lambda>t. (tin_Name t, tin_Scope t, tin_Impact t)) ins =
       map (\<lambda>t. (mt_Name t, mt_Scope t, mt_Impact t)) ts"
  by (induction path i ts arbitrary: ins rule: validate_tools.induct)
    (auto simp: validImpact_def impact_ok_def split: if_splits sum.splits)

lemma validate_tools_complete:
  "list_all (\<lambda>t. mt_Name t \<noteq> [] \<and> mt_Scope t \<noteq> [] \<and> validImpact (mt_Impact t)) ts \<Longrightarrow>
     \<exists>ins. validate_tools path i ts = Inr ins"
proof (induction ts arbitrary: i)
  case (Cons t ts)
  then obtain ins where "validate_tools path (Suc i) ts = Inr ins" by fastforce
  with Cons.prems show ?case by simp
qed simp

lemma validate_ok:
  assumes "validate m path = Inr i"
  shows "input_ok i" "sin_Name i = mf_Name m" "sin_Committees i = mf_AllowedCommittees m"
  using assms
  by (auto simp: validate_def input_ok_def split: if_splits sum.splits dest!: validate_tools_ok)

lemma Load_manifest_ok: "Load_manifest rf y p = Inr i \<Longrightarrow> input_ok i"
  by (auto simp: Load_manifest_def split: sum.splits dest: validate_ok)

lemma load_all_ok: "load_all rf y ps = Inr is \<Longrightarrow> list_all input_ok is \<and> length is = length ps"
  by (induction ps arbitrary: "is") (auto split: sum.splits dest: Load_manifest_ok)

text \<open>
  C16. Loading is fail-closed: every server that a directory load returns has a name, an endpoint
  and at least one tool, and every tool of it has a name, a scope and an impact of read, write or
  high; one bad manifest and nothing is returned.
\<close>

theorem LoadDir_fail_closed:
  assumes "LoadDir readFile yaml lstat root = Inr ins"
  shows "list_all input_ok ins"
  using assms by (auto simp: LoadDir_def Let_def split: prod.splits option.splits dest: load_all_ok)

definition demo_manifest :: manifestFile where
  "demo_manifest =
     \<lparr>mf_Name = ''finance-rules'', mf_Owner = ''finance'', mf_Description = [],
      mf_Endpoint = ''http://finance/mcp'', mf_Transport = [], mf_Auth = [],
      mf_Tools = [\<lparr>mt_Name = ''evaluate'', mt_Scope = ''finance:read'', mt_Impact = ''read''\<rparr>],
      mf_AllowedCommittees = [''finance''], mf_Lifecycle = []\<rparr>"

theorem LoadDir_fail_closed_witness:
  "\<exists>ins. LoadDir (\<lambda>p. Inr p) (\<lambda>b. Inr demo_manifest)
      (\<lambda>p. Inr (Directory [(''a'', Directory [(''manifest.yaml'', RegFile)])])) ''r'' = Inr ins \<and>
    length ins = 1 \<and> list_all input_ok ins"
proof -
  have "\<exists>ins. LoadDir (\<lambda>p. Inr p) (\<lambda>b. Inr demo_manifest)
      (\<lambda>p. Inr (Directory [(''a'', Directory [(''manifest.yaml'', RegFile)])])) ''r'' = Inr ins \<and>
    length ins = 1"
    by (simp add: LoadDir_def Let_def WalkDir_def manifest_walk_def Load_manifest_def validate_def
        demo_manifest_def validImpact_def)
  then show ?thesis using LoadDir_fail_closed by blast
qed

text \<open>
  A manifest is accepted exactly when it has a name, an endpoint and tools that each have a
  name, a scope and a valid impact.
\<close>

theorem validate_accepts_iff:
  "is_ok (validate m path) \<longleftrightarrow>
     mf_Name m \<noteq> [] \<and> mf_Endpoint m \<noteq> [] \<and> mf_Tools m \<noteq> [] \<and>
     list_all (\<lambda>t. mt_Name t \<noteq> [] \<and> mt_Scope t \<noteq> [] \<and>
        (mt_Impact t = ''read'' \<or> mt_Impact t = ''write'' \<or> mt_Impact t = ''high'')) (mf_Tools m)"
    (is "_ \<longleftrightarrow> ?ok")
proof
  assume "is_ok (validate m path)"
  then obtain i where v: "validate m path = Inr i" by (auto simp: is_ok_iff)
  then obtain ts where "validate_tools path 0 (mf_Tools m) = Inr ts"
    and ne: "mf_Name m \<noteq> []" "mf_Endpoint m \<noteq> []" "mf_Tools m \<noteq> []"
    by (auto simp: validate_def split: if_splits sum.splits)
  from validate_tools_ok [OF this(1)] have
    l: "list_all (\<lambda>t. tin_Name t \<noteq> [] \<and> tin_Scope t \<noteq> [] \<and> impact_ok (tin_Impact t)) ts" and
    m: "map (\<lambda>t. (tin_Name t, tin_Scope t, tin_Impact t)) ts =
        map (\<lambda>t. (mt_Name t, mt_Scope t, mt_Impact t)) (mf_Tools m)" by auto
  have "(mt_Name t, mt_Scope t, mt_Impact t) \<in> (\<lambda>t. (tin_Name t, tin_Scope t, tin_Impact t)) ` set ts"
    if "t \<in> set (mf_Tools m)" for t
    using that arg_cong [OF m, of set] by force
  with l ne show ?ok by (fastforce simp: list_all_iff impact_ok_def)
next
  assume ok: ?ok
  then have "list_all (\<lambda>t. mt_Name t \<noteq> [] \<and> mt_Scope t \<noteq> [] \<and> validImpact (mt_Impact t)) (mf_Tools m)"
    by (auto simp: list_all_iff validImpact_def)
  from validate_tools_complete [OF this, of path 0] ok show "is_ok (validate m path)"
    by (auto simp: validate_def)
qed

end
