(* ===== verification/GatewayServer.thy ===== *)
theory GatewayServer
  imports Http GatewayProperties Manifest
begin

text \<open>
  The gateway as a process: its HTTP front (gateway/internal/server/server.go), the downstream
  JSON-RPC client (gateway/internal/proxy/httpcaller.go), the configuration
  (gateway/internal/config/config.go) and the registry sync of gateway/cmd/gateway/main.go.
\<close>

subsection \<open>Configuration\<close>

record GatewayConfig =
  gc_Port :: string
  gc_RateCommitteePerMin :: int
  gc_RateGlobalPerMin :: int
  gc_ServiceToken :: string
  gc_DatabaseURL :: string
  gc_ContextForgeURL :: string
  gc_DownstreamToken :: string
  gc_RepoRoot :: string

definition Load_gateway_config :: "(string \<Rightarrow> string) \<Rightarrow> GatewayConfig" where
  "Load_gateway_config env =
     \<lparr>gc_Port = firstNonEmpty [env ''PORT'', ''8080''],
      gc_RateCommitteePerMin = envInt env ''GATEWAY_RATE_COMMITTEE_PER_MIN'' 120,
      gc_RateGlobalPerMin = envInt env ''GATEWAY_RATE_GLOBAL_PER_MIN'' 600,
      gc_ServiceToken = env ''GATEWAY_SERVICE_TOKEN'', gc_DatabaseURL = env ''DATABASE_URL'',
      gc_ContextForgeURL = env ''CONTEXTFORGE_URL'',
      gc_DownstreamToken = env ''MCP_DOWNSTREAM_TOKEN'',
      gc_RepoRoot = firstNonEmpty [env ''REPO_ROOT'', ''.'']\<rparr>"

text \<open>The limiter \<open>main\<close> builds from it: the burst of each dimension is its rate.\<close>

definition config_limiter :: "GatewayConfig \<Rightarrow> Limiter" where
  "config_limiter c = NewLimiter (gc_RateCommitteePerMin c) (gc_RateCommitteePerMin c)
     (gc_RateGlobalPerMin c) (gc_RateGlobalPerMin c)"

subsection \<open>The downstream caller\<close>

text \<open>
  One HTTP exchange is the argument \<open>http\<close>: an address, the headers and a body change the world \<open>'w\<close> of
  the servers and give a transport error or a status code and a body.  \<open>parse_url\<close> is \<open>http.NewRequest\<close> accepting the address.
\<close>

type_synonym 'w http = "string \<Rightarrow> (string \<times> string) list \<Rightarrow> json \<Rightarrow> 'w \<Rightarrow> (goerr + int \<times> raw) \<times> 'w"

text \<open>The decoded \<open>error\<close> member: absent or \<open>null\<close> is no error; unmatched types fail the decoder.\<close>

fun rpc_error :: "(string \<Rightarrow> string) \<Rightarrow> json \<Rightarrow> (int \<times> string) option" where
  "rpc_error cf (JObj kvs) =
     (case (int_field cf ''code'' kvs, str_field cf ''message'' kvs) of
        (Some c, Some m) \<Rightarrow> Some (c, m) | _ \<Rightarrow> None)"
| "rpc_error cf _ = None"

definition decode_rpc :: "(string \<Rightarrow> string) \<Rightarrow> raw \<Rightarrow> (raw \<times> (int \<times> string) option) option" where
  "decode_rpc cf body =
     (case body_object body of
        None \<Rightarrow> None
      | Some kvs \<Rightarrow>
          (case raw_field cf ''error'' kvs of
             Raw_JSON j \<Rightarrow>
               (if j = JNull then Some (raw_field cf ''result'' kvs, None)
                else (case rpc_error cf j of
                        None \<Rightarrow> None
                      | Some e \<Rightarrow> Some (raw_field cf ''result'' kvs, Some e)))
           | _ \<Rightarrow> Some (raw_field cf ''result'' kvs, None)))"

definition rpc_headers :: "string \<Rightarrow> (string \<times> string) list" where
  "rpc_headers token = [(''Content-Type'', ''application/json''), (''Accept'', ''application/json, text/event-stream'')] @
     (if token \<noteq> [] then [(''Authorization'', ''Bearer '' @ token)] else [])"

definition rpc_body :: "string \<Rightarrow> json \<Rightarrow> json" where
  "rpc_body name a =
     JObj [(''jsonrpc'', JStr ''2.0''), (''id'', JNum ''1''), (''method'', JStr ''tools/call''),
           (''params'', JObj [(''arguments'', a), (''name'', JStr name)])]"

definition HTTPCaller_Call ::
  "(string \<Rightarrow> string) \<Rightarrow> (string \<Rightarrow> goerr option) \<Rightarrow> 'w http \<Rightarrow> string \<Rightarrow> Server \<Rightarrow> Tool \<Rightarrow> raw \<Rightarrow> 'w \<Rightarrow> raw res \<times> 'w" where
  "HTTPCaller_Call cf parse_url http token server tool args w =
     (let args = (if args = Raw_Empty then Raw_JSON (JObj []) else args)
      in case raw_value args of
           None \<Rightarrow> (Inl (Wrap ''proxy: marshal request: '' [] (External ''invalid character'')), w)
         | Some a \<Rightarrow>
             (case parse_url (srv_Endpoint server) of
                Some e \<Rightarrow> (Inl (Wrap ''proxy: new request: '' [] e), w)
              | None \<Rightarrow>
                  (case http (srv_Endpoint server) (rpc_headers token) (rpc_body (tl_Name tool) a) w of
                     (Inl e, w') \<Rightarrow> (Inl (Wrap ''proxy: call %s: '' [srv_Name server] e), w')
                   | (Inr (status, resp), w') \<Rightarrow>
                       ((if status \<ge> 300
                         then Inl (Errorf ''proxy: %s returned %d'' [srv_Name server, Itoa status])
                         else (case decode_rpc cf resp of
                                 None \<Rightarrow> Inl (Wrap ''proxy: decode response: '' [] (External ''unexpected JSON''))
                               | Some (result, Some (c, m)) \<Rightarrow>
                                   Inl (Errorf ''proxy: tool error %d: %s'' [Itoa c, m])
                               | Some (result, None) \<Rightarrow> Inr result)), w'))))"

subsection \<open>The HTTP front\<close>

definition HeaderIdentity :: "Request \<Rightarrow> Identity res" where
  "HeaderIdentity r =
     (let subject = req_Header r ''X-ScottyLabs-Subject''; raw = req_Header r ''X-ScottyLabs-Committees''
      in if subject = [] then Inl (Errorf ''no subject'' [])
         else Inr \<lparr>id_Subject = subject,
                   id_Committees = (if raw \<noteq> []
                     then filter (\<lambda>c. c \<noteq> []) (map TrimSpace (split_on (CHR '','') raw)) else []),
                   id_IsAgent = (req_Header r ''X-ScottyLabs-Agent'' = ''true'')\<rparr>)"

definition visible_json :: "VisibleTool \<Rightarrow> json" where
  "visible_json v = JObj [(''server_name'', JStr (vt_ServerName v)), (''server_id'', JStr (vt_ServerID v)),
     (''tool_name'', JStr (vt_ToolName v)), (''scope'', JStr (vt_Scope v)), (''impact'', JStr (vt_Impact v))]"

definition handleTools :: "'s Gateway \<Rightarrow> Request \<Rightarrow> 's gstate \<Rightarrow> Response \<times> 's gstate" where
  "handleTools g r gs =
     (case HeaderIdentity r of
        Inl e \<Rightarrow> (write_error 401 ''no identity'', gs)
      | Inr ident \<Rightarrow>
          (case ListTools g ident gs of
             (Inl e, gs') \<Rightarrow> (write_error 500 ''list failed'', gs')
           | (Inr tools, gs') \<Rightarrow> (writeJSON 200 (JObj [(''tools'', JArr (map visible_json tools))]), gs')))"

definition decode_call :: "(string \<Rightarrow> string) \<Rightarrow> Identity \<Rightarrow> raw \<Rightarrow> CallRequest option" where
  "decode_call cf ident body =
     (case body_object body of
        None \<Rightarrow> None
      | Some kvs \<Rightarrow>
          (case (str_field cf ''session_id'' kvs, str_field cf ''server'' kvs, str_field cf ''tool'' kvs) of
             (Some sid, Some sv, Some t) \<Rightarrow>
               Some \<lparr>rq_Identity = ident, rq_SessionID = sid, rq_ServerName = sv, rq_ToolName = t,
                     rq_Args = raw_field cf ''args'' kvs\<rparr>
           | _ \<Rightarrow> None))"

text \<open>The switch over the outcome of a call; an output that is no JSON leaves the body empty.\<close>

definition call_response :: "CallResult \<Rightarrow> goerr option \<Rightarrow> Response" where
  "call_response res err =
     (case err of
        None \<Rightarrow>
          (case raw_value (cs_Output res) of
             Some j \<Rightarrow> writeJSON 200 (JObj [(''audit_id'', JNum (Itoa (cs_AuditID res))), (''output'', j)])
           | None \<Rightarrow> \<lparr>resp_Code = 200, resp_Body = Raw_Empty\<rparr>)
      | Some e \<Rightarrow>
          (if errors_Is e ErrUnknownTool then write_error 404 ''unknown tool''
           else if errors_Is e ErrUnauthorized then write_error 403 ''unauthorized''
           else (case as_approval_required e of
                   Some (i, t) \<Rightarrow> writeJSON 202 (JObj [(''approval_id'', JStr i),
                       (''status'', JStr ''approval_required''), (''tool'', JStr t)])
                 | None \<Rightarrow> write_error 502 ''call failed'')))"

definition handleCall ::
  "(string \<Rightarrow> string) \<Rightarrow> 's Gateway \<Rightarrow> clock \<Rightarrow> Request \<Rightarrow> 's gstate \<Rightarrow> Response \<times> 's gstate" where
  "handleCall cf g ck r gs =
     (case HeaderIdentity r of
        Inl e \<Rightarrow> (write_error 401 ''no identity'', gs)
      | Inr ident \<Rightarrow>
          (case decode_call cf ident (req_Body r) of
             None \<Rightarrow> (write_error 400 ''bad request'', gs)
           | Some req \<Rightarrow>
               (let ((res, err), gs') = Call g ck req gs in (call_response res err, gs'))))"

text \<open>The two guarded routes.\<close>

definition serve_tools :: "string \<Rightarrow> 's Gateway \<Rightarrow> Request \<Rightarrow> 's gstate \<Rightarrow> Response \<times> 's gstate" where
  "serve_tools token g r gs = auth token r (handleTools g) gs"

definition serve_call ::
  "(string \<Rightarrow> string) \<Rightarrow> string \<Rightarrow> 's Gateway \<Rightarrow> clock \<Rightarrow> Request \<Rightarrow> 's gstate \<Rightarrow> Response \<times> 's gstate" where
  "serve_call cf token g ck r gs = auth token r (handleCall cf g ck) gs"

subsection \<open>Registry sync\<close>

fun register_all :: "'s Gateway \<Rightarrow> ServerInput list \<Rightarrow> 's gstate \<Rightarrow> unit res \<times> 's gstate" where
  "register_all g [] gs = (Inr (), gs)"
| "register_all g (inp # ins) gs =
     and_then (Register g inp gs) (\<lambda>s gs. register_all g ins gs)"

text \<open>Loading every manifest below \<open>repoRoot\<close> and registering them in the order found, up to the first error.\<close>

definition syncRegistry ::
  "(string \<Rightarrow> string res) \<Rightarrow> (string \<Rightarrow> manifestFile res) \<Rightarrow> (string \<Rightarrow> (bool \<times> string) + fsnode) \<Rightarrow>
   's Gateway \<Rightarrow> string \<Rightarrow> 's gstate \<Rightarrow> unit res \<times> 's gstate" where
  "syncRegistry readFile yaml lstat g repoRoot gs =
     (case LoadDir readFile yaml lstat repoRoot of
        Inl e \<Rightarrow> (Inl e, gs)
      | Inr servers \<Rightarrow> register_all g servers gs)"

subsection \<open>Facts\<close>

text \<open>Every committee name that reaches the policy is trimmed and not empty.\<close>

lemma HeaderIdentity_ok:
  assumes "HeaderIdentity r = Inr ident"
  shows "id_Subject ident \<noteq> []" "c \<in> set (id_Committees ident) \<Longrightarrow> c \<noteq> [] \<and> TrimSpace c = c"
  using assms by (auto simp: HeaderIdentity_def Let_def split: if_splits)

lemma refuse_not_None: "refuse g req ck t e gs \<noteq> ((res, None), gs')"
  by (auto simp: refuse_def split: prod.splits)

lemma gate_None: "gate g req ck b gs = ((res, None), gs') \<Longrightarrow> gs_calls gs' \<noteq> gs_calls gs"
  by (auto simp: gate_def refuse_not_None dest!: dispatch_eq split: if_splits prod.splits sum.splits bool.splits)

lemma Call_None: "Call g ck req gs = ((res, None), gs') \<Longrightarrow> gs_calls gs' \<noteq> gs_calls gs"
proof -
  assume c: "Call g ck req gs = ((res, None), gs')"
  obtain ok gs1 where l: "limit_step ck (rq_Identity req) gs = (ok, gs1)" by force
  obtain br s1 where r: "st_ResolveTool (gw_store g) (rq_ServerName req) (rq_ToolName req) (gs_store gs1) = (br, s1)"
    by force
  from c l r have "\<exists>b. gate g req ck b (gs1\<lparr>gs_store := s1\<rparr>) = ((res, None), gs')"
    by (cases ok; cases br) (auto simp: Call_def resolve_and_authorize_def refuse_not_None split: if_splits)
  then obtain b where "gate g req ck b (gs1\<lparr>gs_store := s1\<rparr>) = ((res, None), gs')" by blast
  from gate_None [OF this] limit_step_frame(2) [OF l] show ?thesis by simp
qed

lemma dispatch_None:
  "dispatch g req ck b gs = ((res, None), gs') \<Longrightarrow>
     \<exists>s1. gw_caller g (tb_Server b) (tb_Tool b) (rq_Args req) (gs_store gs) = (Inr (cs_Output res), s1)"
  by (auto simp: dispatch_def Let_def split: prod.splits sum.splits)

lemma serve_call_authorized:
  assumes "serve_call cf token g ck r gs = (resp, gs')" "gs_calls gs' \<noteq> gs_calls gs \<or> resp_Code resp = 200"
  obtains ident req res err where "token \<noteq> []" "req_Header r ''Authorization'' = ''Bearer '' @ token"
    "HeaderIdentity r = Inr ident" "decode_call cf ident (req_Body r) = Some req"
    "Call g ck req gs = ((res, err), gs')" "resp = call_response res err"
  using assms
  by (auto simp: serve_call_def auth_def handleCall_def bearer_ok_def write_error_def writeJSON_def
      split: if_splits sum.splits option.splits prod.splits intro: that)

lemma call_response_200: "resp_Code (call_response res err) = 200 \<Longrightarrow> err = None"
  by (auto simp: call_response_def write_error_def writeJSON_def split: option.splits if_splits)

text \<open>
  C17. Over HTTP, a tool runs only for an authenticated caller: if a request to \<open>POST /call\<close> reaches a
  downstream server then the service token is set, the request carried it and named a subject; and
  a 200 answer means that exactly one downstream call was made and succeeded, for that subject.
\<close>

theorem http_call_authenticated:
  assumes "serve_call cf token g ck r gs = (resp, gs')"
  shows "(gs_calls gs' \<noteq> gs_calls gs \<longrightarrow> token \<noteq> [] \<and>
      req_Header r ''Authorization'' = ''Bearer '' @ token \<and> req_Header r ''X-ScottyLabs-Subject'' \<noteq> []) \<and>
    (resp_Code resp = 200 \<longrightarrow> (\<exists>srv t args s out s'. gs_calls gs' = gs_calls gs @ [(srv, t, args)] \<and>
      gw_caller g srv t args s = (Inr out, s')))"
proof (intro conjI impI)
  assume "gs_calls gs' \<noteq> gs_calls gs"
  then have "gs_calls gs' \<noteq> gs_calls gs \<or> resp_Code resp = 200" by simp
  from serve_call_authorized [OF assms this] obtain ident where
    "token \<noteq> []" "req_Header r ''Authorization'' = ''Bearer '' @ token" "HeaderIdentity r = Inr ident" by metis
  then show "token \<noteq> []" "req_Header r ''Authorization'' = ''Bearer '' @ token"
    "req_Header r ''X-ScottyLabs-Subject'' \<noteq> []"
    by (auto simp: HeaderIdentity_def Let_def split: if_splits)
next
  assume "resp_Code resp = 200"
  then have "gs_calls gs' \<noteq> gs_calls gs \<or> resp_Code resp = 200" by simp
  from serve_call_authorized [OF assms this] \<open>resp_Code resp = 200\<close> obtain req res where
    c: "Call g ck req gs = ((res, None), gs')" by (metis call_response_200)
  from Call_dispatched [OF c Call_None [OF c]] obtain gs1 b s2 where
    l: "limit_step ck (rq_Identity req) gs = (True, gs1)" and
    d: "dispatch g req ck b (gs1\<lparr>gs_store := s2\<rparr>) = ((res, None), gs')" by metis
  from dispatch_None [OF d] dispatch_eq [OF d] limit_step_frame(2) [OF l]
  show "\<exists>srv t args s out s'. gs_calls gs' = gs_calls gs @ [(srv, t, args)] \<and>
      gw_caller g srv t args s = (Inr out, s')" by auto
qed

definition demo_http :: Request where
  "demo_http =
     \<lparr>req_Header = (\<lambda>h. if h = ''Authorization'' then ''Bearer key'' else if h = ''X-ScottyLabs-Subject'' then ''ada''
        else if h = ''X-ScottyLabs-Committees'' then '' finance'' else []),
      req_Body = Raw_JSON (JObj [(''server'', JStr ''fin''), (''tool'', JStr ''look'')]),
      req_PathValue = (\<lambda>n. []), req_Query = (\<lambda>n. [])\<rparr>"

definition demo_http_call :: CallRequest where
  "demo_http_call = \<lparr>rq_Identity = \<lparr>id_Subject = ''ada'', id_Committees = [''finance''], id_IsAgent = False\<rparr>,
     rq_SessionID = [], rq_ServerName = ''fin'', rq_ToolName = ''look'', rq_Args = Raw_Empty\<rparr>"

lemma demo_http_decodes:
  "HeaderIdentity demo_http = Inr (rq_Identity demo_http_call)"
  "decode_call (\<lambda>s. s) (rq_Identity demo_http_call) (req_Body demo_http) = Some demo_http_call"
  by code_simp+

theorem http_call_authenticated_witness:
  "\<exists>resp gs'. serve_call (\<lambda>s. s) ''key'' demo_gateway demo_clock demo_http (start_gateway None demo_db) = (resp, gs') \<and>
     length (gs_calls gs') = 1 \<and> req_Header demo_http ''Authorization'' = ''Bearer '' @ ''key''"
proof -
  obtain res err gs' where c: "Call demo_gateway demo_clock demo_http_call (start_gateway None demo_db) = ((res, err), gs')"
    by (metis prod.exhaust)
  have "decide demo_pg demo_db demo_http_call
      = Run \<lparr>tb_Server = server_view demo_pg demo_db demo_server, tb_Tool = demo_tool ''look'' ''read''\<rparr>"
    by (simp add: decide_def resolve_spec_def may_use_def demo_http_call_def)
  with Call_decide [OF _ _ _ _ _ c, of demo_pg] demo_db_inv have n: "length (gs_calls gs') = 1"
    by (simp add: demo_http_call_def)
  have s: "serve_call (\<lambda>s. s) ''key'' demo_gateway demo_clock demo_http (start_gateway None demo_db)
      = (call_response res err, gs')"
    using demo_http_decodes c
    by (simp add: serve_call_def auth_def bearer_ok_def handleCall_def) (simp add: demo_http_def)
  from http_call_authenticated [OF s] n have "req_Header demo_http ''Authorization'' = ''Bearer '' @ ''key''"
    by auto
  with s n show ?thesis by (intro exI conjI)
qed

end
