(* ===== verification/GatewayMain.thy ===== *)
theory GatewayMain
  imports GatewayServer
begin

text \<open>
  The gateway process: \<open>main\<close> of gateway/cmd/gateway/main.go, with its registry sync.  Opening the
  database with its migrations is the argument \<open>database\<close>: \<open>None\<close> when both succeed.
\<close>

datatype 'a started = Exits int | Serves string 'a

text \<open>
  With the argument \<open>sync\<close> the registry is filled from the manifests below \<open>REPO_ROOT\<close> (\<open>LoadDir\<close>, on the
  files that \<open>readFile\<close>, \<open>yaml\<close> and \<open>lstat\<close> give) and the process exits; otherwise it serves the policy API with its token.  \<open>caller\<close> is the downstream client
  with the configured token.
\<close>

definition gateway_main ::
  "(string \<Rightarrow> string) \<Rightarrow> (string \<Rightarrow> goerr option) \<Rightarrow> (string \<Rightarrow> 's Gateway) \<Rightarrow>
   (string \<Rightarrow> string res) \<Rightarrow> (string \<Rightarrow> manifestFile res) \<Rightarrow> (string \<Rightarrow> (bool \<times> string) + fsnode) \<Rightarrow>
   string list \<Rightarrow> 's \<Rightarrow> (string \<times> 's Gateway) started \<times> 's gstate" where
  "gateway_main env database gateway readFile yaml lstat args s =
     (let cfg = Load_gateway_config env; gs = start_gateway (Some (config_limiter cfg)) s
      in if gc_DatabaseURL cfg = [] then (Exits 1, gs)
         else (case database (gc_DatabaseURL cfg) of
                 Some e \<Rightarrow> (Exits 1, gs)
               | None \<Rightarrow>
                   (let gw = gateway (gc_DownstreamToken cfg)
                    in if args \<noteq> [] \<and> hd args = ''sync''
                       then (case syncRegistry readFile yaml lstat gw (gc_RepoRoot cfg) gs of
                               (Inl e, gs') \<Rightarrow> (Exits 1, gs')
                             | (Inr u, gs') \<Rightarrow> (Exits 0, gs'))
                       else (Serves ('':'' @ gc_Port cfg) (gc_ServiceToken cfg, gw), gs))))"

subsection \<open>What a sync leaves in the registry\<close>

text \<open>
  The registry holds a manifest: the row of its name has every column that the manifest gives (transport
  and authentication with their defaults), its tools are the manifest's, each with scope and impact, and
  its grants are the manifest's committees.
\<close>

definition manifest_held :: "db \<Rightarrow> ServerInput \<Rightarrow> bool" where
  "manifest_held d inp \<longleftrightarrow> (\<exists>v \<in> set (mcp_servers d). row_written inp v \<and>
     tool_input ` {t \<in> set (mcp_tools d). tl_ServerID t = srv_ID v} = set (sin_Tools inp) \<and>
     {c. (srv_ID v, c) \<in> set (server_committees d)} = set (sin_Committees inp))"

text \<open>Manifests are registered in order, so the last one of a name counts.\<close>

fun last_of_name :: "ServerInput list \<Rightarrow> ServerInput list" where
  "last_of_name [] = []"
| "last_of_name (i # ins) =
     (if sin_Name i \<in> sin_Name ` set ins then last_of_name ins else i # last_of_name ins)"

text \<open>The row of a server, its tools and its grants are in \<open>d'\<close> what they were in \<open>d\<close>.\<close>

definition same_server :: "db \<Rightarrow> db \<Rightarrow> Server \<Rightarrow> bool" where
  "same_server d d' v \<longleftrightarrow> v \<in> set (mcp_servers d') \<and>
     filter (\<lambda>t. tl_ServerID t = srv_ID v) (mcp_tools d') = filter (\<lambda>t. tl_ServerID t = srv_ID v) (mcp_tools d) \<and>
     {c. (srv_ID v, c) \<in> set (server_committees d')} = {c. (srv_ID v, c) \<in> set (server_committees d)}"

lemma same_server_trans: "same_server a b v \<Longrightarrow> same_server b c v \<Longrightarrow> same_server a c v"
  by (simp add: same_server_def)

lemma same_server_held:
  assumes "manifest_held d i" "\<And>w. w \<in> set (mcp_servers d) \<Longrightarrow> srv_Name w = sin_Name i \<Longrightarrow> same_server d d' w"
  shows "manifest_held d' i"
proof -
  from assms(1) obtain w where w: "w \<in> set (mcp_servers d)" "row_written i w"
    "tool_input ` {t \<in> set (mcp_tools d). tl_ServerID t = srv_ID w} = set (sin_Tools i)"
    "{c. (srv_ID w, c) \<in> set (server_committees d)} = set (sin_Committees i)" unfolding manifest_held_def by blast
  have "srv_Name w = sin_Name i" using w(2) by (simp add: row_written_def)
  with assms(2) w(1) have same: "same_server d d' w" by blast
  have "{t \<in> set (mcp_tools d'). tl_ServerID t = srv_ID w} = {t \<in> set (mcp_tools d). tl_ServerID t = srv_ID w}"
    using same by (simp add: same_server_def flip: set_filter)
  with same w show ?thesis unfolding manifest_held_def same_server_def by (intro bexI [of _ w]) simp_all
qed

text \<open>Nothing is put into service: a server is new and proposed, or as it was.\<close>

definition none_promoted :: "db \<Rightarrow> db \<Rightarrow> bool" where
  "none_promoted d d' \<longleftrightarrow> (\<forall>v \<in> set (mcp_servers d'). srv_Lifecycle v = LifecycleProposed \<or>
     (\<exists>v0 \<in> set (mcp_servers d). srv_Name v0 = srv_Name v \<and> srv_Lifecycle v0 = srv_Lifecycle v \<and> srv_Enabled v0 = srv_Enabled v))"

lemma none_promoted_refl: "none_promoted d d"
  by (auto simp: none_promoted_def)

lemma none_promoted_trans: "none_promoted a b \<Longrightarrow> none_promoted b c \<Longrightarrow> none_promoted a c"
  unfolding none_promoted_def by metis

lemma none_promotedD:
  "none_promoted d d' \<Longrightarrow> v \<in> set (mcp_servers d') \<Longrightarrow> srv_Lifecycle v = ''approved'' \<Longrightarrow>
    \<exists>v0 \<in> set (mcp_servers d). srv_Name v0 = srv_Name v \<and> srv_Lifecycle v0 = ''approved'' \<and> srv_Enabled v0 = srv_Enabled v"
  unfolding none_promoted_def LifecycleProposed_def by (drule (1) bspec) simp

lemma registered:
  assumes "db_inv d" "RegisterServer p inp d = (Inr s, d')"
  shows "manifest_held d' inp" "none_promoted d d'"
    "filter (\<lambda>v. srv_Name v \<noteq> sin_Name inp) (mcp_servers d') = filter (\<lambda>v. srv_Name v \<noteq> sin_Name inp) (mcp_servers d)"
    "w \<in> set (mcp_servers d) \<Longrightarrow> srv_Name w \<noteq> sin_Name inp \<Longrightarrow> same_server d d' w"
proof -
  obtain v where v: "v \<in> set (mcp_servers d')" "srv_Name v = sin_Name inp"
    "tool_input ` {t \<in> set (mcp_tools d'). tl_ServerID t = srv_ID v} = set (sin_Tools inp)"
    "{c. (srv_ID v, c) \<in> set (server_committees d')} = set (sin_Committees inp)" "row_written inp v"
    "case find (\<lambda>v. srv_Name v = sin_Name inp) (mcp_servers d) of
       Some v0 \<Rightarrow> srv_ID v = srv_ID v0 \<and> srv_Lifecycle v = srv_Lifecycle v0 \<and> srv_Enabled v = srv_Enabled v0
     | None \<Rightarrow> srv_Lifecycle v = LifecycleProposed \<and> srv_Enabled v"
    "filter (\<lambda>v. srv_Name v \<noteq> sin_Name inp) (mcp_servers d') = filter (\<lambda>v. srv_Name v \<noteq> sin_Name inp) (mcp_servers d)"
    "filter (\<lambda>t. tl_ServerID t \<noteq> srv_ID v) (mcp_tools d') = filter (\<lambda>t. tl_ServerID t \<noteq> srv_ID v) (mcp_tools d)"
    "{sc \<in> set (server_committees d'). fst sc \<noteq> srv_ID v} = {sc \<in> set (server_committees d). fst sc \<noteq> srv_ID v}"
    by (rule RegisterServer_ok [OF assms])
  have "db_inv d'" using RegisterServer_inv [OF assms(1), of p inp] assms(2) by simp
  then have dist: "distinct (map srv_ID (mcp_servers d'))" "distinct (map srv_Name (mcp_servers d'))"
    by (simp_all add: db_inv_def servers_ok_def)
  show "manifest_held d' inp" using v unfolding manifest_held_def by blast
  show keep: "filter (\<lambda>v. srv_Name v \<noteq> sin_Name inp) (mcp_servers d') = filter (\<lambda>v. srv_Name v \<noteq> sin_Name inp) (mcp_servers d)"
    by (rule v(7))
  have other: "w \<in> set (mcp_servers d) \<longleftrightarrow> w \<in> set (mcp_servers d')" if "srv_Name w \<noteq> sin_Name inp" for w
    using arg_cong [OF keep, of "\<lambda>xs. w \<in> set xs"] that by simp
  show "none_promoted d d'"
    unfolding none_promoted_def
  proof
    fix w assume w: "w \<in> set (mcp_servers d')"
    show "srv_Lifecycle w = LifecycleProposed \<or> (\<exists>v0 \<in> set (mcp_servers d). srv_Name v0 = srv_Name w \<and>
        srv_Lifecycle v0 = srv_Lifecycle w \<and> srv_Enabled v0 = srv_Enabled w)"
    proof (cases "srv_Name w = sin_Name inp")
      case True
      with w v(1,2) dist(2) have "w = v" by (metis distinct_map inj_onD)
      with v(2,6) show ?thesis by (auto split: option.splits dest!: find_SomeD)
    next
      case False
      with other w show ?thesis by blast
    qed
  qed
  assume w: "w \<in> set (mcp_servers d)" "srv_Name w \<noteq> sin_Name inp"
  then have w': "w \<in> set (mcp_servers d')" using other by simp
  then have ne: "srv_ID w \<noteq> srv_ID v" using v(1,2) dist(1) w(2) by (metis distinct_map inj_onD)
  have "filter (\<lambda>t. tl_ServerID t = srv_ID w) xs =
      filter (\<lambda>t. tl_ServerID t = srv_ID w) (filter (\<lambda>t. tl_ServerID t \<noteq> srv_ID v) xs)" for xs
    unfolding filter_filter using ne by (intro filter_cong) auto
  with v(8) have "filter (\<lambda>t. tl_ServerID t = srv_ID w) (mcp_tools d') = filter (\<lambda>t. tl_ServerID t = srv_ID w) (mcp_tools d)"
    by metis
  moreover have "(srv_ID w, c) \<in> set (server_committees d') \<longleftrightarrow> (srv_ID w, c) \<in> set (server_committees d)" for c
    using arg_cong [OF v(9), of "\<lambda>xs. (srv_ID w, c) \<in> xs"] ne by simp
  ultimately show "same_server d d' w" using w' by (simp add: same_server_def)
qed

text \<open>The audit row that \<open>Register\<close> adds does not touch the registry.\<close>

lemma Register_registered:
  assumes "gw_store g = repo_store p" "Register g inp gs = (Inr s, gs')" "db_inv (gs_store gs)"
  obtains d' where "RegisterServer p inp (gs_store gs) = (Inr s, d')" "db_inv (gs_store gs')"
    "mcp_servers (gs_store gs') = mcp_servers d'" "mcp_tools (gs_store gs') = mcp_tools d'"
    "server_committees (gs_store gs') = server_committees d'"
proof -
  from assms(1,2) obtain d' r e where r: "RegisterServer p inp (gs_store gs) = (Inr s, d')"
    and w: "WriteAudit p e d' = (r, gs_store gs')"
    by (auto simp: Register_def Let_def split: prod.splits sum.splits)
  have "db_inv (gs_store gs')"
    using RegisterServer_inv [OF assms(3), of p inp] WriteAudit_inv [of d' p e] r w by simp
  moreover have "mcp_servers (gs_store gs') = mcp_servers d' \<and> mcp_tools (gs_store gs') = mcp_tools d' \<and>
      server_committees (gs_store gs') = server_committees d'"
    using w by (cases r) (auto dest!: WriteAudit_ok WriteAudit_error)
  ultimately show thesis using that r by blast
qed

lemma register_all_ok:
  assumes "gw_store g = repo_store p" "register_all g ins gs = (Inr (), gs')" "db_inv (gs_store gs)"
  shows "list_all (manifest_held (gs_store gs')) (last_of_name ins) \<and> none_promoted (gs_store gs) (gs_store gs') \<and>
    filter (\<lambda>v. srv_Name v \<notin> sin_Name ` set ins) (mcp_servers (gs_store gs')) =
      filter (\<lambda>v. srv_Name v \<notin> sin_Name ` set ins) (mcp_servers (gs_store gs)) \<and>
    (\<forall>v \<in> set (mcp_servers (gs_store gs)). srv_Name v \<notin> sin_Name ` set ins \<longrightarrow>
       same_server (gs_store gs) (gs_store gs') v)"
  using assms(2-3)
proof (induction ins arbitrary: gs)
  case Nil
  then show ?case by (simp add: none_promoted_refl same_server_def)
next
  case (Cons inp ins)
  from Cons.prems(1) obtain s gs1 where reg: "Register g inp gs = (Inr s, gs1)" and rest: "register_all g ins gs1 = (Inr (), gs')"
    by (auto simp: and_then_def split: prod.splits sum.splits)
  obtain d1 where d1: "RegisterServer p inp (gs_store gs) = (Inr s, d1)" and inv1: "db_inv (gs_store gs1)"
    and tb: "mcp_servers (gs_store gs1) = mcp_servers d1" "mcp_tools (gs_store gs1) = mcp_tools d1"
      "server_committees (gs_store gs1) = server_committees d1"
    by (rule Register_registered [OF assms(1) reg Cons.prems(2)])
  have held: "manifest_held (gs_store gs1) i \<longleftrightarrow> manifest_held d1 i" for i by (simp add: manifest_held_def tb)
  have same: "same_server d (gs_store gs1) v \<longleftrightarrow> same_server d d1 v" for d v by (simp add: same_server_def tb)
  note r = registered [OF Cons.prems(2) d1]
  from Cons.IH [OF rest inv1]
  have IH: "list_all (manifest_held (gs_store gs')) (last_of_name ins)" "none_promoted (gs_store gs1) (gs_store gs')"
    "filter (\<lambda>v. srv_Name v \<notin> sin_Name ` set ins) (mcp_servers (gs_store gs')) =
      filter (\<lambda>v. srv_Name v \<notin> sin_Name ` set ins) (mcp_servers (gs_store gs1))"
    "\<And>v. v \<in> set (mcp_servers (gs_store gs1)) \<Longrightarrow> srv_Name v \<notin> sin_Name ` set ins \<Longrightarrow>
      same_server (gs_store gs1) (gs_store gs') v"
    by simp_all
  have "manifest_held (gs_store gs') inp" if "sin_Name inp \<notin> sin_Name ` set ins"
    by (rule same_server_held [of "gs_store gs1"]) (use r(1) held IH(4) that in \<open>simp_all\<close>)
  then have "list_all (manifest_held (gs_store gs')) (last_of_name (inp # ins))" using IH(1) by simp
  moreover have "none_promoted (gs_store gs) (gs_store gs1)" using r(2) by (simp add: none_promoted_def tb)
  from none_promoted_trans [OF this IH(2)] have "none_promoted (gs_store gs) (gs_store gs')" .
  moreover have "filter (\<lambda>v. srv_Name v \<notin> sin_Name ` set (inp # ins)) (mcp_servers (gs_store gs')) =
      filter (\<lambda>v. srv_Name v \<notin> sin_Name ` set (inp # ins)) (mcp_servers (gs_store gs))"
  proof -
    have two: "filter (\<lambda>v. srv_Name v \<notin> sin_Name ` set (inp # ins)) xs =
        filter (\<lambda>v. srv_Name v \<noteq> sin_Name inp) (filter (\<lambda>v. srv_Name v \<notin> sin_Name ` set ins) xs)" for xs
      by (rule sym) (auto intro!: filter_cong)
    have swap: "filter (\<lambda>v. srv_Name v \<noteq> sin_Name inp) (filter (\<lambda>v. srv_Name v \<notin> sin_Name ` set ins) xs) =
        filter (\<lambda>v. srv_Name v \<notin> sin_Name ` set ins) (filter (\<lambda>v. srv_Name v \<noteq> sin_Name inp) xs)" for xs
      by (auto intro: filter_cong simp: conj_commute)
    show ?thesis unfolding two IH(3) unfolding swap tb(1) r(3) ..
  qed
  moreover have "same_server (gs_store gs) (gs_store gs') v"
    if v: "v \<in> set (mcp_servers (gs_store gs))" "srv_Name v \<notin> sin_Name ` set (inp # ins)" for v
  proof (rule same_server_trans)
    show one: "same_server (gs_store gs) (gs_store gs1) v" using r(4) [of v] same v by simp
    then show "same_server (gs_store gs1) (gs_store gs') v" using IH(4) [of v] v by (simp add: same_server_def)
  qed
  ultimately show ?case by blast
qed

text \<open>
  C14. A registry sync does what the manifests say and puts nothing into service: when \<open>gateway sync\<close> exits
  with code 0, every manifest below the repository root was loaded, and the registry holds the last
  manifest of every name exactly: its owner, description, endpoint, transport and authentication, its
  tools and its committee grants.  Every server without a manifest keeps its row, its tools and its
  grants, and no other row appears; and a server that is approved afterwards was approved before, with
  the same switch.
\<close>

theorem sync_registers_all:
  assumes "gateway_main env database gateway readFile yaml lstat (''sync'' # args) d = (Exits 0, gs')"
    and "\<forall>t. gw_store (gateway t) = repo_store p" "db_inv d"
  shows "\<exists>ins. LoadDir readFile yaml lstat (gc_RepoRoot (Load_gateway_config env)) = Inr ins \<and>
    list_all (manifest_held (gs_store gs')) (last_of_name ins) \<and>
    filter (\<lambda>v. srv_Name v \<notin> sin_Name ` set ins) (mcp_servers (gs_store gs')) =
      filter (\<lambda>v. srv_Name v \<notin> sin_Name ` set ins) (mcp_servers d) \<and>
    (\<forall>v \<in> set (mcp_servers d). srv_Name v \<notin> sin_Name ` set ins \<longrightarrow> same_server d (gs_store gs') v) \<and>
    (\<forall>v \<in> set (mcp_servers (gs_store gs')). srv_Lifecycle v = ''approved'' \<longrightarrow>
       (\<exists>v0 \<in> set (mcp_servers d). srv_Name v0 = srv_Name v \<and> srv_Lifecycle v0 = ''approved'' \<and> srv_Enabled v0 = srv_Enabled v))"
proof -
  let ?cfg = "Load_gateway_config env"
  let ?gs = "start_gateway (Some (config_limiter ?cfg)) d" and ?g = "gateway (gc_DownstreamToken ?cfg)"
  from assms(1) obtain ins where ins: "LoadDir readFile yaml lstat (gc_RepoRoot ?cfg) = Inr ins"
    and reg: "register_all ?g ins ?gs = (Inr (), gs')"
    by (auto simp: gateway_main_def Let_def syncRegistry_def split: if_splits option.splits prod.splits sum.splits)
  from register_all_ok [OF assms(2) [rule_format] reg] assms(3) ins none_promotedD [of d "gs_store gs'"] show ?thesis
    by simp
qed

text \<open>Two manifests of one name, told apart by the description: the second one is what the registry holds.\<close>

definition sync_env :: "string \<Rightarrow> string" where
  "sync_env k = (if k = ''DATABASE_URL'' then ''pg'' else [])"

definition sync_files :: "string \<Rightarrow> (bool \<times> string) + fsnode" where
  "sync_files p = Inr (Directory [(''a'', Directory [(''manifest.yaml'', RegFile)]), (''b'', Directory [(''manifest.yaml'', RegFile)])])"

definition sync_yaml :: "string \<Rightarrow> manifestFile res" where
  "sync_yaml b = Inr (demo_manifest\<lparr>mf_Description := b\<rparr>)"

definition sync_run :: "(string \<times> db Gateway) started \<times> db gstate" where
  "sync_run = gateway_main sync_env (\<lambda>u. None) (\<lambda>t. demo_gateway) Inr sync_yaml sync_files [''sync''] empty_db"

definition sync_ins :: "ServerInput list" where
  "sync_ins = (case LoadDir Inr sync_yaml sync_files (gc_RepoRoot (Load_gateway_config sync_env)) of Inr is \<Rightarrow> is | Inl e \<Rightarrow> [])"

theorem sync_registers_all_witness:
  "fst sync_run = Exits 0 \<and> length sync_ins = 2 \<and> length (last_of_name sync_ins) = 1 \<and>
   sin_Description (hd (last_of_name sync_ins)) = ''mcp-servers/b/manifest.yaml'' \<and>
   manifest_held (gs_store (snd sync_run)) (hd (last_of_name sync_ins))"
proof -
  have "case fst sync_run of Exits n \<Rightarrow> n = 0 | Serves a g \<Rightarrow> False" by code_simp
  then have e: "fst sync_run = Exits 0" by (simp split: started.splits)
  have l: "length sync_ins = 2" "length (last_of_name sync_ins) = 1"
    "sin_Description (hd (last_of_name sync_ins)) = ''mcp-servers/b/manifest.yaml''" by code_simp+
  have run: "gateway_main sync_env (\<lambda>u. None) (\<lambda>t. demo_gateway) Inr sync_yaml sync_files (''sync'' # []) empty_db =
      (Exits 0, snd sync_run)" using e unfolding sync_run_def by (metis prod.collapse)
  obtain ins where ins: "LoadDir Inr sync_yaml sync_files (gc_RepoRoot (Load_gateway_config sync_env)) = Inr ins"
    "list_all (manifest_held (gs_store (snd sync_run))) (last_of_name ins)"
    using sync_registers_all [OF run, of demo_pg] db_inv_empty by auto
  then have "sync_ins = ins" by (simp add: sync_ins_def)
  with ins(2) l(2) have "manifest_held (gs_store (snd sync_run)) (hd (last_of_name sync_ins))"
    by (cases "last_of_name ins") simp_all
  with e l show ?thesis by simp
qed

end
