(* ===== verification/Workspace.thy ===== *)
theory Workspace
  imports Http
begin

text \<open>
  The Google Workspace server (mcp-servers/google-workspace): models and validation
  (internal/domain/models.go), the use cases (internal/service/workspace.go), the client
  (internal/clients/google.go), the tools (internal/tools/tools.go) and the configuration
  (internal/config/config.go).  The Google API is the record \<open>API\<close> of the calls the client makes.
\<close>

subsection \<open>Models and validation\<close>

record SheetData =
  sh_SpreadsheetID :: string
  sh_Range :: string
  sh_Rows :: "string list list"

record CalendarEvent =
  ce_ID :: string
  ce_Summary :: string
  ce_Description :: string
  ce_Location :: string
  ce_Start :: string
  ce_End :: string
  ce_Attendees :: "string list"

record EmailDraft =
  em_To :: "string list"
  em_Cc :: "string list"
  em_Subject :: string
  em_Body :: string

record DriveFile =
  df_ID :: string
  df_Name :: string
  df_MimeType :: string
  df_ModifiedTime :: string

definition nonEmpty :: "string list \<Rightarrow> string list" where
  "nonEmpty values = filter (\<lambda>v. TrimSpace v \<noteq> []) values"

definition ValidateEmailDraft :: "EmailDraft \<Rightarrow> goerr option" where
  "ValidateEmailDraft d =
     (if nonEmpty (em_To d) = [] then Some (Errorf ''email must have at least one recipient'' [])
      else if TrimSpace (em_Subject d) = [] then Some (Errorf ''email must have a subject'' [])
      else None)"

definition ValidateEvent :: "CalendarEvent \<Rightarrow> goerr option" where
  "ValidateEvent e =
     (if TrimSpace (ce_Summary e) = [] then Some (Errorf ''event must have a summary'' [])
      else if TrimSpace (ce_Start e) = [] \<or> TrimSpace (ce_End e) = []
      then Some (Errorf ''event must have start and end times (RFC3339)'' [])
      else None)"

subsection \<open>The use cases\<close>

record 's Google =
  go_ReadSheet :: "string \<Rightarrow> string \<Rightarrow> 's \<Rightarrow> (goerr + SheetData) \<times> 's"
  go_ListEvents :: "string \<Rightarrow> string \<Rightarrow> string \<Rightarrow> int \<Rightarrow> 's \<Rightarrow> (goerr + CalendarEvent list) \<times> 's"
  go_CreateEvent :: "string \<Rightarrow> CalendarEvent \<Rightarrow> 's \<Rightarrow> (goerr + CalendarEvent) \<times> 's"
  go_CreateDraft :: "EmailDraft \<Rightarrow> 's \<Rightarrow> (goerr + string) \<times> 's"
  go_SendEmail :: "EmailDraft \<Rightarrow> 's \<Rightarrow> (goerr + string) \<times> 's"
  go_ListDriveFiles :: "string \<Rightarrow> int \<Rightarrow> 's \<Rightarrow> (goerr + DriveFile list) \<times> 's"

definition ws_ReadSheet :: "'s Google \<Rightarrow> string \<Rightarrow> string \<Rightarrow> 's \<Rightarrow> (goerr + SheetData) \<times> 's" where
  "ws_ReadSheet g spreadsheetID rng x =
     (if spreadsheetID = [] then (Inl (Errorf ''spreadsheet_id is required'' []), x) else go_ReadSheet g spreadsheetID rng x)"

definition ws_ListEvents :: "'s Google \<Rightarrow> string \<Rightarrow> string \<Rightarrow> string \<Rightarrow> int \<Rightarrow> 's \<Rightarrow> (goerr + CalendarEvent list) \<times> 's" where
  "ws_ListEvents g calendarID timeMin timeMax mx x =
     go_ListEvents g (if calendarID = [] then ''primary'' else calendarID) timeMin timeMax mx x"

definition ws_CreateEvent :: "'s Google \<Rightarrow> string \<Rightarrow> CalendarEvent \<Rightarrow> 's \<Rightarrow> (goerr + CalendarEvent) \<times> 's" where
  "ws_CreateEvent g calendarID e x =
     (case ValidateEvent e of
        Some err \<Rightarrow> (Inl err, x)
      | None \<Rightarrow> go_CreateEvent g (if calendarID = [] then ''primary'' else calendarID) e x)"

definition ws_DraftEmail :: "'s Google \<Rightarrow> EmailDraft \<Rightarrow> 's \<Rightarrow> (goerr + string) \<times> 's" where
  "ws_DraftEmail g d x = (case ValidateEmailDraft d of Some err \<Rightarrow> (Inl err, x) | None \<Rightarrow> go_CreateDraft g d x)"

definition ws_SendEmail :: "'s Google \<Rightarrow> EmailDraft \<Rightarrow> 's \<Rightarrow> (goerr + string) \<times> 's" where
  "ws_SendEmail g d x = (case ValidateEmailDraft d of Some err \<Rightarrow> (Inl err, x) | None \<Rightarrow> go_SendEmail g d x)"

definition ws_ListDriveFiles :: "'s Google \<Rightarrow> string \<Rightarrow> int \<Rightarrow> 's \<Rightarrow> (goerr + DriveFile list) \<times> 's" where
  "ws_ListDriveFiles g query mx x = go_ListDriveFiles g query mx x"

subsection \<open>The message\<close>

text \<open>\<open>base64.RawURLEncoding\<close>: groups of three bytes, no padding.\<close>

definition b64_alphabet :: string where
  "b64_alphabet = ''ABCDEFGHIJKLMNOPQRSTUVWXYZabcdefghijklmnopqrstuvwxyz0123456789-_''"

definition b64_char :: "nat \<Rightarrow> char" where
  "b64_char i = b64_alphabet ! i"

fun b64_encode :: "nat list \<Rightarrow> string" where
  "b64_encode (a # b # c # bs) =
     (let v = a * 65536 + b * 256 + c
      in map b64_char [v div 262144, v div 4096 mod 64, v div 64 mod 64, v mod 64] @ b64_encode bs)"
| "b64_encode [a, b] =
     (let v = a * 65536 + b * 256 in map b64_char [v div 262144, v div 4096 mod 64, v div 64 mod 64])"
| "b64_encode [a] = (let v = a * 65536 in map b64_char [v div 262144, v div 4096 mod 64])"
| "b64_encode [] = []"

definition EncodeToString :: "string \<Rightarrow> string" where
  "EncodeToString s = b64_encode (map of_char s)"

definition crlf :: string where "crlf = [CHR 0x0D, CHR 0x0A]"

definition rfc822 :: "EmailDraft \<Rightarrow> string" where
  "rfc822 d =
     Sprintf ''To: %s'' [Join (em_To d) '', ''] @ crlf @
     (if em_Cc d \<noteq> [] then Sprintf ''Cc: %s'' [Join (em_Cc d) '', ''] @ crlf else []) @
     Sprintf ''Subject: %s'' [em_Subject d] @ crlf @
     ''MIME-Version: 1.0'' @ crlf @
     ''Content-Type: text/plain; charset='' @ [CHR 0x22] @ ''UTF-8'' @ [CHR 0x22] @ crlf @ crlf @ em_Body d"

definition encodeMessage :: "EmailDraft \<Rightarrow> string" where
  "encodeMessage d = EncodeToString (rfc822 d)"

subsection \<open>The client\<close>

record APIDateTime =
  dt_DateTime :: string
  dt_Date :: string

record APIEvent =
  ae_Id :: string
  ae_Summary :: string
  ae_Description :: string
  ae_Location :: string
  ae_Start :: "APIDateTime option"
  ae_End :: "APIDateTime option"
  ae_Attendees :: "string list"

text \<open>A listing call carries only the parameters that were set.  Cells of a sheet are JSON values.\<close>

record EventsQuery =
  eq_Calendar :: string
  eq_SingleEvents :: bool
  eq_OrderBy :: string
  eq_TimeMin :: "string option"
  eq_TimeMax :: "string option"
  eq_MaxResults :: "int option"

record FilesQuery =
  fq_Fields :: string
  fq_Q :: "string option"
  fq_PageSize :: "int option"

record 's API =
  api_ValuesGet :: "string \<Rightarrow> string \<Rightarrow> 's \<Rightarrow> (goerr + string \<times> json list list) \<times> 's"
  api_EventsList :: "EventsQuery \<Rightarrow> 's \<Rightarrow> (goerr + APIEvent list) \<times> 's"
  api_EventsInsert :: "string \<Rightarrow> APIEvent \<Rightarrow> 's \<Rightarrow> (goerr + APIEvent) \<times> 's"
  api_DraftsCreate :: "string \<Rightarrow> string \<Rightarrow> 's \<Rightarrow> (goerr + string) \<times> 's"
  api_MessagesSend :: "string \<Rightarrow> string \<Rightarrow> 's \<Rightarrow> (goerr + string) \<times> 's"
  api_FilesList :: "FilesQuery \<Rightarrow> 's \<Rightarrow> (goerr + DriveFile list) \<times> 's"

definition eventTime :: "APIDateTime option \<Rightarrow> string" where
  "eventTime t = (case t of None \<Rightarrow> [] | Some t \<Rightarrow> if dt_DateTime t \<noteq> [] then dt_DateTime t else dt_Date t)"

definition toDomainEvent :: "APIEvent \<Rightarrow> CalendarEvent" where
  "toDomainEvent e =
     \<lparr>ce_ID = ae_Id e, ce_Summary = ae_Summary e, ce_Description = ae_Description e, ce_Location = ae_Location e,
      ce_Start = eventTime (ae_Start e), ce_End = eventTime (ae_End e), ce_Attendees = ae_Attendees e\<rparr>"

definition set_if :: "bool \<Rightarrow> 'a \<Rightarrow> 'a option" where
  "set_if b x = (if b then Some x else None)"

definition client_ReadSheet ::
  "(json \<Rightarrow> string) \<Rightarrow> 's API \<Rightarrow> string \<Rightarrow> string \<Rightarrow> 's \<Rightarrow> (goerr + SheetData) \<times> 's" where
  "client_ReadSheet fmt_v api spreadsheetID rng x =
     (case api_ValuesGet api spreadsheetID rng x of
        (Inl e, x) \<Rightarrow> (Inl (Wrap ''clients: read sheet: '' [] e), x)
      | (Inr (rg, values), x) \<Rightarrow>
          (Inr \<lparr>sh_SpreadsheetID = spreadsheetID, sh_Range = rg, sh_Rows = map (map fmt_v) values\<rparr>, x))"

definition client_ListEvents ::
  "'s API \<Rightarrow> string \<Rightarrow> string \<Rightarrow> string \<Rightarrow> int \<Rightarrow> 's \<Rightarrow> (goerr + CalendarEvent list) \<times> 's" where
  "client_ListEvents api calendarID timeMin timeMax mx x =
     (case api_EventsList api
        \<lparr>eq_Calendar = calendarID, eq_SingleEvents = True, eq_OrderBy = ''startTime'',
         eq_TimeMin = set_if (timeMin \<noteq> []) timeMin, eq_TimeMax = set_if (timeMax \<noteq> []) timeMax,
         eq_MaxResults = set_if (mx > 0) mx\<rparr> x of
        (Inl e, x) \<Rightarrow> (Inl (Wrap ''clients: list events: '' [] e), x)
      | (Inr items, x) \<Rightarrow> (Inr (map toDomainEvent items), x))"

definition api_event :: "CalendarEvent \<Rightarrow> APIEvent" where
  "api_event e =
     \<lparr>ae_Id = [], ae_Summary = ce_Summary e, ae_Description = ce_Description e, ae_Location = ce_Location e,
      ae_Start = Some \<lparr>dt_DateTime = ce_Start e, dt_Date = []\<rparr>, ae_End = Some \<lparr>dt_DateTime = ce_End e, dt_Date = []\<rparr>,
      ae_Attendees = ce_Attendees e\<rparr>"

definition client_CreateEvent :: "'s API \<Rightarrow> string \<Rightarrow> CalendarEvent \<Rightarrow> 's \<Rightarrow> (goerr + CalendarEvent) \<times> 's" where
  "client_CreateEvent api calendarID e x =
     (case api_EventsInsert api calendarID (api_event e) x of
        (Inl err, x) \<Rightarrow> (Inl (Wrap ''clients: create event: '' [] err), x)
      | (Inr created, x) \<Rightarrow> (Inr (toDomainEvent created), x))"

definition client_CreateDraft :: "'s API \<Rightarrow> EmailDraft \<Rightarrow> 's \<Rightarrow> (goerr + string) \<times> 's" where
  "client_CreateDraft api d x =
     (case api_DraftsCreate api ''me'' (encodeMessage d) x of
        (Inl e, x) \<Rightarrow> (Inl (Wrap ''clients: create draft: '' [] e), x) | (Inr i, x) \<Rightarrow> (Inr i, x))"

definition client_SendEmail :: "'s API \<Rightarrow> EmailDraft \<Rightarrow> 's \<Rightarrow> (goerr + string) \<times> 's" where
  "client_SendEmail api d x =
     (case api_MessagesSend api ''me'' (encodeMessage d) x of
        (Inl e, x) \<Rightarrow> (Inl (Wrap ''clients: send email: '' [] e), x) | (Inr i, x) \<Rightarrow> (Inr i, x))"

definition client_ListDriveFiles :: "'s API \<Rightarrow> string \<Rightarrow> int \<Rightarrow> 's \<Rightarrow> (goerr + DriveFile list) \<times> 's" where
  "client_ListDriveFiles api query mx x =
     (case api_FilesList api
        \<lparr>fq_Fields = ''files(id,name,mimeType,modifiedTime)'', fq_Q = set_if (query \<noteq> []) query, fq_PageSize = set_if (mx > 0) mx\<rparr> x of
        (Inl e, x) \<Rightarrow> (Inl (Wrap ''clients: list drive files: '' [] e), x) | (Inr files, x) \<Rightarrow> (Inr files, x))"

definition google_client :: "(json \<Rightarrow> string) \<Rightarrow> 's API \<Rightarrow> 's Google" where
  "google_client fmt_v api =
     \<lparr>go_ReadSheet = client_ReadSheet fmt_v api, go_ListEvents = client_ListEvents api,
      go_CreateEvent = client_CreateEvent api, go_CreateDraft = client_CreateDraft api,
      go_SendEmail = client_SendEmail api, go_ListDriveFiles = client_ListDriveFiles api\<rparr>"

subsection \<open>The tools\<close>

record sheetsReadInput =
  sr_SpreadsheetID :: string
  sr_Range :: string

record calendarListInput =
  cl_CalendarID :: string
  cl_TimeMin :: string
  cl_TimeMax :: string
  cl_Max :: int

record calendarCreateInput =
  cc_CalendarID :: string
  cc_Summary :: string
  cc_Description :: string
  cc_Location :: string
  cc_Start :: string
  cc_End :: string
  cc_Attendees :: "string list"

record emailInput =
  ei_To :: "string list"
  ei_Cc :: "string list"
  ei_Subject :: string
  ei_Body :: string

record driveReadInput =
  dr_Query :: string
  dr_Max :: int

datatype workspace_input = SheetsRead sheetsReadInput | CalendarList calendarListInput
  | CalendarCreate calendarCreateInput | GmailDraft emailInput | GmailSend emailInput | DriveRead driveReadInput

datatype workspace_output = SheetOut SheetData | EventsOut "CalendarEvent list" | EventOut CalendarEvent
  | IdOut string | FilesOut "DriveFile list"

text \<open>The tools by name, and the handlers \<open>Register\<close> gives them, by the input each takes.\<close>

fun workspace_tool :: "workspace_input \<Rightarrow> string" where
  "workspace_tool (SheetsRead i) = ''sheets_read''"
| "workspace_tool (CalendarList i) = ''calendar_list''"
| "workspace_tool (CalendarCreate i) = ''calendar_create_event''"
| "workspace_tool (GmailDraft i) = ''gmail_draft''"
| "workspace_tool (GmailSend i) = ''gmail_send''"
| "workspace_tool (DriveRead i) = ''drive_read''"

definition input_event :: "calendarCreateInput \<Rightarrow> CalendarEvent" where
  "input_event i = \<lparr>ce_ID = [], ce_Summary = cc_Summary i, ce_Description = cc_Description i, ce_Location = cc_Location i,
     ce_Start = cc_Start i, ce_End = cc_End i, ce_Attendees = cc_Attendees i\<rparr>"

definition input_draft :: "emailInput \<Rightarrow> EmailDraft" where
  "input_draft i = \<lparr>em_To = ei_To i, em_Cc = ei_Cc i, em_Subject = ei_Subject i, em_Body = ei_Body i\<rparr>"

definition as_output :: "('a \<Rightarrow> workspace_output) \<Rightarrow> (goerr + 'a) \<times> 's \<Rightarrow> (goerr + workspace_output) \<times> 's" where
  "as_output f r = (map_sum (\<lambda>e. e) f (fst r), snd r)"

fun workspace_handle :: "'s Google \<Rightarrow> workspace_input \<Rightarrow> 's \<Rightarrow> (goerr + workspace_output) \<times> 's" where
  "workspace_handle g (SheetsRead i) s = as_output SheetOut (ws_ReadSheet g (sr_SpreadsheetID i) (sr_Range i) s)"
| "workspace_handle g (CalendarList i) s =
     as_output EventsOut (ws_ListEvents g (cl_CalendarID i) (cl_TimeMin i) (cl_TimeMax i) (cl_Max i) s)"
| "workspace_handle g (CalendarCreate i) s = as_output EventOut (ws_CreateEvent g (cc_CalendarID i) (input_event i) s)"
| "workspace_handle g (GmailDraft i) s = as_output IdOut (ws_DraftEmail g (input_draft i) s)"
| "workspace_handle g (GmailSend i) s = as_output IdOut (ws_SendEmail g (input_draft i) s)"
| "workspace_handle g (DriveRead i) s = as_output FilesOut (ws_ListDriveFiles g (dr_Query i) (dr_Max i) s)"

subsection \<open>Configuration\<close>

record WorkspaceConfig =
  wc_Port :: string
  wc_LogLevel :: string
  wc_AuthToken :: string
  wc_GoogleSAJSON :: string
  wc_DelegatedSubject :: string

definition Load_workspace_config :: "(string \<Rightarrow> string) \<Rightarrow> (string \<Rightarrow> goerr + string) \<Rightarrow> goerr + WorkspaceConfig" where
  "Load_workspace_config env read_file =
     (let cfg = \<lparr>wc_Port = firstNonEmpty [env ''PORT'', env ''MCP_PORT'', ''8080''],
            wc_LogLevel = firstNonEmpty [env ''MCP_LOG_LEVEL'', ''info''], wc_AuthToken = env ''MCP_AUTH_TOKEN'',
            wc_GoogleSAJSON = [], wc_DelegatedSubject = env ''GOOGLE_DELEGATED_SUBJECT''\<rparr>
      in if env ''GOOGLE_SA_JSON'' \<noteq> [] then Inr (cfg\<lparr>wc_GoogleSAJSON := env ''GOOGLE_SA_JSON''\<rparr>)
         else if env ''GOOGLE_SA_JSON_FILE'' \<noteq> [] then
           (case read_file (env ''GOOGLE_SA_JSON_FILE'') of
              Inl e \<Rightarrow> Inl (Wrap ''config: read GOOGLE_SA_JSON_FILE: '' [] e)
            | Inr b \<Rightarrow> Inr (cfg\<lparr>wc_GoogleSAJSON := b\<rparr>))
         else Inr cfg)"

definition HasGoogleCredentials :: "WorkspaceConfig \<Rightarrow> bool" where
  "HasGoogleCredentials c \<longleftrightarrow> length (wc_GoogleSAJSON c) > 0 \<and> wc_DelegatedSubject c \<noteq> []"

text \<open>
  What \<open>main\<close> does before it serves: an error ends the process.  \<open>new_google\<close> builds the API's services
  from the key and the delegated subject.
\<close>

definition workspace_start ::
  "(string \<Rightarrow> string) \<Rightarrow> (string \<Rightarrow> goerr + string) \<Rightarrow> (string \<Rightarrow> string \<Rightarrow> goerr + 's API) \<Rightarrow> goerr + WorkspaceConfig \<times> 's API" where
  "workspace_start env read_file new_google =
     (case Load_workspace_config env read_file of
        Inl e \<Rightarrow> Inl e
      | Inr cfg \<Rightarrow>
          (if \<not> HasGoogleCredentials cfg
           then Inl (Errorf ''google-workspace: GOOGLE_SA_JSON(_FILE) and GOOGLE_DELEGATED_SUBJECT are required'' [])
           else (case new_google (wc_GoogleSAJSON cfg) (wc_DelegatedSubject cfg) of
                   Inl e \<Rightarrow> Inl e | Inr api \<Rightarrow> Inr (cfg, api))))"

subsection \<open>Decoding\<close>

text \<open>The inverse encodings, as a receiver reads the message.\<close>

definition b64_index :: "char \<Rightarrow> nat" where
  "b64_index c = length (takeWhile (\<lambda>x. x \<noteq> c) b64_alphabet)"

fun b64_bytes :: "nat list \<Rightarrow> nat list" where
  "b64_bytes (a # b # c # d # ds) =
     (let v = a * 262144 + b * 4096 + c * 64 + d in [v div 65536, v div 256 mod 256, v mod 256] @ b64_bytes ds)"
| "b64_bytes [a, b, c] = (let v = a * 262144 + b * 4096 + c * 64 in [v div 65536, v div 256 mod 256])"
| "b64_bytes [a, b] = (let v = a * 262144 + b * 4096 in [v div 65536])"
| "b64_bytes _ = []"

definition DecodeString :: "string \<Rightarrow> string" where
  "DecodeString s = map char_of (b64_bytes (map b64_index s))"

fun cut_crlf :: "string \<Rightarrow> (string \<times> string) option" where
  "cut_crlf (a # b # cs) =
     (if a = CHR 0x0D \<and> b = CHR 0x0A then Some ([], cs) else map_option (\<lambda>(l, r). (a # l, r)) (cut_crlf (b # cs)))"
| "cut_crlf _ = None"

lemma cut_crlf_shorter: "cut_crlf s = Some (l, r) \<Longrightarrow> length r < length s"
  by (induction s arbitrary: l rule: cut_crlf.induct) (fastforce split: if_splits)+

text \<open>The header lines up to the first empty line, and the body.\<close>

function read_message :: "string \<Rightarrow> string list \<times> string" where
  "read_message s =
     (case cut_crlf s of
        None \<Rightarrow> ([], s)
      | Some (l, r) \<Rightarrow> if l = [] then ([], r) else (let (hs, body) = read_message r in (l # hs, body)))"
  by auto
termination by (relation "measure length") (auto dest: cut_crlf_shorter)

declare read_message.simps [simp del]

lemma b64_index_char: "i < 64 \<Longrightarrow> b64_index (b64_char i) = i"
proof -
  have "list_all (\<lambda>i. b64_index (b64_char i) = i) [0..<64]" by code_simp
  then show "i < 64 \<Longrightarrow> ?thesis" by (simp add: list_all_iff)
qed

lemma b64_split:
  fixes v :: nat
  shows "v div 262144 * 262144 + v div 4096 mod 64 * 4096 + v div 64 mod 64 * 64 + v mod 64 = v"
proof -
  have "v div 64 div 64 = v div 4096" "v div 4096 div 64 = v div 262144" by (simp_all add: div_mult2_eq [symmetric])
  then show ?thesis
    using div_mult_mod_eq [of v 64] div_mult_mod_eq [of "v div 64" 64] div_mult_mod_eq [of "v div 4096" 64] by linarith
qed

lemma b64_groups:
  fixes a b c :: nat
  assumes "a < 256" "b < 256" "c < 256"
  shows "(a * 65536 + b * 256 + c) div 262144 < 64"
    "(a * 65536 + b * 256 + c) div 65536 = a" "(a * 65536 + b * 256 + c) div 256 mod 256 = b"
    "(a * 65536 + b * 256 + c) mod 256 = c"
proof -
  have low: "(b * 256 + c) div 65536 = 0" "c div 256 = 0" using assms by simp_all
  show "(a * 65536 + b * 256 + c) div 262144 < 64" using assms by (intro less_mult_imp_div_less) linarith
  have "a * 65536 + b * 256 + c = (b * 256 + c) + a * 65536" by simp
  then show "(a * 65536 + b * 256 + c) div 65536 = a" using div_mult_self1 [of 65536 "b * 256 + c" a] low(1) by simp
  have v: "a * 65536 + b * 256 + c = c + (a * 256 + b) * 256" by simp
  show "(a * 65536 + b * 256 + c) div 256 mod 256 = b"
    unfolding v using assms low div_mult_self1 [of 256 c "a * 256 + b"] by (simp del: div_mult_self1)
  show "(a * 65536 + b * 256 + c) mod 256 = c"
    unfolding v using assms mod_mult_self1 [of c "a * 256 + b" 256] by (simp del: mod_mult_self1)
qed

lemma b64_decode_encode: "list_all (\<lambda>b. b < 256) bs \<Longrightarrow> b64_bytes (map b64_index (b64_encode bs)) = bs"
proof (induction bs rule: b64_encode.induct)
  case (1 a b c bs)
  then show ?case
    using b64_groups [of a b c] b64_split [of "a * 65536 + b * 256 + c"] by (simp add: b64_index_char Let_def)
next
  case (2 a b)
  have "a * 65536 + b * 256 = 64 * (a * 1024 + b * 4)" by simp
  then have "(a * 65536 + b * 256) mod 64 = 0" by (metis mod_mult_self1_is_0)
  with 2 show ?case
    using b64_groups [of a b 0] b64_split [of "a * 65536 + b * 256"] by (simp add: b64_index_char Let_def)
next
  case (3 a)
  have "a * 65536 = 64 * (a * 1024)" "a * 1024 mod 64 = 0" by simp_all
  then have "a * 65536 mod 64 = 0" "a * 65536 div 64 mod 64 = 0"
    by (metis mod_mult_self1_is_0, metis nonzero_mult_div_cancel_left zero_neq_numeral)
  with 3 show ?case
    using b64_groups [of a 0 0] b64_split [of "a * 65536"] by (simp add: b64_index_char Let_def)
qed simp

lemma DecodeString_Encode: "DecodeString (EncodeToString s) = s"
proof -
  have "list_all (\<lambda>b. b < 256) (map of_char s :: nat list)" by (simp add: list_all_iff of_char_def) 
  then show ?thesis by (simp add: DecodeString_def EncodeToString_def b64_decode_encode comp_def)
qed

lemma cut_crlf_append: "CHR 0x0D \<notin> set l \<Longrightarrow> cut_crlf (l @ crlf @ r) = Some (l, r)"
proof (induction l)
  case (Cons a l)
  then show ?case by (cases "l @ crlf @ r") (auto simp: crlf_def)
qed (simp add: crlf_def)

lemma read_message_line:
  "CHR 0x0D \<notin> set l \<Longrightarrow> l \<noteq> [] \<Longrightarrow> read_message (l @ crlf @ r) = (let (hs, body) = read_message r in (l # hs, body))"
  by (subst read_message.simps) (simp add: cut_crlf_append)

lemma read_message_end: "read_message (crlf @ r) = ([], r)"
  using cut_crlf_append [of "[]" r] by (subst read_message.simps) simp

subsection \<open>What is sent\<close>

definition headers :: "EmailDraft \<Rightarrow> string list" where
  "headers d = [''To: '' @ Join (em_To d) '', ''] @ (if em_Cc d \<noteq> [] then [''Cc: '' @ Join (em_Cc d) '', ''] else []) @
     [''Subject: '' @ em_Subject d, ''MIME-Version: 1.0'', ''Content-Type: text/plain; charset='' @ [CHR 0x22] @ ''UTF-8'' @ [CHR 0x22]]"

lemma no_cr_Join: "\<forall>x\<in>set xs. CHR 0x0D \<notin> set x \<Longrightarrow> CHR 0x0D \<notin> set (Join xs '', '')"
  using set_Join [of xs "'', ''"] by auto

lemma rfc822_lines: "rfc822 d = concat (map (\<lambda>h. h @ crlf) (headers d)) @ crlf @ em_Body d"
  by (simp add: rfc822_def headers_def)

lemma read_headers:
  "\<forall>h\<in>set hs. h \<noteq> [] \<and> CHR 0x0D \<notin> set h \<Longrightarrow> read_message (concat (map (\<lambda>h. h @ crlf) hs) @ crlf @ b) = (hs, b)"
proof (induction hs)
  case Nil
  show ?case using read_message_end by simp
next
  case (Cons h hs)
  then show ?case using read_message_line [of h] by simp
qed

text \<open>
  C37. A message arrives as written: for a draft whose recipients and subject contain no carriage return,
  the receiver that decodes the raw message of the API call reads exactly the To, Cc and Subject lines of
  the draft, the two MIME lines, and the body, byte for byte.
\<close>

theorem message_round_trip:
  assumes "\<forall>x\<in>set (em_To d) \<union> set (em_Cc d). CHR 0x0D \<notin> set x" "CHR 0x0D \<notin> set (em_Subject d)"
  shows "read_message (DecodeString (encodeMessage d)) = (headers d, em_Body d)"
proof -
  have "CHR 0x0D \<notin> set (Join (em_To d) '', '')" "CHR 0x0D \<notin> set (Join (em_Cc d) '', '')"
    using assms(1) by (simp_all add: no_cr_Join)
  with assms(2) have "\<forall>h\<in>set (headers d). h \<noteq> [] \<and> CHR 0x0D \<notin> set h" by (simp add: headers_def)
  then show ?thesis by (simp add: encodeMessage_def DecodeString_Encode rfc822_lines read_headers)
qed

definition demo_mail :: "string \<Rightarrow> EmailDraft" where
  "demo_mail subject = \<lparr>em_To = [''a@cmu.edu'', ''b@cmu.edu''], em_Cc = [], em_Subject = subject, em_Body = ''Hi'' @ crlf @ ''all''\<rparr>"

theorem message_round_trip_witness:
  "read_message (DecodeString (encodeMessage (demo_mail ''Refund''))) =
     ([''To: a@cmu.edu, b@cmu.edu'', ''Subject: Refund'', ''MIME-Version: 1.0'',
       ''Content-Type: text/plain; charset='' @ [CHR 0x22] @ ''UTF-8'' @ [CHR 0x22]], ''Hi'' @ crlf @ ''all'')"
  using message_round_trip [of "demo_mail ''Refund''"] by (simp add: demo_mail_def headers_def)

text \<open>A subject with a line break adds a header of its own: here a blind copy, in a draft that validates.\<close>

lemma subject_injects_header:
  "ValidateEmailDraft (demo_mail (''Refund'' @ crlf @ ''Bcc: eve@example.com'')) = None \<and>
   ''Bcc: eve@example.com'' \<in> set (fst (read_message (rfc822 (demo_mail (''Refund'' @ crlf @ ''Bcc: eve@example.com'')))))"
  by code_simp

subsection \<open>What reaches Google\<close>

text \<open>The API with a log of the calls that change something.\<close>

datatype api_write = Inserted string APIEvent | Drafted string string | Sent string string

definition logged_api :: "'s API \<Rightarrow> (api_write list \<times> 's) API" where
  "logged_api api =
     \<lparr>api_ValuesGet = (\<lambda>i rg (l, x). let (v, x) = api_ValuesGet api i rg x in (v, (l, x))),
      api_EventsList = (\<lambda>q (l, x). let (v, x) = api_EventsList api q x in (v, (l, x))),
      api_EventsInsert = (\<lambda>c e (l, x). let (v, x) = api_EventsInsert api c e x in (v, (l @ [Inserted c e], x))),
      api_DraftsCreate = (\<lambda>u m (l, x). let (v, x) = api_DraftsCreate api u m x in (v, (l @ [Drafted u m], x))),
      api_MessagesSend = (\<lambda>u m (l, x). let (v, x) = api_MessagesSend api u m x in (v, (l @ [Sent u m], x))),
      api_FilesList = (\<lambda>q (l, x). let (v, x) = api_FilesList api q x in (v, (l, x)))\<rparr>"

definition writes_of :: "'a \<times> api_write list \<times> 's \<Rightarrow> api_write list" where
  "writes_of r = fst (snd r)"

lemmas client_defs = client_ReadSheet_def client_ListEvents_def client_CreateEvent_def client_CreateDraft_def
  client_SendEmail_def client_ListDriveFiles_def google_client_def logged_api_def writes_of_def

text \<open>What each tool may add to the log.\<close>

fun workspace_log :: "workspace_input \<Rightarrow> api_write list" where
  "workspace_log (CalendarCreate i) =
     (if ValidateEvent (input_event i) = None
      then [Inserted (if cc_CalendarID i = [] then ''primary'' else cc_CalendarID i) (api_event (input_event i))] else [])"
| "workspace_log (GmailDraft i) =
     (if ValidateEmailDraft (input_draft i) = None then [Drafted ''me'' (encodeMessage (input_draft i))] else [])"
| "workspace_log (GmailSend i) =
     (if ValidateEmailDraft (input_draft i) = None then [Sent ''me'' (encodeMessage (input_draft i))] else [])"
| "workspace_log _ = []"

lemma workspace_handle_log:
  "fst (snd (workspace_handle (google_client fmt_v (logged_api api)) i (l, x))) = l @ workspace_log i"
  by (cases i) (auto simp: as_output_def ws_ReadSheet_def ws_ListEvents_def ws_CreateEvent_def ws_DraftEmail_def
      ws_SendEmail_def ws_ListDriveFiles_def client_defs split: prod.splits sum.splits option.splits)

text \<open>
  C38. Each tool of the server writes at most what its name says, to Google, whatever the API answers: the
  read tools write nothing; creating an event inserts exactly that event, when it validates; drafting an
  email creates one draft and never sends; only sending sends, one message, and only a draft with a
  recipient and a subject.
\<close>

theorem workspace_writes:
  "writes_of (workspace_handle (google_client fmt_v (logged_api api)) (SheetsRead i1) ([], x)) = [] \<and>
   writes_of (workspace_handle (google_client fmt_v (logged_api api)) (CalendarList i2) ([], x)) = [] \<and>
   writes_of (workspace_handle (google_client fmt_v (logged_api api)) (DriveRead i3) ([], x)) = [] \<and>
   writes_of (workspace_handle (google_client fmt_v (logged_api api)) (CalendarCreate i4) ([], x)) =
     (if TrimSpace (cc_Summary i4) \<noteq> [] \<and> TrimSpace (cc_Start i4) \<noteq> [] \<and> TrimSpace (cc_End i4) \<noteq> []
      then [Inserted (if cc_CalendarID i4 = [] then ''primary'' else cc_CalendarID i4) (api_event (input_event i4))] else []) \<and>
   writes_of (workspace_handle (google_client fmt_v (logged_api api)) (GmailDraft i5) ([], x)) =
     (if nonEmpty (ei_To i5) \<noteq> [] \<and> TrimSpace (ei_Subject i5) \<noteq> [] then [Drafted ''me'' (encodeMessage (input_draft i5))] else []) \<and>
   writes_of (workspace_handle (google_client fmt_v (logged_api api)) (GmailSend i6) ([], x)) =
     (if nonEmpty (ei_To i6) \<noteq> [] \<and> TrimSpace (ei_Subject i6) \<noteq> [] then [Sent ''me'' (encodeMessage (input_draft i6))] else [])"
  unfolding writes_of_def workspace_handle_log
  by (simp add: ValidateEvent_def ValidateEmailDraft_def input_event_def input_draft_def)

text \<open>A created event comes back as the caller described it when the calendar stores what it is given.\<close>

lemma created_event_round_trip:
  assumes "api_EventsInsert api c (api_event e) x = (Inr ((api_event e)\<lparr>ae_Id := i\<rparr>), x')" "c \<noteq> []" "ValidateEvent e = None"
  shows "ws_CreateEvent (google_client fmt_v api) c e x = (Inr (e\<lparr>ce_ID := i\<rparr>), x')"
proof -
  have "ce_Start e \<noteq> []" "ce_End e \<noteq> []"
    using assms(3) by (auto simp: ValidateEvent_def split: if_splits)
  with assms show ?thesis
    by (simp add: ws_CreateEvent_def client_CreateEvent_def google_client_def toDomainEvent_def eventTime_def api_event_def)
qed

end
