(* ===== verification/Finance.thy ===== *)
theory Finance
  imports Http Float64
begin

text \<open>
  The finance rules server (mcp-servers/finance-rules): the request, the standards and their loading
  (internal/domain/models.go), the checks and the verdict (internal/domain/rules.go), the evaluator
  (internal/service/evaluate.go) and the configuration (internal/config/config.go).  Amounts are finite
  \<open>float64\<close> values; \<open>fmt2\<close> prints one with two decimals and \<open>parse_float\<close> reads a JSON number.
\<close>

datatype Verdict = Pass | Fail | Review

record ReimbursementRequest =
  rr_RequestID :: string
  rr_SubmitterEmail :: string
  rr_AmountUSD :: rat
  rr_Category :: string
  rr_HasItemizedReceipt :: bool
  rr_EventAssociated :: bool
  rr_SubmittedDaysAfterPurchase :: int

record Standards =
  sd_EligibleCategories :: "string list"
  sd_CategoryCapsUSD :: "string \<rightharpoonup> rat"
  sd_MaxDaysToSubmit :: int
  sd_RequireReceipt :: bool
  sd_RequireEventAssoc :: bool
  sd_ReviewBand :: rat

record RuleResult =
  ru_Standard :: string
  ru_Passed :: bool
  ru_Detail :: string

record Evaluation =
  ev_RequestID :: string
  ev_Verdict :: Verdict
  ev_FailedStandards :: "RuleResult list"
  ev_Notes :: "string list"

subsection \<open>Loading the standards\<close>

text \<open>Decoding numbers, and objects into a map: an entry is set to zero by \<open>null\<close>, the map to nil.\<close>

fun json_float :: "(string \<Rightarrow> rat option) \<Rightarrow> json \<Rightarrow> rat option" where
  "json_float parse_float (JNum s) = parse_float s"
| "json_float parse_float _ = None"

fun put_caps :: "(string \<Rightarrow> rat option) \<Rightarrow> (string \<times> json) list \<Rightarrow> (string \<rightharpoonup> rat) \<Rightarrow> (string \<rightharpoonup> rat) option" where
  "put_caps parse_float [] m = Some m"
| "put_caps parse_float ((k, v) # kvs) m =
     (case (if v = JNull then Some 0 else json_float parse_float v) of
        None \<Rightarrow> None | Some x \<Rightarrow> put_caps parse_float kvs (m(k \<mapsto> x)))"

definition caps_field ::
  "(string \<Rightarrow> string) \<Rightarrow> (string \<Rightarrow> rat option) \<Rightarrow> string \<Rightarrow> (string \<times> json) list \<Rightarrow> (string \<rightharpoonup> rat) option" where
  "caps_field cf parse_float name kvs =
     foldl (\<lambda>a (k, v). if field_matches cf name k
              then (case a of None \<Rightarrow> None
                    | Some m \<Rightarrow> (case v of JNull \<Rightarrow> Some Map.empty | JObj es \<Rightarrow> put_caps parse_float es m | _ \<Rightarrow> None)) else a)
       (Some Map.empty) kvs"

definition decode_standards :: "(string \<Rightarrow> string) \<Rightarrow> (string \<Rightarrow> rat option) \<Rightarrow> raw \<Rightarrow> Standards option" where
  "decode_standards cf parse_float data =
     (case body_object data of
        None \<Rightarrow> None
      | Some kvs \<Rightarrow>
          (case (strs_field cf ''eligible_categories'' kvs, caps_field cf parse_float ''category_caps_usd'' kvs,
                 int_field cf ''max_days_to_submit'' kvs, bool_field cf ''require_receipt'' kvs,
                 bool_field cf ''require_event_assoc'' kvs, decode_field cf ''review_band'' (json_float parse_float) 0 kvs) of
             (Some cs, Some caps, Some days, Some rc, Some ev, Some band) \<Rightarrow>
               Some \<lparr>sd_EligibleCategories = cs, sd_CategoryCapsUSD = caps, sd_MaxDaysToSubmit = days,
                     sd_RequireReceipt = rc, sd_RequireEventAssoc = ev, sd_ReviewBand = band\<rparr>
           | _ \<Rightarrow> None))"

definition LoadStandards :: "(string \<Rightarrow> string) \<Rightarrow> (string \<Rightarrow> rat option) \<Rightarrow> raw \<Rightarrow> goerr + Standards" where
  "LoadStandards cf parse_float data =
     (case decode_standards cf parse_float data of
        None \<Rightarrow> Inl (Wrap ''domain: parse standards: '' [] (External ''invalid JSON''))
      | Some s \<Rightarrow>
          (if sd_EligibleCategories s = [] then Inl (Errorf ''domain: standards must list eligible_categories'' [])
           else if sd_MaxDaysToSubmit s \<le> 0 then Inl (Errorf ''domain: standards max_days_to_submit must be positive'' [])
           else if sd_ReviewBand s < 0 \<or> sd_ReviewBand s \<ge> 1
           then Inl (Errorf ''domain: standards review_band must be in [0, 1)'' [])
           else Inr s))"

subsection \<open>The checks\<close>

type_synonym fmt2 = "rat \<Rightarrow> string"

type_synonym check = "ReimbursementRequest \<Rightarrow> Standards \<Rightarrow> RuleResult"

definition result :: "string \<Rightarrow> bool \<Rightarrow> string \<Rightarrow> RuleResult" where
  "result standard passed detail = \<lparr>ru_Standard = standard, ru_Passed = passed, ru_Detail = detail\<rparr>"

definition checkCategoryEligible :: check where
  "checkCategoryEligible r s =
     (if rr_Category r \<in> set (sd_EligibleCategories s) then result ''eligible_category'' True ''ok''
      else result ''eligible_category'' False (Sprintf ''category %q is not an eligible expense type'' [rr_Category r]))"

definition checkReceipt :: check where
  "checkReceipt r s =
     (let passed = (\<not> sd_RequireReceipt s \<or> rr_HasItemizedReceipt r)
      in result ''itemized_receipt'' passed (if \<not> passed then ''missing itemized receipt'' else ''ok''))"

definition checkEventAssociation :: check where
  "checkEventAssociation r s =
     (let passed = (\<not> sd_RequireEventAssoc s \<or> rr_EventAssociated r)
      in result ''event_association'' passed (if \<not> passed then ''not associated with a ScottyLabs event'' else ''ok''))"

definition checkDeadline :: check where
  "checkDeadline r s =
     (let passed = (rr_SubmittedDaysAfterPurchase r \<le> sd_MaxDaysToSubmit s)
      in result ''submission_deadline'' passed
           (if \<not> passed
            then Sprintf ''submitted %d days after purchase (max %d)''
                   [Itoa (rr_SubmittedDaysAfterPurchase r), Itoa (sd_MaxDaysToSubmit s)]
            else ''ok''))"

definition checkCategoryCap :: "fmt2 \<Rightarrow> check" where
  "checkCategoryCap fmt2 r s =
     (case sd_CategoryCapsUSD s (rr_Category r) of
        None \<Rightarrow> result ''category_cap'' True ''no cap for category''
      | Some limit \<Rightarrow>
          (if rr_AmountUSD r \<le> limit then result ''category_cap'' True ''ok''
           else result ''category_cap'' False
             (''amount $'' @ fmt2 (rr_AmountUSD r) @ '' exceeds the $'' @ fmt2 limit @ '' cap for '' @ rr_Category r)))"

definition checks :: "fmt2 \<Rightarrow> check list" where
  "checks fmt2 = [checkCategoryEligible, checkReceipt, checkEventAssociation, checkDeadline, checkCategoryCap fmt2]"

definition isBorderline :: "ReimbursementRequest \<Rightarrow> Standards \<Rightarrow> bool" where
  "isBorderline r s =
     (case sd_CategoryCapsUSD s (rr_Category r) of
        None \<Rightarrow> False
      | Some limit \<Rightarrow> rr_AmountUSD r \<ge> f64 (limit * f64 (1 - sd_ReviewBand s)) \<and> rr_AmountUSD r \<le> limit)"

fun failed_checks :: "check list \<Rightarrow> ReimbursementRequest \<Rightarrow> Standards \<Rightarrow> RuleResult list" where
  "failed_checks [] r s = []"
| "failed_checks (check # cs) r s = (if \<not> ru_Passed (check r s) then [check r s] else []) @ failed_checks cs r s"

definition EvaluateReimbursement :: "fmt2 \<Rightarrow> ReimbursementRequest \<Rightarrow> Standards \<Rightarrow> Evaluation" where
  "EvaluateReimbursement fmt2 r s =
     (let failed = failed_checks (checks fmt2) r s
      in if failed \<noteq> [] then \<lparr>ev_RequestID = rr_RequestID r, ev_Verdict = Fail, ev_FailedStandards = failed, ev_Notes = []\<rparr>
         else if isBorderline r s
         then \<lparr>ev_RequestID = rr_RequestID r, ev_Verdict = Review, ev_FailedStandards = [],
               ev_Notes = [''amount is within the review band of the category cap; needs a human decision'']\<rparr>
         else \<lparr>ev_RequestID = rr_RequestID r, ev_Verdict = Pass, ev_FailedStandards = [], ev_Notes = []\<rparr>)"

record Evaluator =
  evl_standards :: Standards

definition Evaluate :: "fmt2 \<Rightarrow> Evaluator \<Rightarrow> ReimbursementRequest \<Rightarrow> Evaluation" where
  "Evaluate fmt2 e r = EvaluateReimbursement fmt2 r (evl_standards e)"

subsection \<open>The service\<close>

record FinanceConfig =
  fc_Port :: string
  fc_LogLevel :: string
  fc_AuthToken :: string
  fc_StandardsFile :: string

definition Load_finance_config :: "(string \<Rightarrow> string) \<Rightarrow> FinanceConfig" where
  "Load_finance_config env =
     \<lparr>fc_Port = firstNonEmpty [env ''PORT'', env ''MCP_PORT'', ''8080''],
      fc_LogLevel = firstNonEmpty [env ''MCP_LOG_LEVEL'', ''info''],
      fc_AuthToken = env ''MCP_AUTH_TOKEN'', fc_StandardsFile = env ''FINANCE_STANDARDS_FILE''\<rparr>"

text \<open>The standards of the process: the embedded document, or the file that overrides it; an error ends it.\<close>

definition finance_start ::
  "(string \<Rightarrow> string) \<Rightarrow> (string \<Rightarrow> rat option) \<Rightarrow> raw \<Rightarrow> (string \<Rightarrow> goerr + raw) \<Rightarrow> FinanceConfig \<Rightarrow> goerr + Evaluator" where
  "finance_start cf parse_float embedded read_file c =
     (case (if fc_StandardsFile c \<noteq> [] then read_file (fc_StandardsFile c) else Inr embedded) of
        Inl e \<Rightarrow> Inl e
      | Inr raw \<Rightarrow>
          (case LoadStandards cf parse_float raw of
             Inl e \<Rightarrow> Inl e | Inr s \<Rightarrow> Inr \<lparr>evl_standards = s\<rparr>))"

subsection \<open>What a verdict means\<close>

text \<open>The standards as plain requirements, by name and in the order of the report.\<close>

definition requirements :: "ReimbursementRequest \<Rightarrow> Standards \<Rightarrow> (string \<times> bool) list" where
  "requirements r s =
     [(''eligible_category'', rr_Category r \<in> set (sd_EligibleCategories s)),
      (''itemized_receipt'', sd_RequireReceipt s \<longrightarrow> rr_HasItemizedReceipt r),
      (''event_association'', sd_RequireEventAssoc s \<longrightarrow> rr_EventAssociated r),
      (''submission_deadline'', rr_SubmittedDaysAfterPurchase r \<le> sd_MaxDaysToSubmit s),
      (''category_cap'', case sd_CategoryCapsUSD s (rr_Category r) of None \<Rightarrow> True | Some c \<Rightarrow> rr_AmountUSD r \<le> c)]"

definition meets :: "ReimbursementRequest \<Rightarrow> Standards \<Rightarrow> bool" where
  "meets r s \<longleftrightarrow> list_all snd (requirements r s)"

lemma failed_checks_filter: "failed_checks cs r s = filter (\<lambda>x. \<not> ru_Passed x) (map (\<lambda>c. c r s) cs)"
  by (induction cs) simp_all

text \<open>Asking for more never improves the verdict.\<close>

fun severity :: "Verdict \<Rightarrow> nat" where
  "severity Pass = 0" | "severity Review = 1" | "severity Fail = 2"

lemma meets_antimono:
  assumes "rr_AmountUSD r \<le> a" "meets (r\<lparr>rr_AmountUSD := a\<rparr>) s"
  shows "meets r s"
  using assms by (auto simp: meets_def requirements_def split: option.splits)

lemma band_below_cap:
  assumes "0 \<le> b" "0 \<le> c" "f64 c = c"
  shows "f64 (c * f64 (1 - b)) \<le> c"
proof -
  have "f64 (1 - b) \<le> 1" using f64.rnd_le_int [of "1 - b" 1] assms(1) by simp
  then have "c * f64 (1 - b) \<le> c" using assms(2) by (simp add: mult_left_le)
  from f64.rnd_mono [OF this] show ?thesis by (simp add: assms(3))
qed

text \<open>
  What a server of rules promises: its checks, in order, decide the requirements, a failing one says why,
  and the evaluation is the one the checks and the review band give.
\<close>

locale rule_set =
  fixes rules :: "check list"
    and borderline :: "ReimbursementRequest \<Rightarrow> Standards \<Rightarrow> bool"
    and evaluate :: "ReimbursementRequest \<Rightarrow> Standards \<Rightarrow> Evaluation"
  assumes rules_requirements: "map (\<lambda>c. (ru_Standard (c r s), ru_Passed (c r s))) rules = requirements r s"
    and rules_explain: "c \<in> set rules \<Longrightarrow> \<not> ru_Passed (c r s) \<Longrightarrow> ru_Detail (c r s) \<noteq> ''ok'' \<and> ru_Detail (c r s) \<noteq> []"
    and in_band: "borderline r s \<longleftrightarrow> (\<exists>c. sd_CategoryCapsUSD s (rr_Category r) = Some c \<and>
           f64 (c * f64 (1 - sd_ReviewBand s)) \<le> rr_AmountUSD r \<and> rr_AmountUSD r \<le> c)"
    and evaluate_fail: "failed_checks rules r s \<noteq> [] \<Longrightarrow> evaluate r s =
           \<lparr>ev_RequestID = rr_RequestID r, ev_Verdict = Fail, ev_FailedStandards = failed_checks rules r s, ev_Notes = []\<rparr>"
    and evaluate_review: "failed_checks rules r s = [] \<Longrightarrow> borderline r s \<Longrightarrow> \<exists>n. evaluate r s =
           \<lparr>ev_RequestID = rr_RequestID r, ev_Verdict = Review, ev_FailedStandards = [], ev_Notes = [n]\<rparr>"
    and evaluate_pass: "failed_checks rules r s = [] \<Longrightarrow> \<not> borderline r s \<Longrightarrow> evaluate r s =
           \<lparr>ev_RequestID = rr_RequestID r, ev_Verdict = Pass, ev_FailedStandards = [], ev_Notes = []\<rparr>"
begin

lemma failed_names: "map ru_Standard (failed_checks rules r s) = map fst (filter (\<lambda>x. \<not> snd x) (requirements r s))"
  unfolding failed_checks_filter rules_requirements [of r s, symmetric] by (simp add: filter_map comp_def)

lemma failed_Nil: "failed_checks rules r s = [] \<longleftrightarrow> meets r s"
proof -
  have "failed_checks rules r s = [] \<longleftrightarrow> filter (\<lambda>x. \<not> snd x) (requirements r s) = []"
    using failed_names [of r s] by (metis map_is_Nil_conv)
  then show ?thesis by (auto simp: meets_def list_all_iff filter_empty_conv)
qed

lemma band_when_met:
  "meets r s \<Longrightarrow> borderline r s \<longleftrightarrow> (\<exists>c. sd_CategoryCapsUSD s (rr_Category r) = Some c \<and>
     f64 (c * f64 (1 - sd_ReviewBand s)) \<le> rr_AmountUSD r)"
  by (auto simp: in_band meets_def requirements_def)

lemma evaluate_cases:
  obtains (failing) "\<not> meets r s" "evaluate r s =
      \<lparr>ev_RequestID = rr_RequestID r, ev_Verdict = Fail, ev_FailedStandards = failed_checks rules r s, ev_Notes = []\<rparr>"
  | (review) n where "meets r s" "borderline r s" "evaluate r s =
      \<lparr>ev_RequestID = rr_RequestID r, ev_Verdict = Review, ev_FailedStandards = [], ev_Notes = [n]\<rparr>"
  | (passing) "meets r s" "\<not> borderline r s" "evaluate r s =
      \<lparr>ev_RequestID = rr_RequestID r, ev_Verdict = Pass, ev_FailedStandards = [], ev_Notes = []\<rparr>"
  using evaluate_fail [of r s] evaluate_review [of r s] evaluate_pass [of r s] failed_Nil [of r s] by blast

lemma verdict: "ev_Verdict (evaluate r s) = (if \<not> meets r s then Fail else if borderline r s then Review else Pass)"
  by (cases rule: evaluate_cases [of r s]) simp_all

lemma request_id: "ev_RequestID (evaluate r s) = rr_RequestID r"
  by (cases rule: evaluate_cases [of r s]) simp_all

lemma report: "map ru_Standard (ev_FailedStandards (evaluate r s)) = map fst (filter (\<lambda>x. \<not> snd x) (requirements r s))"
  using failed_names [of r s] by (cases rule: evaluate_cases [of r s]) (auto simp: failed_Nil [symmetric])

lemma evidence: "list_all (\<lambda>x. \<not> ru_Passed x \<and> ru_Detail x \<noteq> ''ok'' \<and> ru_Detail x \<noteq> []) (ev_FailedStandards (evaluate r s))"
  using rules_explain [of _ r s]
  by (cases rule: evaluate_cases [of r s]) (auto simp: list_all_iff failed_checks_filter)

lemma review_noted: "ev_Notes (evaluate r s) \<noteq> [] \<longleftrightarrow> ev_Verdict (evaluate r s) = Review"
  by (cases rule: evaluate_cases [of r s]) simp_all

lemma monotone:
  assumes "rr_AmountUSD r \<le> a"
  shows "severity (ev_Verdict (evaluate r s)) \<le> severity (ev_Verdict (evaluate (r\<lparr>rr_AmountUSD := a\<rparr>) s))"
  using meets_antimono [OF assms, of s] assms by (fastforce simp: verdict band_when_met)

lemma pass_below_cap:
  assumes "0 \<le> sd_ReviewBand s" "sd_CategoryCapsUSD s (rr_Category r) = Some c" "0 \<le> c" "f64 c = c"
    and "ev_Verdict (evaluate r s) = Pass"
  shows "rr_AmountUSD r < c"
proof -
  from assms(5) have m: "meets r s" "\<not> borderline r s" by (simp_all add: verdict split: if_splits)
  with assms(2) have "rr_AmountUSD r < f64 (c * f64 (1 - sd_ReviewBand s))" by (auto simp: band_when_met)
  also have "... \<le> c" by (rule band_below_cap [OF assms(1,3,4)])
  finally show ?thesis .
qed

end

lemmas check_defs = checkCategoryEligible_def checkReceipt_def checkEventAssociation_def checkDeadline_def
  checkCategoryCap_def result_def Let_def

interpretation finance: rule_set "checks fmt2" isBorderline "EvaluateReimbursement fmt2" for fmt2
proof
  fix r s
  show "map (\<lambda>c. (ru_Standard (c r s), ru_Passed (c r s))) (checks fmt2) = requirements r s"
    by (auto simp: checks_def requirements_def check_defs split: option.split)
  show "c \<in> set (checks fmt2) \<Longrightarrow> \<not> ru_Passed (c r s) \<Longrightarrow> ru_Detail (c r s) \<noteq> ''ok'' \<and> ru_Detail (c r s) \<noteq> []" for c
    by (auto simp: checks_def check_defs split: option.splits if_splits)
qed (auto simp: isBorderline_def EvaluateReimbursement_def Let_def split: option.split)

text \<open>
  C36. The verdict is the policy: a request fails exactly when it violates a standard, and then the report
  names exactly the violated standards, in order, each with evidence; a request that meets them all goes
  to a human exactly when its category has a cap and the amount reaches the review band, with a note; and
  passes otherwise.
\<close>

theorem evaluation_exact:
  "ev_RequestID (EvaluateReimbursement fmt2 r s) = rr_RequestID r \<and>
   (ev_Verdict (EvaluateReimbursement fmt2 r s) = Fail \<longleftrightarrow> \<not> meets r s) \<and>
   (ev_Verdict (EvaluateReimbursement fmt2 r s) = Review \<longleftrightarrow> meets r s \<and>
      (\<exists>c. sd_CategoryCapsUSD s (rr_Category r) = Some c \<and> f64 (c * f64 (1 - sd_ReviewBand s)) \<le> rr_AmountUSD r)) \<and>
   map ru_Standard (ev_FailedStandards (EvaluateReimbursement fmt2 r s)) =
     map fst (filter (\<lambda>x. \<not> snd x) (requirements r s)) \<and>
   list_all (\<lambda>x. \<not> ru_Passed x \<and> ru_Detail x \<noteq> ''ok'' \<and> ru_Detail x \<noteq> []) (ev_FailedStandards (EvaluateReimbursement fmt2 r s)) \<and>
   (ev_Notes (EvaluateReimbursement fmt2 r s) \<noteq> [] \<longleftrightarrow> ev_Verdict (EvaluateReimbursement fmt2 r s) = Review)"
  by (simp add: finance.request_id finance.verdict finance.report finance.evidence finance.review_noted finance.band_when_met)

lemma LoadStandards_sound:
  assumes "LoadStandards cf parse_float data = Inr s"
  shows "sd_EligibleCategories s \<noteq> [] \<and> 0 < sd_MaxDaysToSubmit s \<and> 0 \<le> sd_ReviewBand s \<and> sd_ReviewBand s < 1"
  using assms by (auto simp: LoadStandards_def split: option.splits if_splits)

text \<open>
  Money is never waved through by rounding or by asking for more: under standards that loading has
  accepted, a request for a capped category is passed automatically only for an amount below the cap, an
  amount exactly at the (non-negative) cap never passes without a human, and raising the amount of a request
  never improves its verdict.
\<close>

theorem verdict_monotone:
  assumes "LoadStandards cf parse_float data = Inr s" "rr_AmountUSD r \<le> a"
  shows "severity (ev_Verdict (EvaluateReimbursement fmt2 r s)) \<le>
      severity (ev_Verdict (EvaluateReimbursement fmt2 (r\<lparr>rr_AmountUSD := a\<rparr>) s)) \<and>
    (\<forall>c. sd_CategoryCapsUSD s (rr_Category r) = Some c \<longrightarrow> 0 \<le> c \<longrightarrow> f64 c = c \<longrightarrow>
       ev_Verdict (EvaluateReimbursement fmt2 r s) = Pass \<longrightarrow> rr_AmountUSD r < c)"
  using finance.monotone [OF assms(2), of fmt2 s] finance.pass_below_cap [of s r _ fmt2] LoadStandards_sound [OF assms(1)]
  by blast

subsection \<open>The reviewed standards\<close>

text \<open>The document internal/standards/reimbursement.json, embedded in the binary.\<close>

definition reimbursement_json :: raw where
  "reimbursement_json = Raw_JSON (JObj
     [(''_comment'', JStr ''ScottyLabs reimbursement standards as DATA''),
      (''eligible_categories'', JArr [JStr ''travel'', JStr ''food'', JStr ''supplies'', JStr ''swag'', JStr ''printing'']),
      (''category_caps_usd'', JObj [(''travel'', JNum ''500''), (''food'', JNum ''250''), (''supplies'', JNum ''300''),
         (''swag'', JNum ''400''), (''printing'', JNum ''150'')]),
      (''max_days_to_submit'', JNum ''30''), (''require_receipt'', JBool True), (''require_event_assoc'', JBool True),
      (''review_band'', JNum ''0.10'')])"

definition demo_float :: "string \<Rightarrow> rat option" where
  "demo_float t = (if t = ''0.10'' then Some (f64 (1 / 10)) else map_option of_int (Atoi t))"

definition demo_claim :: "rat \<Rightarrow> ReimbursementRequest" where
  "demo_claim a = \<lparr>rr_RequestID = ''r8'', rr_SubmitterEmail = ''a@cmu.edu'', rr_AmountUSD = a, rr_Category = ''travel'',
     rr_HasItemizedReceipt = True, rr_EventAssociated = True, rr_SubmittedDaysAfterPurchase = 5\<rparr>"

theorem verdict_monotone_witness:
  "\<exists>s. LoadStandards (\<lambda>s. s) demo_float reimbursement_json = Inr s \<and>
     severity (ev_Verdict (EvaluateReimbursement (\<lambda>x. []) (demo_claim 470) s)) = 1 \<and>
     1 \<le> severity (ev_Verdict (EvaluateReimbursement (\<lambda>x. []) (demo_claim 600) s))"
proof -
  let ?L = "LoadStandards (\<lambda>s. s) demo_float reimbursement_json"
  have "\<not> isl ?L" by code_simp
  then obtain s where s: "?L = Inr s" by (cases ?L) simp_all
  have "severity (ev_Verdict (EvaluateReimbursement (\<lambda>x. []) (demo_claim 470) (projr ?L))) = 1" by code_simp
  then have one: "severity (ev_Verdict (EvaluateReimbursement (\<lambda>x. []) (demo_claim 470) s)) = 1" by (simp add: s)
  have "rr_AmountUSD (demo_claim 470) \<le> 600" "(demo_claim 470)\<lparr>rr_AmountUSD := 600\<rparr> = demo_claim 600"
    by (simp_all add: demo_claim_def)
  with verdict_monotone [OF s, of "demo_claim 470" 600 "\<lambda>x. []"] one s show ?thesis by auto
qed

end
