(* ===== verification/Template.thy ===== *)
theory Template
  imports Finance
begin

text \<open>
  The template for new MCP servers (mcp-servers/_template/scottylabs-mcp-template-go): its example
  standards (internal/domain/models.go), rules (internal/domain/rules.go), service
  (internal/service/reimbursement.go), audit clients (internal/clients/audit.go), log redaction
  (internal/logging/logging.go) and configuration (internal/config/config.go).  Its structs have the
  fields of the finance server's, so the records of \<open>Finance\<close> are used for them; its rules, messages and
  standards are its own.
\<close>

subsection \<open>Rules\<close>

definition DefaultStandards :: Standards where
  "DefaultStandards =
     \<lparr>sd_EligibleCategories = [''travel'', ''food'', ''supplies'', ''swag''],
      sd_CategoryCapsUSD = [''travel'' \<mapsto> 500, ''food'' \<mapsto> 250, ''supplies'' \<mapsto> 300, ''swag'' \<mapsto> 400],
      sd_MaxDaysToSubmit = 30, sd_RequireReceipt = True, sd_RequireEventAssoc = True, sd_ReviewBand = f64 (1 / 10)\<rparr>"

fun tpl_eligible_loop :: "string list \<Rightarrow> ReimbursementRequest \<Rightarrow> RuleResult" where
  "tpl_eligible_loop [] r = result ''eligible_category'' False (Sprintf ''category %q is not eligible'' [rr_Category r])"
| "tpl_eligible_loop (c # cs) r =
     (if c = rr_Category r then result ''eligible_category'' True ''ok'' else tpl_eligible_loop cs r)"

definition tpl_checkCategoryEligible :: check where
  "tpl_checkCategoryEligible r s = tpl_eligible_loop (sd_EligibleCategories s) r"

definition tpl_checkReceipt :: check where
  "tpl_checkReceipt r s =
     (let passed = (\<not> sd_RequireReceipt s \<or> rr_HasItemizedReceipt r)
      in result ''itemized_receipt'' passed (if \<not> passed then ''missing itemized receipt'' else ''ok''))"

definition tpl_checkEventAssociation :: check where
  "tpl_checkEventAssociation r s =
     (let passed = (\<not> sd_RequireEventAssoc s \<or> rr_EventAssociated r)
      in result ''event_association'' passed (if \<not> passed then ''no associated event'' else ''ok''))"

definition tpl_checkDeadline :: check where
  "tpl_checkDeadline r s =
     (let passed = (rr_SubmittedDaysAfterPurchase r \<le> sd_MaxDaysToSubmit s)
      in result ''submission_deadline'' passed
           (if \<not> passed
            then Sprintf ''submitted %d days after purchase (max %d)''
                   [Itoa (rr_SubmittedDaysAfterPurchase r), Itoa (sd_MaxDaysToSubmit s)]
            else ''ok''))"

definition tpl_checkCategoryCap :: "fmt2 \<Rightarrow> check" where
  "tpl_checkCategoryCap fmt2 r s =
     (case sd_CategoryCapsUSD s (rr_Category r) of
        None \<Rightarrow> result ''category_cap'' True ''no cap for category''
      | Some limit \<Rightarrow>
          (if rr_AmountUSD r \<le> limit then result ''category_cap'' True ''ok''
           else result ''category_cap'' False (''amount $'' @ fmt2 (rr_AmountUSD r) @ '' exceeds cap $'' @ fmt2 limit)))"

definition tpl_checks :: "fmt2 \<Rightarrow> check list" where
  "tpl_checks fmt2 =
     [tpl_checkCategoryEligible, tpl_checkReceipt, tpl_checkEventAssociation, tpl_checkDeadline, tpl_checkCategoryCap fmt2]"

definition tpl_isBorderline :: "ReimbursementRequest \<Rightarrow> Standards \<Rightarrow> bool" where
  "tpl_isBorderline r s =
     (case sd_CategoryCapsUSD s (rr_Category r) of
        None \<Rightarrow> False
      | Some limit \<Rightarrow> rr_AmountUSD r \<ge> f64 (limit * f64 (1 - sd_ReviewBand s)) \<and> rr_AmountUSD r \<le> limit)"

definition tpl_EvaluateReimbursement :: "fmt2 \<Rightarrow> ReimbursementRequest \<Rightarrow> Standards \<Rightarrow> Evaluation" where
  "tpl_EvaluateReimbursement fmt2 r s =
     (let failed = failed_checks (tpl_checks fmt2) r s
      in if length failed > 0 then \<lparr>ev_RequestID = rr_RequestID r, ev_Verdict = Fail, ev_FailedStandards = failed, ev_Notes = []\<rparr>
         else if tpl_isBorderline r s
         then \<lparr>ev_RequestID = rr_RequestID r, ev_Verdict = Review, ev_FailedStandards = [],
               ev_Notes = [''amount is within the review band of the category cap; needs a human'']\<rparr>
         else \<lparr>ev_RequestID = rr_RequestID r, ev_Verdict = Pass, ev_FailedStandards = [], ev_Notes = []\<rparr>)"

fun verdict_string :: "Verdict \<Rightarrow> string" where
  "verdict_string Pass = ''pass''" | "verdict_string Fail = ''fail''" | "verdict_string Review = ''review''"

subsection \<open>Service and audit clients\<close>

text \<open>An audit sink takes an actor, an action and a payload and may fail; payloads hold strings.\<close>

type_synonym payload = "(string \<times> string) list"

type_synonym 's AuditSink = "string \<Rightarrow> string \<Rightarrow> payload \<Rightarrow> 's \<Rightarrow> goerr option \<times> 's"

text \<open>The event: the two fixed entries, then the payload's, which replace entries of the same key.\<close>

definition audit_event :: "string \<Rightarrow> string \<Rightarrow> payload \<Rightarrow> (string \<times> json) list" where
  "audit_event actor action payload =
     foldl (\<lambda>m (k, v). obj_put k (JStr v) m) [(''actor'', JStr actor), (''action'', JStr action)] payload"

definition InMemoryAudit_Record :: "(string \<times> json) list list AuditSink" where
  "InMemoryAudit_Record actor action payload events = (None, events @ [audit_event actor action payload])"

text \<open>\<open>post\<close> is the HTTP client's exchange, \<open>parse_url\<close> is \<open>http.NewRequest\<close> accepting the address.\<close>

definition HTTPAudit_Record ::
  "(string \<Rightarrow> goerr option) \<Rightarrow> (string \<Rightarrow> (string \<times> string) list \<Rightarrow> json \<Rightarrow> 's \<Rightarrow> (goerr + int) \<times> 's) \<Rightarrow> string \<Rightarrow> 's AuditSink" where
  "HTTPAudit_Record parse_url post url actor action payload s =
     (let b = marshal_map (audit_event actor action payload)
      in case parse_url url of
           Some e \<Rightarrow> (Some e, s)
         | None \<Rightarrow>
             (case post url [(''Content-Type'', ''application/json'')] b s of
                (Inl e, s') \<Rightarrow> (None, s') | (Inr status, s') \<Rightarrow> (None, s')))"

definition tpl_Evaluate :: "fmt2 \<Rightarrow> Standards \<Rightarrow> 's AuditSink \<Rightarrow> ReimbursementRequest \<Rightarrow> 's \<Rightarrow> Evaluation \<times> 's" where
  "tpl_Evaluate fmt2 standards audit r s =
     (let ev = tpl_EvaluateReimbursement fmt2 r standards;
          (_, s') = audit ''reimbursement-service'' ''evaluate''
                      [(''request_id'', rr_RequestID r), (''verdict'', verdict_string (ev_Verdict ev))] s
      in (ev, s'))"

definition RecordReviewDecision :: "'s AuditSink \<Rightarrow> string \<Rightarrow> string \<Rightarrow> string \<Rightarrow> 's \<Rightarrow> goerr option \<times> 's" where
  "RecordReviewDecision audit requestID decision decidedBy s =
     audit decidedBy ''review_decision'' [(''request_id'', requestID), (''decision'', decision)] s"

subsection \<open>Tools\<close>

record recordDecisionInput =
  rd_RequestID :: string
  rd_Decision :: string
  rd_DecidedBy :: string

record recordDecisionOutput =
  ro_RequestID :: string
  ro_Decision :: string
  ro_Recorded :: bool

datatype template_input = EvaluateReimbursementTool ReimbursementRequest | RecordDecisionTool recordDecisionInput

datatype template_output = Evaluated Evaluation | DecisionRecorded recordDecisionOutput

text \<open>The tools by name, and the handlers \<open>Register\<close> gives them, by the input each takes.\<close>

fun template_tool :: "template_input \<Rightarrow> string" where
  "template_tool (EvaluateReimbursementTool i) = ''evaluate_reimbursement''"
| "template_tool (RecordDecisionTool i) = ''record_review_decision''"

fun template_handle :: "fmt2 \<Rightarrow> Standards \<Rightarrow> 's AuditSink \<Rightarrow> template_input \<Rightarrow> 's \<Rightarrow> (goerr + template_output) \<times> 's" where
  "template_handle fmt2 standards audit (EvaluateReimbursementTool i) s =
     (let (ev, s') = tpl_Evaluate fmt2 standards audit i s in (Inr (Evaluated ev), s'))"
| "template_handle fmt2 standards audit (RecordDecisionTool i) s =
     (case RecordReviewDecision audit (rd_RequestID i) (rd_Decision i) (rd_DecidedBy i) s of
        (Some e, s') \<Rightarrow> (Inl e, s')
      | (None, s') \<Rightarrow>
          (Inr (DecisionRecorded \<lparr>ro_RequestID = rd_RequestID i, ro_Decision = rd_Decision i, ro_Recorded = True\<rparr>), s'))"

subsection \<open>Logging and configuration\<close>

definition redactKeys :: "string list" where
  "redactKeys = [''authorization'', ''token'', ''api_key'', ''password'', ''secret'']"

definition tpl_Redact :: "(string \<Rightarrow> string) \<Rightarrow> (string \<times> json) list \<Rightarrow> (string \<times> json) list" where
  "tpl_Redact uni m = map (\<lambda>(k, v). (k, if ToLower uni k \<in> set redactKeys then JStr ''***'' else v)) m"

record TemplateConfig =
  tc_Port :: string
  tc_LogLevel :: string
  tc_AuthToken :: string
  tc_AuditURL :: string

definition Load_template_config :: "(string \<Rightarrow> string) \<Rightarrow> TemplateConfig" where
  "Load_template_config env =
     \<lparr>tc_Port = firstNonEmpty [env ''PORT'', env ''MCP_PORT'', ''8080''],
      tc_LogLevel = firstNonEmpty [env ''MCP_LOG_LEVEL'', ''info''],
      tc_AuthToken = env ''MCP_AUTH_TOKEN'', tc_AuditURL = env ''MCP_AUDIT_URL''\<rparr>"

text \<open>The audit client \<open>main\<close> chooses: in memory, or the endpoint when one is configured.\<close>

definition template_audit ::
  "(string \<Rightarrow> goerr option) \<Rightarrow> (string \<Rightarrow> (string \<times> string) list \<Rightarrow> json \<Rightarrow> 's \<Rightarrow> (goerr + int) \<times> 's) \<Rightarrow>
   TemplateConfig \<Rightarrow> ((string \<times> json) list list \<times> 's) AuditSink" where
  "template_audit parse_url post c actor action payload =
     (\<lambda>(events, s). if tc_AuditURL c \<noteq> []
        then (let (e, s') = HTTPAudit_Record parse_url post (tc_AuditURL c) actor action payload s in (e, (events, s')))
        else (let (e, events') = InMemoryAudit_Record actor action payload events in (e, (events', s))))"

subsection \<open>What the server answers and records\<close>

lemmas tpl_check_defs = tpl_checkCategoryEligible_def tpl_checkReceipt_def tpl_checkEventAssociation_def
  tpl_checkDeadline_def tpl_checkCategoryCap_def result_def Let_def

lemma tpl_eligible_loop:
  "tpl_eligible_loop cs r = (if rr_Category r \<in> set cs then result ''eligible_category'' True ''ok''
     else result ''eligible_category'' False (Sprintf ''category %q is not eligible'' [rr_Category r]))"
  by (induction cs) auto

interpretation tpl: rule_set "tpl_checks fmt2" tpl_isBorderline "tpl_EvaluateReimbursement fmt2" for fmt2
proof
  fix r s
  show "map (\<lambda>c. (ru_Standard (c r s), ru_Passed (c r s))) (tpl_checks fmt2) = requirements r s"
    by (auto simp: tpl_checks_def requirements_def tpl_check_defs tpl_eligible_loop split: option.split)
  show "c \<in> set (tpl_checks fmt2) \<Longrightarrow> \<not> ru_Passed (c r s) \<Longrightarrow> ru_Detail (c r s) \<noteq> ''ok'' \<and> ru_Detail (c r s) \<noteq> []" for c
    by (auto simp: tpl_checks_def tpl_check_defs tpl_eligible_loop split: option.splits if_splits)
qed (auto simp: tpl_isBorderline_def tpl_EvaluateReimbursement_def Let_def split: option.split)

lemma rule_sets_agree:
  "ev_Verdict (tpl_EvaluateReimbursement fmt2 r s) = ev_Verdict (EvaluateReimbursement fmt2 r s) \<and>
   map ru_Standard (ev_FailedStandards (tpl_EvaluateReimbursement fmt2 r s)) =
     map ru_Standard (ev_FailedStandards (EvaluateReimbursement fmt2 r s)) \<and>
   ev_RequestID (tpl_EvaluateReimbursement fmt2 r s) = ev_RequestID (EvaluateReimbursement fmt2 r s)"
  by (simp add: tpl.verdict finance.verdict tpl.report finance.report tpl.request_id finance.request_id
      tpl.in_band finance.in_band)

definition evaluation_event :: "ReimbursementRequest \<Rightarrow> Verdict \<Rightarrow> (string \<times> json) list" where
  "evaluation_event r v = [(''actor'', JStr ''reimbursement-service''), (''action'', JStr ''evaluate''),
     (''request_id'', JStr (rr_RequestID r)), (''verdict'', JStr (verdict_string v))]"

text \<open>
  A server started from the template decides like the finance server and records every decision: the
  evaluation tool always answers, with the verdict, the request id and the violated standards that the
  finance rules give under the same standards, and hands exactly one event with the request id and that
  verdict to its audit client, appended in memory or posted once to the configured endpoint; a failing
  post does not change the answer.
\<close>

theorem template_agrees:
  "\<exists>ev events' s'.
     template_handle fmt2 DefaultStandards (template_audit parse_url post c) (EvaluateReimbursementTool r) (events, s) =
       (Inr (Evaluated ev), (events', s')) \<and>
     ev_RequestID ev = rr_RequestID r \<and>
     ev_Verdict ev = ev_Verdict (EvaluateReimbursement fmt2 r DefaultStandards) \<and>
     map ru_Standard (ev_FailedStandards ev) = map ru_Standard (ev_FailedStandards (EvaluateReimbursement fmt2 r DefaultStandards)) \<and>
     (if tc_AuditURL c = [] then events' = events @ [evaluation_event r (ev_Verdict ev)] \<and> s' = s
      else events' = events \<and>
        s' = (if parse_url (tc_AuditURL c) = None
              then snd (post (tc_AuditURL c) [(''Content-Type'', ''application/json'')]
                     (marshal_map (evaluation_event r (ev_Verdict ev))) s)
              else s))"
proof -
  have e: "audit_event ''reimbursement-service'' ''evaluate''
      [(''request_id'', rr_RequestID r), (''verdict'', verdict_string v)] = evaluation_event r v" for v
    by (simp add: audit_event_def evaluation_event_def)
  from rule_sets_agree [of fmt2 r DefaultStandards] show ?thesis
    by (auto simp: tpl_Evaluate_def template_audit_def InMemoryAudit_Record_def HTTPAudit_Record_def Let_def e
        tpl.request_id finance.request_id split: prod.splits option.splits sum.splits)
qed

text \<open>
  A decision is reported as recorded although the endpoint refused it, and an endpoint address that does
  not parse makes the tool fail although the audit is meant never to break a call.
\<close>

lemma refused_post_recorded:
  "fst (template_handle fmt2 st (HTTPAudit_Record (\<lambda>u. None) (\<lambda>u h b s. (Inr 500, s)) url) (RecordDecisionTool i) s) =
     Inr (DecisionRecorded \<lparr>ro_RequestID = rd_RequestID i, ro_Decision = rd_Decision i, ro_Recorded = True\<rparr>)"
  by (simp add: RecordReviewDecision_def HTTPAudit_Record_def)

lemma bad_address_breaks_call:
  "fst (template_handle fmt2 st (HTTPAudit_Record (\<lambda>u. Some e) post url) (RecordDecisionTool i) s) = Inl e"
  by (simp add: RecordReviewDecision_def HTTPAudit_Record_def)

text \<open>Redaction keeps the keys, masks exactly the sensitive ones and keeps all other values.\<close>

lemma tpl_Redact_exact:
  "map fst (tpl_Redact uni m) = map fst m \<and>
   ((k, v) \<in> set m \<longrightarrow> (k, if ToLower uni k \<in> set redactKeys then JStr ''***'' else v) \<in> set (tpl_Redact uni m))"
  by (auto simp: tpl_Redact_def comp_def split_beta image_iff intro!: bexI [of _ "(k, v)"])

end
