(* ===== verification/Assembly.thy ===== *)
theory Assembly
  imports StoreInvariant StoreProperties
begin

text \<open>
  Per-turn context assembly: services/session-memory/internal/assembly.  \<open>Assemble\<close> budgets the parts
  (assemble.go); \<open>Build\<close> collects them from a store and \<open>PersistTurnResult\<close> writes back
  (builder.go).  The store is the record \<open>BuildStore\<close> of the operations the builder calls; the
  locale \<open>scoped_store\<close> states what scoping a store promises.
\<close>

subsection \<open>Budgeting\<close>

record Part =
  pt_Name :: string
  pt_Content :: string
  pt_Trimmable :: bool

record Assembled =
  as_Text :: string
  as_Tokens :: int
  as_Included :: "string list"
  as_Truncated :: "string list"
  as_Dropped :: "string list"

definition EstimateTokens :: "string \<Rightarrow> int" where
  "EstimateTokens s = (if s = [] then 0 else (int (length s) + 3) div 4)"

definition marker :: string where
  "marker = [CHR 0x0A, CHR 0xE2, CHR 0x80, CHR 0xA6] @ ''[trimmed]''"

text \<open>The shrinking loop: \<open>cut\<close> goes down by 16.\<close>

function trim_loop :: "string \<Rightarrow> int \<Rightarrow> (string \<Rightarrow> int) \<Rightarrow> int \<Rightarrow> string" where
  "trim_loop s maxTokens cnt ct =
     (if ct > 0 then
        (let candidate = take (nat ct) s @ marker
         in if cnt candidate \<le> maxTokens then candidate
            else trim_loop s maxTokens cnt (ct - 16))
      else [])"
  by pat_completeness auto
termination
  by (relation "measure (\<lambda>(s, m, c, ct). nat ct)") auto

declare trim_loop.simps [simp del]

definition truncateToTokens :: "string \<Rightarrow> int \<Rightarrow> (string \<Rightarrow> int) \<Rightarrow> string" where
  "truncateToTokens s maxTokens cnt =
     (if maxTokens \<le> 0 then []
      else if cnt s \<le> maxTokens then s
      else (let cut = wrap64 (maxTokens * 4);
                cut = (if cut > int (length s) then int (length s) else cut)
            in trim_loop s maxTokens cnt cut))"

text \<open>The loop over the parts; \<open>segs\<close> are the segments kept so far.\<close>

fun assemble_loop :: "int \<Rightarrow> (string \<Rightarrow> int) \<Rightarrow> Part list \<Rightarrow> Assembled \<times> string list \<Rightarrow> Assembled \<times> string list" where
  "assemble_loop budget cnt [] (out, segs) = (out, segs)"
| "assemble_loop budget cnt (p # ps) (out, segs) =
     (if pt_Content p = [] then assemble_loop budget cnt ps (out, segs)
      else
        (let cost = cnt (pt_Content p);
             remaining = wrap64 (budget - as_Tokens out)
         in if budget \<le> 0 \<or> cost \<le> remaining
            then assemble_loop budget cnt ps
                   (out\<lparr>as_Tokens := wrap64 (as_Tokens out + cost), as_Included := as_Included out @ [pt_Name p]\<rparr>,
                    segs @ [pt_Content p])
            else if pt_Trimmable p \<and> remaining > 0 then
              (let trimmed = truncateToTokens (pt_Content p) remaining cnt
               in if trimmed \<noteq> []
                  then (out\<lparr>as_Tokens := wrap64 (as_Tokens out + cnt trimmed),
                            as_Truncated := as_Truncated out @ [pt_Name p]\<rparr>, segs @ [trimmed])
                  else (out\<lparr>as_Dropped := as_Dropped out @ [pt_Name p]\<rparr>, segs))
            else (out\<lparr>as_Dropped := as_Dropped out @ [pt_Name p]\<rparr>, segs)))"

definition Assemble :: "Part list \<Rightarrow> int \<Rightarrow> (string \<Rightarrow> int) option \<Rightarrow> Assembled" where
  "Assemble parts budget counter =
     (let cnt = (case counter of None \<Rightarrow> EstimateTokens | Some c \<Rightarrow> c);
          (out, segs) = assemble_loop budget cnt parts
            (\<lparr>as_Text = [], as_Tokens = 0, as_Included = [], as_Truncated = [], as_Dropped = []\<rparr>, [])
      in out\<lparr>as_Text := Join segs [CHR 0x0A, CHR 0x0A]\<rparr>)"

subsection \<open>Building a turn\<close>

record 's BuildStore =
  bs_SearchFacts :: "FactQuery \<Rightarrow> 's \<Rightarrow> Fact list res \<times> 's"
  bs_GetSummary :: "string \<Rightarrow> 's \<Rightarrow> Summary res \<times> 's"
  bs_ListTurns :: "string \<Rightarrow> int \<Rightarrow> 's \<Rightarrow> Turn list res \<times> 's"
  bs_UpsertSummary :: "string \<Rightarrow> string \<Rightarrow> 's \<Rightarrow> Summary res \<times> 's"
  bs_WriteFact :: "FactInput \<Rightarrow> 's \<Rightarrow> Fact res \<times> 's"

record 's Builder =
  bd_store :: "'s BuildStore"
  bd_count :: "string \<Rightarrow> int"

definition NewBuilder :: "'s BuildStore \<Rightarrow> (string \<Rightarrow> int) option \<Rightarrow> 's Builder" where
  "NewBuilder s counter = \<lparr>bd_store = s, bd_count = (case counter of None \<Rightarrow> EstimateTokens | Some c \<Rightarrow> c)\<rparr>"

record TurnInput =
  ti_SessionID :: string
  ti_ScopeType :: string
  ti_ScopeID :: string
  ti_MemoryTags :: "string list"
  ti_MemoryTopK :: int
  ti_RecentTurns :: int
  ti_SystemPrompt :: string
  ti_GooseHints :: string
  ti_RecipeInstructions :: string
  ti_ToolOutput :: string
  ti_Budget :: int

definition format_fact :: "Fact \<Rightarrow> string" where
  "format_fact f = [CHR 0x0A] @ ''- '' @ fct_Key f @ '': '' @ fct_Value f @
     (if fct_Tags f \<noteq> [] then '' ['' @ Join (fct_Tags f) '', '' @ '']'' else [])"

definition formatFacts :: "Fact list \<Rightarrow> string" where
  "formatFacts facts = (if facts = [] then [] else ''Relevant memory:'' @ concat (map format_fact facts))"

definition formatTurns :: "Turn list \<Rightarrow> string" where
  "formatTurns ts = (if ts = [] then []
     else ''Recent conversation:'' @ concat (map (\<lambda>t. [CHR 0x0A] @ trn_Role t @ '': '' @ trn_Content t) ts))"

definition prefixed :: "string \<Rightarrow> string \<Rightarrow> string" where
  "prefixed pre body = (if blank_str body then [] else pre @ [CHR 0x0A] @ body)"

text \<open>The three retrievals: memory, summary and recent turns.\<close>

definition build_memory :: "'s Builder \<Rightarrow> TurnInput \<Rightarrow> 's \<Rightarrow> string res \<times> 's" where
  "build_memory b inp s =
     (if ti_ScopeType inp \<noteq> [] \<and> ti_ScopeID inp \<noteq> [] then
        (case bs_SearchFacts (bd_store b)
                \<lparr>fq_ScopeType = ti_ScopeType inp, fq_ScopeID = ti_ScopeID inp, fq_Tags = ti_MemoryTags inp,
                 fq_Limit = ti_MemoryTopK inp, fq_IncludeExpired = False\<rparr> s of
           (Inl e, s') \<Rightarrow> (Inl (Wrap ''assembly: retrieve memory: '' [] e), s')
         | (Inr facts, s') \<Rightarrow> (Inr (formatFacts facts), s'))
      else (Inr [], s))"

definition build_summary :: "'s Builder \<Rightarrow> TurnInput \<Rightarrow> 's \<Rightarrow> string res \<times> 's" where
  "build_summary b inp s =
     (case bs_GetSummary (bd_store b) (ti_SessionID inp) s of
        (Inl e, s') \<Rightarrow> (if \<not> errors_Is e ErrNotFound then (Inl (Wrap ''assembly: get summary: '' [] e), s')
                        else (Inr [], s'))
      | (Inr v, s') \<Rightarrow> (Inr (TrimSpace (sum_Summary v)), s'))"

definition build_turns :: "'s Builder \<Rightarrow> TurnInput \<Rightarrow> 's \<Rightarrow> string res \<times> 's" where
  "build_turns b inp s =
     (if ti_RecentTurns inp > 0 then
        (case bs_ListTurns (bd_store b) (ti_SessionID inp) (ti_RecentTurns inp) s of
           (Inl e, s') \<Rightarrow> (Inl (Wrap ''assembly: list turns: '' [] e), s')
         | (Inr ts, s') \<Rightarrow> (Inr (formatTurns ts), s'))
      else (Inr [], s))"

definition build_parts :: "TurnInput \<Rightarrow> string \<Rightarrow> string \<Rightarrow> string \<Rightarrow> Part list" where
  "build_parts inp memoryText summaryText turnsText =
     [\<lparr>pt_Name = ''system'', pt_Content = ti_SystemPrompt inp, pt_Trimmable = False\<rparr>,
      \<lparr>pt_Name = ''goosehints'', pt_Content = ti_GooseHints inp, pt_Trimmable = False\<rparr>,
      \<lparr>pt_Name = ''recipe'', pt_Content = ti_RecipeInstructions inp, pt_Trimmable = False\<rparr>,
      \<lparr>pt_Name = ''memory'', pt_Content = memoryText, pt_Trimmable = False\<rparr>,
      \<lparr>pt_Name = ''summary'', pt_Content = prefixed ''Conversation summary:'' summaryText, pt_Trimmable = False\<rparr>,
      \<lparr>pt_Name = ''recent_turns'', pt_Content = turnsText, pt_Trimmable = False\<rparr>,
      \<lparr>pt_Name = ''tool_output'', pt_Content = prefixed ''Tool results:'' (ti_ToolOutput inp), pt_Trimmable = True\<rparr>]"

definition Build :: "'s Builder \<Rightarrow> TurnInput \<Rightarrow> 's \<Rightarrow> Assembled res \<times> 's" where
  "Build b inp s =
     and_then (build_memory b inp s) (\<lambda>memoryText s.
     and_then
       (if ti_SessionID inp \<noteq> []
        then and_then (build_summary b inp s) (\<lambda>summaryText s.
             and_then (build_turns b inp s) (\<lambda>turnsText s. (Inr (summaryText, turnsText), s)))
        else (Inr ([], []), s)) (\<lambda>(summaryText, turnsText) s.
     (Inr (Assemble (build_parts inp memoryText summaryText turnsText) (ti_Budget inp) (Some (bd_count b))), s)))"

fun persist_facts :: "'s Builder \<Rightarrow> FactInput list \<Rightarrow> 's \<Rightarrow> unit res \<times> 's" where
  "persist_facts b [] s = (Inr (), s)"
| "persist_facts b (f # fs) s =
     (case bs_WriteFact (bd_store b) f s of
        (Inl e, s') \<Rightarrow> (Inl (Wrap ''assembly: persist fact %q: '' [fin_Key f] e), s')
      | (Inr x, s') \<Rightarrow> persist_facts b fs s')"

definition PersistTurnResult :: "'s Builder \<Rightarrow> string \<Rightarrow> string \<Rightarrow> FactInput list \<Rightarrow> 's \<Rightarrow> unit res \<times> 's" where
  "PersistTurnResult b sessionID summary facts s =
     (case (if summary \<noteq> [] then bs_UpsertSummary (bd_store b) sessionID summary s
            else (Inr \<lparr>sum_SessionID = [], sum_Summary = [], sum_UpdatedAt = 0\<rparr>, s)) of
        (Inl e, s') \<Rightarrow> (Inl (Wrap ''assembly: persist summary: '' [] e), s')
      | (Inr x, s') \<Rightarrow> persist_facts b facts s')"

subsection \<open>Budgeting is a longest prefix\<close>

lemma trim_loop_result:
  "trim_loop s m cnt ct = [] \<or> (\<exists>n > 0. trim_loop s m cnt ct = take n s @ marker \<and> cnt (take n s @ marker) \<le> m)"
proof (induction s m cnt ct rule: trim_loop.induct)
  case (1 s m cnt ct)
  show ?case
  proof (cases "ct > 0 \<and> cnt (take (nat ct) s @ marker) \<le> m")
    case True
    then show ?thesis by (intro disjI2 exI [of _ "nat ct"]) (simp add: trim_loop.simps)
  next
    case False
    with 1 show ?thesis by (auto simp: trim_loop.simps [of s m cnt ct] Let_def)
  qed
qed

lemma truncate_result:
  assumes "\<not> cnt s \<le> m"
  shows "truncateToTokens s m cnt = [] \<or>
    (\<exists>n > 0. truncateToTokens s m cnt = take n s @ marker \<and> cnt (take n s @ marker) \<le> m)"
  using assms trim_loop_result by (auto simp: truncateToTokens_def Let_def)

definition cost :: "(string \<Rightarrow> int) \<Rightarrow> Part list \<Rightarrow> int" where
  "cost cnt ps = (\<Sum>p\<leftarrow>ps. cnt (pt_Content p))"

lemma cost_simps [simp]:
  "cost cnt [] = 0" "cost cnt (p # ps) = cnt (pt_Content p) + cost cnt ps"
  by (simp_all add: cost_def)

lemma cost_map: "sum_list (map (cnt \<circ> pt_Content) ps) = cost cnt ps"
  by (simp add: cost_def o_def)

text \<open>
  The parts \<open>ps\<close> (none empty) against the room \<open>r\<close>: the first \<open>k\<close> are kept whole, and the next one,
  which does not fit, is cut to \<open>extra\<close> or dropped.
\<close>

definition stops_at :: "int \<Rightarrow> (string \<Rightarrow> int) \<Rightarrow> Part list \<Rightarrow> nat \<Rightarrow> string list \<Rightarrow> string list \<Rightarrow> string list \<Rightarrow> bool" where
  "stops_at r cnt ps k extra truncated dropped \<longleftrightarrow>
     k \<le> length ps \<and> cost cnt (take k ps) + (\<Sum>s\<leftarrow>extra. cnt s) \<le> r \<and>
     (if k = length ps then extra = [] \<and> truncated = [] \<and> dropped = []
      else r < cost cnt (take (Suc k) ps) \<and>
        (extra = [] \<and> truncated = [] \<and> dropped = [pt_Name (ps ! k)] \<or>
         pt_Trimmable (ps ! k) \<and> truncated = [pt_Name (ps ! k)] \<and> dropped = [] \<and>
         (\<exists>n > 0. extra = [take n (pt_Content (ps ! k)) @ marker])))"

definition nonempty_parts :: "Part list \<Rightarrow> Part list" where
  "nonempty_parts parts = filter (\<lambda>p. pt_Content p \<noteq> []) parts"

lemma nonempty_parts_simps [simp]:
  "nonempty_parts [] = []"
  "nonempty_parts (p # ps) = (if pt_Content p = [] then nonempty_parts ps else p # nonempty_parts ps)"
  by (simp_all add: nonempty_parts_def)

lemma stops_at_Cons:
  "stops_at (r - cnt (pt_Content p)) cnt ps k extra tr dr \<Longrightarrow> stops_at r cnt (p # ps) (Suc k) extra tr dr"
  by (auto simp: stops_at_def)

lemma stops_at_drop:
  "r < cnt (pt_Content p) \<Longrightarrow> 0 \<le> r \<Longrightarrow> stops_at r cnt (p # ps) 0 [] [] [pt_Name p]"
  by (simp add: stops_at_def)

lemma stops_at_cut:
  "r < cnt (pt_Content p) \<Longrightarrow> pt_Trimmable p \<Longrightarrow> 0 < n \<Longrightarrow> cnt (take n (pt_Content p) @ marker) \<le> r \<Longrightarrow>
     stops_at r cnt (p # ps) 0 [take n (pt_Content p) @ marker] [pt_Name p] []"
  by (auto simp: stops_at_def)

lemma stops_at_Nil: "0 \<le> r \<Longrightarrow> stops_at r cnt [] 0 [] [] []"
  by (simp add: stops_at_def)

lemma int64_between: "0 \<le> i \<Longrightarrow> i \<le> b \<Longrightarrow> int64 b \<Longrightarrow> int64 i"
  by (simp add: int64_def)

text \<open>What the loop returns when it stops so.\<close>

definition loop_result :: "Assembled \<Rightarrow> string list \<Rightarrow> (string \<Rightarrow> int) \<Rightarrow> Part list \<Rightarrow> string list \<Rightarrow> string list \<Rightarrow> string list \<Rightarrow> Assembled \<times> string list" where
  "loop_result out segs cnt kept extra tr dr =
     (out\<lparr>as_Tokens := as_Tokens out + cost cnt kept + (\<Sum>s\<leftarrow>extra. cnt s),
          as_Included := as_Included out @ map pt_Name kept,
          as_Truncated := as_Truncated out @ tr, as_Dropped := as_Dropped out @ dr\<rparr>,
      segs @ map pt_Content kept @ extra)"

lemma loop_result_Cons:
  "loop_result (out\<lparr>as_Tokens := as_Tokens out + cnt (pt_Content p), as_Included := as_Included out @ [pt_Name p]\<rparr>)
     (segs @ [pt_Content p]) cnt kept extra tr dr = loop_result out segs cnt (p # kept) extra tr dr"
  by (simp add: loop_result_def add.assoc)

text \<open>The part that does not fit ends the loop: it is cut, or it is dropped.\<close>

lemma assemble_loop_stop:
  assumes "int64 budget" "0 < budget" "\<forall>s. 0 \<le> cnt s" "0 \<le> as_Tokens out" "as_Tokens out \<le> budget"
    and ne: "pt_Content p \<noteq> []" and big: "budget - as_Tokens out < cnt (pt_Content p)"
  shows "\<exists>extra tr dr. stops_at (budget - as_Tokens out) cnt (p # ps) 0 extra tr dr \<and>
    assemble_loop budget cnt (p # parts) (out, segs) = loop_result out segs cnt [] extra tr dr"
proof -
  let ?r = "budget - as_Tokens out"
  have r64: "wrap64 ?r = ?r" using assms(1,4,5) by (intro wrap64_id) (simp add: int64_def)
  have add64: "wrap64 (as_Tokens out + x) = as_Tokens out + x" if "0 \<le> x" "x \<le> ?r" for x
    using assms(1,4) that by (intro wrap64_id) (simp add: int64_def)
  have nn: "0 \<le> cnt s" for s using assms(3) by blast
  consider (trimmed) n where "pt_Trimmable p" "0 < ?r" "0 < n"
      "truncateToTokens (pt_Content p) ?r cnt = take n (pt_Content p) @ marker"
      "cnt (take n (pt_Content p) @ marker) \<le> ?r"
    | (dropped) "\<not> (pt_Trimmable p \<and> 0 < ?r) \<or> truncateToTokens (pt_Content p) ?r cnt = []"
    using truncate_result [of cnt "pt_Content p" ?r] big by fastforce
  then show ?thesis
  proof cases
    case trimmed
    from trimmed(1,2,4) ne big assms(2) r64 add64 [OF nn trimmed(5)]
    have "assemble_loop budget cnt (p # parts) (out, segs) =
        loop_result out segs cnt [] [take n (pt_Content p) @ marker] [pt_Name p] []"
      by (simp add: Let_def loop_result_def marker_def)
    moreover have "stops_at ?r cnt (p # ps) 0 [take n (pt_Content p) @ marker] [pt_Name p] []"
      using trimmed big by (intro stops_at_cut)
    ultimately show ?thesis by blast
  next
    case dropped
    then have "assemble_loop budget cnt (p # parts) (out, segs) = loop_result out segs cnt [] [] [] [pt_Name p]"
      using ne big r64 assms(2) by (auto simp: Let_def loop_result_def)
    moreover have "stops_at ?r cnt (p # ps) 0 [] [] [pt_Name p]"
      using dropped big assms(5) by (intro stops_at_drop) auto
    ultimately show ?thesis by blast
  qed
qed

lemma assemble_loop_spec:
  assumes "int64 budget" "0 < budget" "\<forall>s. 0 \<le> cnt s"
    and "0 \<le> as_Tokens out" "as_Tokens out \<le> budget"
  shows "\<exists>k extra tr dr. stops_at (budget - as_Tokens out) cnt (nonempty_parts parts) k extra tr dr \<and>
    assemble_loop budget cnt parts (out, segs) =
      loop_result out segs cnt (take k (nonempty_parts parts)) extra tr dr"
  using assms(4,5)
proof (induction parts arbitrary: out segs)
  case Nil
  then show ?case
    by (intro exI [of _ 0] exI [of _ "[]"]) (simp add: stops_at_Nil loop_result_def)
next
  case (Cons p parts)
  let ?c = "cnt (pt_Content p)" and ?r = "budget - as_Tokens out"
  have r64: "wrap64 ?r = ?r" using assms(1) Cons.prems by (intro wrap64_id) (simp add: int64_def)
  have add64: "wrap64 (as_Tokens out + x) = as_Tokens out + x" if "0 \<le> x" "x \<le> ?r" for x
    using assms(1) Cons.prems that by (intro wrap64_id) (simp add: int64_def)
  have nn: "0 \<le> cnt s" for s using assms(3) by blast
  show ?case
  proof (cases "pt_Content p = []")
    case True
    then show ?thesis using Cons.IH [of out segs] Cons.prems by simp
  next
    case ne: False
    show ?thesis
    proof (cases "?c \<le> ?r")
      case fits: True
      let ?out = "out\<lparr>as_Tokens := as_Tokens out + ?c, as_Included := as_Included out @ [pt_Name p]\<rparr>"
      have t: "as_Tokens ?out = as_Tokens out + ?c" by simp
      obtain k extra tr dr where k: "stops_at (budget - as_Tokens ?out) cnt (nonempty_parts parts) k extra tr dr"
        "assemble_loop budget cnt parts (?out, segs @ [pt_Content p]) =
           loop_result ?out (segs @ [pt_Content p]) cnt (take k (nonempty_parts parts)) extra tr dr"
        using Cons.IH [of ?out "segs @ [pt_Content p]"] fits nn [of "pt_Content p"] Cons.prems unfolding t by auto
      have step: "assemble_loop budget cnt (p # parts) (out, segs) = assemble_loop budget cnt parts (?out, segs @ [pt_Content p])"
        using fits ne r64 add64 [OF nn fits] by (simp add: Let_def)
      have "stops_at ?r cnt (p # nonempty_parts parts) (Suc k) extra tr dr"
        using k(1) unfolding t by (intro stops_at_Cons) (simp add: algebra_simps)
      moreover have "assemble_loop budget cnt (p # parts) (out, segs) =
          loop_result out segs cnt (take (Suc k) (p # nonempty_parts parts)) extra tr dr"
        unfolding step k(2) by (simp only: loop_result_Cons take_Suc_Cons)
      ultimately show ?thesis using ne by (metis nonempty_parts_simps(2))
    next
      case False
      then show ?thesis
        using assemble_loop_stop [OF assms(1-3) Cons.prems ne, of "nonempty_parts parts" parts segs] ne
        by (metis nonempty_parts_simps(2) not_le take0)
    qed
  qed
qed

text \<open>
  C23. Assembly is the longest prefix that fits: with a positive budget, the parts that are not empty
  are included whole in priority order as long as their token counts add up to at most the budget;
  the first one that does not fit ends the assembly, is cut (with the marker, and only if it is
  trimmable) or dropped, and nothing of lower priority follows.  The tokens counted are those of the
  text's segments and never exceed the budget.
\<close>

theorem assemble_longest_prefix:
  assumes "int64 budget" "0 < budget" "\<forall>s. 0 \<le> cnt s"
  shows "\<exists>k extra. let r = Assemble parts budget (Some cnt); ps = nonempty_parts parts in
    stops_at budget cnt ps k extra (as_Truncated r) (as_Dropped r) \<and>
    as_Included r = map pt_Name (take k ps) \<and>
    as_Text r = Join (map pt_Content (take k ps) @ extra) [CHR 0x0A, CHR 0x0A] \<and>
    as_Tokens r = (\<Sum>s\<leftarrow>map pt_Content (take k ps) @ extra. cnt s) \<and> as_Tokens r \<le> budget"
proof -
  let ?o = "\<lparr>as_Text = [], as_Tokens = 0, as_Included = [], as_Truncated = [], as_Dropped = []\<rparr>"
  have o: "as_Tokens ?o = 0" by simp
  obtain k extra tr dr where k: "stops_at budget cnt (nonempty_parts parts) k extra tr dr"
    "assemble_loop budget cnt parts (?o, []) = loop_result ?o [] cnt (take k (nonempty_parts parts)) extra tr dr"
    using assemble_loop_spec [OF assms, of ?o parts "[]"] assms(2) unfolding o by auto
  have "Assemble parts budget (Some cnt) =
      (fst (loop_result ?o [] cnt (take k (nonempty_parts parts)) extra tr dr))
        \<lparr>as_Text := Join (map pt_Content (take k (nonempty_parts parts)) @ extra) [CHR 0x0A, CHR 0x0A]\<rparr>"
    unfolding Assemble_def Let_def option.case k(2) by (simp add: loop_result_def)
  moreover have "cost cnt (take k (nonempty_parts parts)) + (\<Sum>s\<leftarrow>extra. cnt s) \<le> budget"
    using k(1) by (simp add: stops_at_def)
  ultimately show ?thesis using k(1)
    by (intro exI [of _ k] exI [of _ extra]) (simp add: Let_def loop_result_def cost_map)
qed

definition demo_parts :: "Part list" where
  "demo_parts =
     [\<lparr>pt_Name = ''system'', pt_Content = ''abcdefgh'', pt_Trimmable = False\<rparr>,
      \<lparr>pt_Name = ''memory'', pt_Content = [], pt_Trimmable = False\<rparr>,
      \<lparr>pt_Name = ''recipe'', pt_Content = ''ijklmnop'', pt_Trimmable = False\<rparr>,
      \<lparr>pt_Name = ''tool_output'', pt_Content = replicate 80 (CHR ''x''), pt_Trimmable = True\<rparr>,
      \<lparr>pt_Name = ''late'', pt_Content = ''z'', pt_Trimmable = False\<rparr>]"

lemma demo_assembled:
  "as_Included (Assemble demo_parts 14 (Some EstimateTokens)) = [''system'', ''recipe''] \<and>
   as_Truncated (Assemble demo_parts 14 (Some EstimateTokens)) = [''tool_output''] \<and>
   as_Tokens (Assemble demo_parts 14 (Some EstimateTokens)) = 14"
  by code_simp

theorem assemble_longest_prefix_witness:
  "as_Truncated (Assemble demo_parts 14 (Some EstimateTokens)) = [''tool_output''] \<and>
   (\<exists>k extra. stops_at 14 EstimateTokens (nonempty_parts demo_parts) k extra [''tool_output''] [])"
proof -
  have "int64 14" "(0::int) < 14" "\<forall>s. 0 \<le> EstimateTokens s" by (auto simp: int64_def EstimateTokens_def)
  from assemble_longest_prefix [OF this, of demo_parts] obtain k extra where
    "stops_at 14 EstimateTokens (nonempty_parts demo_parts) k extra
       (as_Truncated (Assemble demo_parts 14 (Some EstimateTokens)))
       (as_Dropped (Assemble demo_parts 14 (Some EstimateTokens)))" by (auto simp: Let_def)
  moreover have "as_Dropped (Assemble demo_parts 14 (Some EstimateTokens)) = []" by code_simp
  ultimately show ?thesis using demo_assembled by (intro conjI exI) auto
qed

text \<open>
  The separators between the segments are not counted: two parts that fill the budget give a text
  of more tokens than the budget.
\<close>

lemma separators_exceed_budget:
  "\<exists>parts. as_Tokens (Assemble parts 2 None) = 2 \<and> EstimateTokens (as_Text (Assemble parts 2 None)) = 3"
  by (rule exI [of _ "[\<lparr>pt_Name = ''a'', pt_Content = ''abcd'', pt_Trimmable = False\<rparr>,
      \<lparr>pt_Name = ''b'', pt_Content = ''efgh'', pt_Trimmable = False\<rparr>]"]) code_simp

text \<open>Without a budget every part that is not empty is included whole.\<close>

lemma assemble_unbounded:
  assumes "budget \<le> 0"
  shows "as_Included (Assemble parts budget c) = map pt_Name (nonempty_parts parts) \<and>
    as_Text (Assemble parts budget c) = Join (map pt_Content (nonempty_parts parts)) [CHR 0x0A, CHR 0x0A]"
proof -
  have "as_Included (fst (assemble_loop budget cnt parts (out, segs))) = as_Included out @ map pt_Name (nonempty_parts parts) \<and>
    snd (assemble_loop budget cnt parts (out, segs)) = segs @ map pt_Content (nonempty_parts parts)" for cnt out segs
    using assms by (induction parts arbitrary: out segs) (auto simp: Let_def)
  then show ?thesis by (simp add: Assemble_def Let_def split: prod.splits) (metis append_Nil fst_conv snd_conv Assembled.select_convs(3))
qed

subsection \<open>Isolation\<close>

text \<open>
  The contract of a scoped store: what a scope's search, a session's summary and its turns return
  depends only on what the store shows of that scope and that session.
\<close>

locale scoped_store =
  fixes st :: "'s BuildStore"
    and view :: "string \<Rightarrow> string \<Rightarrow> string \<Rightarrow> 's \<Rightarrow> 'v"
  assumes search_view: "view t i sid s = view t i sid s' \<Longrightarrow> fq_ScopeType q = t \<Longrightarrow> fq_ScopeID q = i \<Longrightarrow>
      fst (bs_SearchFacts st q s) = fst (bs_SearchFacts st q s') \<and>
      view t i sid (snd (bs_SearchFacts st q s)) = view t i sid (snd (bs_SearchFacts st q s'))"
    and summary_view: "view t i sid s = view t i sid s' \<Longrightarrow>
      fst (bs_GetSummary st sid s) = fst (bs_GetSummary st sid s') \<and>
      view t i sid (snd (bs_GetSummary st sid s)) = view t i sid (snd (bs_GetSummary st sid s'))"
    and turns_view: "view t i sid s = view t i sid s' \<Longrightarrow>
      fst (bs_ListTurns st sid n s) = fst (bs_ListTurns st sid n s')"
begin

definition same_view :: "TurnInput \<Rightarrow> 'a res \<times> 's \<Rightarrow> 'a res \<times> 's \<Rightarrow> bool" where
  "same_view inp a b \<longleftrightarrow> fst a = fst b \<and>
     view (ti_ScopeType inp) (ti_ScopeID inp) (ti_SessionID inp) (snd a) =
     view (ti_ScopeType inp) (ti_ScopeID inp) (ti_SessionID inp) (snd b)"

lemma memory_same:
  assumes "bd_store b = st" "same_view inp (r, s) (r, s')"
  shows "same_view inp (build_memory b inp s) (build_memory b inp s')"
proof -
  let ?q = "\<lparr>fq_ScopeType = ti_ScopeType inp, fq_ScopeID = ti_ScopeID inp, fq_Tags = ti_MemoryTags inp,
     fq_Limit = ti_MemoryTopK inp, fq_IncludeExpired = False\<rparr>"
  from assms(2) have "same_view inp (bs_SearchFacts st ?q s) (bs_SearchFacts st ?q s')"
    unfolding same_view_def by (intro search_view) simp_all
  with assms show ?thesis
    by (cases "bs_SearchFacts st ?q s"; cases "bs_SearchFacts st ?q s'")
      (auto simp: build_memory_def same_view_def split: sum.splits)
qed

lemma summary_same:
  assumes "bd_store b = st" "same_view inp (r, s) (r, s')"
  shows "same_view inp (build_summary b inp s) (build_summary b inp s')"
proof -
  from assms(2) have "same_view inp (bs_GetSummary st (ti_SessionID inp) s) (bs_GetSummary st (ti_SessionID inp) s')"
    unfolding same_view_def by (intro summary_view) simp
  with assms(1) show ?thesis
    by (cases "bs_GetSummary st (ti_SessionID inp) s"; cases "bs_GetSummary st (ti_SessionID inp) s'")
      (auto simp: build_summary_def same_view_def split: sum.splits)
qed

lemma turns_same:
  assumes "bd_store b = st" "same_view inp (r, s) (r, s')"
  shows "fst (build_turns b inp s) = fst (build_turns b inp s')"
proof -
  from assms(2) have "fst (bs_ListTurns st (ti_SessionID inp) (ti_RecentTurns inp) s) =
      fst (bs_ListTurns st (ti_SessionID inp) (ti_RecentTurns inp) s')"
    unfolding same_view_def by (intro turns_view) simp
  with assms(1) show ?thesis
    by (cases "bs_ListTurns st (ti_SessionID inp) (ti_RecentTurns inp) s";
        cases "bs_ListTurns st (ti_SessionID inp) (ti_RecentTurns inp) s'")
      (auto simp: build_turns_def split: sum.splits)
qed

lemma Build_same:
  assumes "bd_store b = st"
    and "view (ti_ScopeType inp) (ti_ScopeID inp) (ti_SessionID inp) s =
         view (ti_ScopeType inp) (ti_ScopeID inp) (ti_SessionID inp) s'"
  shows "fst (Build b inp s) = fst (Build b inp s')"
proof -
  obtain m t where m: "build_memory b inp s = (m, t)" by force
  from memory_same [OF assms(1), of inp "Inr ()" s s'] assms(2) m
  obtain t' where m': "build_memory b inp s' = (m, t')" and tv: "same_view inp (Inr (), t) (Inr (), t')"
    by (cases "build_memory b inp s'") (auto simp: same_view_def)
  obtain v u where v: "build_summary b inp t = (v, u)" by force
  from summary_same [OF assms(1) tv] v
  obtain u' where v': "build_summary b inp t' = (v, u')" and uv: "same_view inp (Inr (), u) (Inr (), u')"
    by (cases "build_summary b inp t'") (auto simp: same_view_def)
  from turns_same [OF assms(1) uv] obtain w x x' where
    "build_turns b inp u = (w, x)" "build_turns b inp u' = (w, x')"
    by (metis prod.collapse)
  with m m' v v' show ?thesis by (simp add: Build_def and_then_def split: sum.splits)
qed

end

text \<open>The repository is a scoped store: a scope's facts, and the summary and turns of a session.\<close>

definition repo_BuildStore :: "pg \<Rightarrow> db BuildStore" where
  "repo_BuildStore p =
     \<lparr>bs_SearchFacts = SearchFacts p, bs_GetSummary = GetSummary p, bs_ListTurns = ListTurns p,
      bs_UpsertSummary = UpsertSummary p, bs_WriteFact = WriteFact p\<rparr>"

definition scope_view ::
  "pg \<Rightarrow> string \<Rightarrow> string \<Rightarrow> string \<Rightarrow> db \<Rightarrow> Fact list \<times> Summary list \<times> Turn list \<times> nat" where
  "scope_view p t i sid d =
     (filter (\<lambda>f. fct_ScopeType f = t \<and> fct_ScopeID f = i) (memory_facts d),
      filter (\<lambda>v. pg_uuid_in p sid = Some (sum_SessionID v)) (summaries d),
      filter (\<lambda>v. pg_uuid_in p sid = Some (trn_SessionID v)) (turns d), stmts d)"

lemma fact_matches_filter:
  "filter (fact_matches q n) fs =
     filter (fact_matches q n) (filter (\<lambda>f. fct_ScopeType f = fq_ScopeType q \<and> fct_ScopeID f = fq_ScopeID q) fs)"
  by (simp add: conj_commute) (rule filter_cong, auto simp: fact_matches_def)

lemma fst_exec_select:
  assumes "stmts s = stmts s'" "\<And>n. f n (s\<lparr>stmts := Suc n\<rparr>) = f n (s'\<lparr>stmts := Suc n\<rparr>)"
  shows "fst (wrap_err m (exec p (select f) s)) = fst (wrap_err m (exec p (select f) s'))"
    "fst (not_found_or m (exec p (select f) s)) = fst (not_found_or m (exec p (select f) s'))"
proof -
  have "fst (exec p (select f) s) = fst (exec p (select f) s')"
    using assms by (auto simp: exec_def select_def Let_def split: option.splits sum.splits)
  then show "fst (wrap_err m (exec p (select f) s)) = fst (wrap_err m (exec p (select f) s'))"
    "fst (not_found_or m (exec p (select f) s)) = fst (not_found_or m (exec p (select f) s'))"
    by (simp_all add: wrap_err_def not_found_or_def)
qed

lemma scope_view_stmts:
  "scope_view p t i sid s = scope_view p t i sid s' \<Longrightarrow>
     scope_view p t i sid (s\<lparr>stmts := Suc (stmts s)\<rparr>) = scope_view p t i sid (s'\<lparr>stmts := Suc (stmts s')\<rparr>)"
  by (simp add: scope_view_def)

interpretation repo_scoped: scoped_store "repo_BuildStore p" "scope_view p" for p
proof unfold_locales
  fix t i sid and s s' :: db
  assume v: "scope_view p t i sid s = scope_view p t i sid s'"
  then have n: "stmts s = stmts s'" by (simp add: scope_view_def)
  have sums: "filter (\<lambda>v. sum_SessionID v = u) (summaries s) = filter (\<lambda>v. sum_SessionID v = u) (summaries s')"
    and trns: "filter (\<lambda>v. trn_SessionID v = u) (turns s) = filter (\<lambda>v. trn_SessionID v = u) (turns s')"
    if "pg_uuid_in p sid = Some u" for u
    using v that by (simp_all add: scope_view_def eq_commute [of u])
  show "fst (bs_SearchFacts (repo_BuildStore p) q s) = fst (bs_SearchFacts (repo_BuildStore p) q s') \<and>
      scope_view p t i sid (snd (bs_SearchFacts (repo_BuildStore p) q s)) =
      scope_view p t i sid (snd (bs_SearchFacts (repo_BuildStore p) q s'))"
    if "fq_ScopeType q = t" "fq_ScopeID q = i" for q
  proof -
    have fm: "filter (fact_matches q m) (memory_facts s) = filter (fact_matches q m) (memory_facts s')" for m
      using v that by (subst (1 2) fact_matches_filter) (simp add: scope_view_def)
    have "fst (SearchFacts p q s) = fst (SearchFacts p q s')"
    proof (cases "validScope (fq_ScopeType q)")
      case True
      then show ?thesis unfolding SearchFacts_eq
        by (simp only: not_True_eq_False if_False) (rule fst_exec_select(1) [OF n], simp add: fm)
    qed (simp add: SearchFacts_eq)
    moreover have "snd (SearchFacts p q x) = (if validScope (fq_ScopeType q) then x\<lparr>stmts := Suc (stmts x)\<rparr> else x)" for x
      unfolding SearchFacts_eq by simp
    ultimately show ?thesis using v scope_view_stmts [OF v] by (simp add: repo_BuildStore_def)
  qed
  have "fst (GetSummary p sid s) = fst (GetSummary p sid s')"
    unfolding GetSummary_def
    by (rule fst_exec_select(2) [OF n]) (cases "pg_uuid_in p sid", simp_all add: uuid_arg_def sums)
  with scope_view_stmts [OF v] show "fst (bs_GetSummary (repo_BuildStore p) sid s) = fst (bs_GetSummary (repo_BuildStore p) sid s') \<and>
      scope_view p t i sid (snd (bs_GetSummary (repo_BuildStore p) sid s)) =
      scope_view p t i sid (snd (bs_GetSummary (repo_BuildStore p) sid s'))"
    by (simp add: repo_BuildStore_def GetSummary_def)
  have "fst (ListTurns p sid m s) = fst (ListTurns p sid m s')" for m
    unfolding ListTurns_def
    by (rule fst_exec_select(1) [OF n]) (cases "pg_uuid_in p sid", simp_all add: uuid_arg_def trns)
  then show "fst (bs_ListTurns (repo_BuildStore p) sid m s) = fst (bs_ListTurns (repo_BuildStore p) sid m s')" for m
    by (simp add: repo_BuildStore_def)
qed

text \<open>
  C24. A turn's context is isolated: whatever facts other users, committees or the organisation have,
  and whatever other sessions contain, two databases that agree on the facts of the turn's scope and
  on the summary and turns of its session give the same assembled context (or the same error).
\<close>

theorem Build_isolated:
  assumes "scope_view p (ti_ScopeType inp) (ti_ScopeID inp) (ti_SessionID inp) d =
           scope_view p (ti_ScopeType inp) (ti_ScopeID inp) (ti_SessionID inp) d'"
  shows "fst (Build (NewBuilder (repo_BuildStore p) counter) inp d) =
         fst (Build (NewBuilder (repo_BuildStore p) counter) inp d')"
  by (rule repo_scoped.Build_same [OF _ assms]) (simp add: NewBuilder_def)

definition demo_turn :: TurnInput where
  "demo_turn =
     \<lparr>ti_SessionID = ''s'', ti_ScopeType = ''user'', ti_ScopeID = ''ada'', ti_MemoryTags = [], ti_MemoryTopK = 5,
      ti_RecentTurns = 3, ti_SystemPrompt = ''be brief'', ti_GooseHints = [], ti_RecipeInstructions = [],
      ti_ToolOutput = [], ti_Budget = 100\<rparr>"

definition demo_memo :: "string \<Rightarrow> string \<Rightarrow> Fact" where
  "demo_memo owner v = \<lparr>fct_ID = owner, fct_ScopeType = ''user'', fct_ScopeID = owner, fct_Key = ''likes'', fct_Value = v,
     fct_Tags = [''food''], fct_Source = [], fct_CreatedAt = 0, fct_ExpiresAt = None\<rparr>"

lemma demo_built:
  "fst (Build (NewBuilder (repo_BuildStore demo_pg) None) demo_turn (empty_db\<lparr>memory_facts := [demo_memo ''ada'' ''tea'']\<rparr>)) =
     Inr \<lparr>as_Text = ''be brief'' @ [CHR 0x0A, CHR 0x0A] @ ''Relevant memory:'' @ [CHR 0x0A] @ ''- likes: tea [food]'',
          as_Tokens = 11, as_Included = [''system'', ''memory''], as_Truncated = [], as_Dropped = []\<rparr>"
  by code_simp

theorem Build_isolated_witness:
  "\<exists>a. fst (Build (NewBuilder (repo_BuildStore demo_pg) None) demo_turn
        (empty_db\<lparr>memory_facts := [demo_memo ''eve'' ''secret'', demo_memo ''ada'' ''tea'']\<rparr>)) = Inr a \<and>
     as_Included a = [''system'', ''memory'']"
proof -
  have "scope_view demo_pg (ti_ScopeType demo_turn) (ti_ScopeID demo_turn) (ti_SessionID demo_turn)
      (empty_db\<lparr>memory_facts := [demo_memo ''eve'' ''secret'', demo_memo ''ada'' ''tea'']\<rparr>) =
    scope_view demo_pg (ti_ScopeType demo_turn) (ti_ScopeID demo_turn) (ti_SessionID demo_turn)
      (empty_db\<lparr>memory_facts := [demo_memo ''ada'' ''tea'']\<rparr>)"
    by (simp add: scope_view_def demo_turn_def demo_memo_def empty_db_def)
  from Build_isolated [OF this, of None] demo_built show ?thesis by simp
qed

subsection \<open>Writing back\<close>

lemma persist_facts_ok:
  assumes "persist_facts (NewBuilder (repo_BuildStore p) c) ins d = (Inr (), d')"
  shows "summaries d' = summaries d \<and> (\<exists>fs. memory_facts d' = memory_facts d @ fs \<and>
    list_all2 (\<lambda>inp f. fct_ScopeType f = fin_ScopeType inp \<and> fct_ScopeID f = fin_ScopeID inp \<and>
      fct_Key f = fin_Key inp \<and> fct_Value f = fin_Value inp \<and> fct_Tags f = fin_Tags inp \<and>
      fct_ExpiresAt f = fin_ExpiresAt inp) ins fs)"
  using assms
proof (induction ins arbitrary: d)
  case (Cons i ins)
  from Cons.prems obtain f d1 where w: "WriteFact p i d = (Inr f, d1)"
    and rest: "persist_facts (NewBuilder (repo_BuildStore p) c) ins d1 = (Inr (), d')"
    by (auto simp: NewBuilder_def repo_BuildStore_def split: prod.splits sum.splits)
  from w have f: "memory_facts d1 = memory_facts d @ [f]" "summaries d1 = summaries d"
      "fct_ScopeType f = fin_ScopeType i" "fct_ScopeID f = fin_ScopeID i" "fct_Key f = fin_Key i"
      "fct_Value f = fin_Value i" "fct_Tags f = fin_Tags i" "fct_ExpiresAt f = fin_ExpiresAt i"
    by (auto simp: WriteFact_eq Let_def dest!: exec_Inr split: if_splits)
  from Cons.IH [OF rest] f show ?case by fastforce
qed auto

text \<open>
  A turn's result is kept: when \<open>PersistTurnResult\<close> succeeds, the new facts are appended to the
  memory in order, each with the scope, key, value, tags and expiry given, nothing already
  there is touched, and a summary that is not empty is what \<open>GetSummary\<close> of the session returns
  from then on.
\<close>

theorem PersistTurnResult_kept:
  assumes "PersistTurnResult (NewBuilder (repo_BuildStore p) c) sid summary ins d = (Inr (), d')"
    and "distinct (map sum_SessionID (summaries d))"
  shows "(\<exists>fs. memory_facts d' = memory_facts d @ fs \<and>
      list_all2 (\<lambda>inp f. fct_ScopeType f = fin_ScopeType inp \<and> fct_ScopeID f = fin_ScopeID inp \<and>
        fct_Key f = fin_Key inp \<and> fct_Value f = fin_Value inp \<and> fct_Tags f = fin_Tags inp \<and>
        fct_ExpiresAt f = fin_ExpiresAt inp) ins fs) \<and>
    (summary \<noteq> [] \<and> pg_fault p (stmts d') = None \<longrightarrow>
      (\<exists>v. fst (GetSummary p sid d') = Inr v \<and> sum_Summary v = summary))"
proof (cases "summary = []")
  case True
  with persist_facts_ok assms(1) show ?thesis by (fastforce simp: PersistTurnResult_def)
next
  case False
  with assms(1) obtain v d1 where u: "UpsertSummary p sid summary d = (Inr v, d1)"
    and rest: "persist_facts (NewBuilder (repo_BuildStore p) c) ins d1 = (Inr (), d')"
    by (auto simp: PersistTurnResult_def NewBuilder_def repo_BuildStore_def split: prod.splits sum.splits)
  obtain s where s: "pg_uuid_in p sid = Some s" "v = \<lparr>sum_SessionID = s, sum_Summary = summary, sum_UpdatedAt = pg_now p (stmts d)\<rparr>"
    "memory_facts d1 = memory_facts d"
    "summaries d1 = (if s \<in> sum_SessionID ` set (summaries d)
       then upd_where (\<lambda>r. sum_SessionID r = s) (\<lambda>r. v) (summaries d) else summaries d @ [v])"
    using u by (auto simp: UpsertSummary_def uuid_arg_def Let_def dest!: exec_Inr split: option.splits if_splits)
  have v: "v \<in> set (summaries d1)" "sum_SessionID v = s" "sum_Summary v = summary"
    using s by (auto simp: set_upd_where)
  have "distinct (map sum_SessionID (summaries d1))"
    using s assms(2) map_upd_where_key [of "summaries d" "\<lambda>r. sum_SessionID r = s" sum_SessionID "\<lambda>r. v"] by auto
  then have "filter (\<lambda>r. sum_SessionID r = s) (summaries d1) = [v]"
    using filter_key_unique [of sum_SessionID "summaries d1" v] v by simp
  moreover have "summaries d' = summaries d1" using persist_facts_ok [OF rest] by simp
  ultimately have "pg_fault p (stmts d') = None \<longrightarrow> fst (GetSummary p sid d') = Inr v"
    by (simp add: GetSummary_def not_found_or_def exec_def select_def uuid_arg_def s)
  with persist_facts_ok [OF rest] s(3) v(3) show ?thesis by auto
qed

definition demo_session_db :: db where
  "demo_session_db = snd (CreateSession demo_pg [] ''C1'' ''17.5'' ''triage'' empty_db)"

definition demo_fact_input :: FactInput where
  "demo_fact_input = \<lparr>fin_ScopeType = ''user'', fin_ScopeID = ''ada'', fin_Key = ''likes'', fin_Value = ''tea'',
     fin_Tags = [], fin_Source = [], fin_ExpiresAt = None\<rparr>"

theorem PersistTurnResult_kept_witness:
  "\<exists>d' fs v. PersistTurnResult (NewBuilder (repo_BuildStore demo_pg) None) ''u'' ''so far'' [demo_fact_input] demo_session_db = (Inr (), d') \<and>
     memory_facts d' = fs \<and> length fs = 1 \<and> fst (GetSummary demo_pg ''u'' d') = Inr v \<and> sum_Summary v = ''so far''"
proof -
  let ?run = "PersistTurnResult (NewBuilder (repo_BuildStore demo_pg) None) ''u'' ''so far'' [demo_fact_input] demo_session_db"
  have ok: "fst ?run = Inr ()" by code_simp
  then obtain d' where r: "?run = (Inr (), d')" by (metis prod.collapse)
  have "distinct (map sum_SessionID (summaries demo_session_db))" and m: "memory_facts demo_session_db = []"
    by code_simp+
  from PersistTurnResult_kept [OF r this(1)] m r show ?thesis
    by (auto simp: list_all2_Cons1)
qed

end
