(* ===== verification/MemoryMCP.thy ===== *)
theory MemoryMCP
  imports Assembly Http
begin

text \<open>
  The Memory MCP server: its three tools (services/session-memory/internal/memory/tools.go), the
  bearer check of cmd/memory-mcp/main.go and the retention job of cmd/retention/main.go.
\<close>

subsection \<open>The tools\<close>

record WriteFactInput =
  wf_ScopeType :: string
  wf_ScopeID :: string
  wf_Key :: string
  wf_Value :: string
  wf_Tags :: "string list"
  wf_Source :: string
  wf_ExpiresAt :: string

record SearchInput =
  si_ScopeType :: string
  si_ScopeID :: string
  si_Tags :: "string list"
  si_Limit :: int

record ForgetInput =
  fi_ID :: string
  fi_ScopeType :: string
  fi_ScopeID :: string
  fi_Key :: string

text \<open>\<open>parse_time\<close> is \<open>time.Parse(time.RFC3339, _)\<close>.\<close>

definition write_fact :: "pg \<Rightarrow> (string \<Rightarrow> goerr + int) \<Rightarrow> WriteFactInput \<Rightarrow> db \<Rightarrow> Fact res \<times> db" where
  "write_fact p parse_time inp d =
     (let fact = \<lparr>fin_ScopeType = wf_ScopeType inp, fin_ScopeID = wf_ScopeID inp, fin_Key = wf_Key inp,
                  fin_Value = wf_Value inp, fin_Tags = wf_Tags inp, fin_Source = wf_Source inp,
                  fin_ExpiresAt = None\<rparr>
      in if wf_ExpiresAt inp \<noteq> [] then
           (case parse_time (wf_ExpiresAt inp) of
              Inl e \<Rightarrow> (Inl (Wrap ''memory: invalid expires_at: '' [] e), d)
            | Inr t \<Rightarrow> WriteFact p (fact\<lparr>fin_ExpiresAt := Some t\<rparr>) d)
         else WriteFact p fact d)"

definition search :: "pg \<Rightarrow> SearchInput \<Rightarrow> db \<Rightarrow> Fact list res \<times> db" where
  "search p inp d =
     SearchFacts p \<lparr>fq_ScopeType = si_ScopeType inp, fq_ScopeID = si_ScopeID inp, fq_Tags = si_Tags inp,
       fq_Limit = si_Limit inp, fq_IncludeExpired = False\<rparr> d"

definition forget :: "pg \<Rightarrow> ForgetInput \<Rightarrow> db \<Rightarrow> int res \<times> db" where
  "forget p inp d =
     (if fi_ID inp \<noteq> [] then
        (case ForgetFact p (fi_ID inp) d of
           (Inl e, d') \<Rightarrow> (Inl e, d')
         | (Inr ok, d') \<Rightarrow> (Inr (if ok then 1 else 0), d'))
      else if fi_ScopeType inp \<noteq> [] \<and> fi_ScopeID inp \<noteq> [] \<and> fi_Key inp \<noteq> [] then
        ForgetFactsByKey p (fi_ScopeType inp) (fi_ScopeID inp) (fi_Key inp) d
      else (Inl (Errorf ''memory: forget requires either id or (scope_type, scope_id, key)'' []), d))"

text \<open>The bearer check of the MCP servers: an empty token lets every caller in.\<close>

definition withAuth :: "string \<Rightarrow> (Request \<Rightarrow> 's \<Rightarrow> Response \<times> 's) \<Rightarrow> Request \<Rightarrow> 's \<Rightarrow> Response \<times> 's" where
  "withAuth token next r s =
     (if token \<noteq> [] \<and> req_Header r ''Authorization'' \<noteq> ''Bearer '' @ token
      then (\<lparr>resp_Code = 401, resp_Body = Raw_Bad (''unauthorized'' @ [CHR 0x0A])\<rparr>, s)
      else next r s)"

lemma withAuth_open: "withAuth [] h r s = h r s"
  by (simp add: withAuth_def)

subsection \<open>The retention job\<close>

text \<open>
  The exit code and the tables it leaves.  \<open>opened\<close> is the outcome of \<open>store.Open\<close>, \<open>now\<close> the clock
  and \<open>add_days\<close> is \<open>Time.AddDate(0, 0, _)\<close>.
\<close>

definition retention ::
  "pg \<Rightarrow> (string \<Rightarrow> string) \<Rightarrow> bool \<Rightarrow> int \<Rightarrow> (int \<Rightarrow> int \<Rightarrow> int) \<Rightarrow> db \<Rightarrow> int \<times> db" where
  "retention p env opened now add_days d =
     (if env ''DATABASE_URL'' = [] then (1, d)
      else
        (let retentionDays = envInt env ''AUDIT_RETENTION_DAYS'' 365
         in if \<not> opened then (1, d)
            else (case DeleteExpiredFacts p now d of
                    (Inl e, d') \<Rightarrow> (1, d')
                  | (Inr facts, d') \<Rightarrow>
                      (let cutoff = add_days now (wrap64 (- retentionDays))
                       in (case AgeOutAudit p cutoff d' of
                             (Inl e, d'') \<Rightarrow> (1, d'')
                           | (Inr audit, d'') \<Rightarrow> (0, d''))))))"

subsection \<open>Properties\<close>

lemma write_fact_ok:
  assumes "write_fact p parse_time inp d = (Inr f, d')"
  shows "memory_facts d' = memory_facts d @ [f] \<and> fct_ScopeType f = wf_ScopeType inp \<and>
    fct_ScopeID f = wf_ScopeID inp \<and> fct_Key f = wf_Key inp \<and> fct_Value f = wf_Value inp \<and> fct_Tags f = wf_Tags inp \<and>
    validScope (wf_ScopeType inp) \<and> (wf_ExpiresAt inp = [] \<longrightarrow> fct_ExpiresAt f = None) \<and>
    (wf_ExpiresAt inp \<noteq> [] \<longrightarrow> (\<exists>t. parse_time (wf_ExpiresAt inp) = Inr t \<and> fct_ExpiresAt f = Some t))"
  using assms
  by (auto simp: write_fact_def WriteFact_eq Let_def dest!: exec_Inr split: if_splits sum.splits)

lemma forget_by_key:
  assumes "forget p inp d = (Inr n, d')" "fi_ID inp = []"
  shows "fi_ScopeType inp \<noteq> [] \<and> fi_ScopeID inp \<noteq> [] \<and> fi_Key inp \<noteq> [] \<and>
    (let hit = (\<lambda>f. fct_ScopeType f = fi_ScopeType inp \<and> fct_ScopeID f = fi_ScopeID inp \<and> fct_Key f = fi_Key inp)
     in n = int (length (filter hit (memory_facts d))) \<and> memory_facts d' = filter (\<lambda>f. \<not> hit f) (memory_facts d))"
  using assms
  by (auto simp: forget_def ForgetFactsByKey_def Let_def dest!: exec_Inr split: if_splits)

text \<open>
  C25. The memory tools round trip: a fact written without an expiry is found by the next search of
  its scope (with no tags or one of its own), and forgetting its key in that scope removes it and every
  other fact of that scope and key, counts them, keeps all other facts, and no later search of the
  scope shows that key.
\<close>

theorem memory_round_trip:
  assumes "write_fact p parse_time inp d = (Inr f, d1)" "wf_ExpiresAt inp = []"
    and "tags = [] \<or> set tags \<inter> set (wf_Tags inp) \<noteq> {}"
    and "search p \<lparr>si_ScopeType = wf_ScopeType inp, si_ScopeID = wf_ScopeID inp, si_Tags = tags, si_Limit = 0\<rparr> d1 = (Inr fs, d2)"
    and "forget p \<lparr>fi_ID = [], fi_ScopeType = wf_ScopeType inp, fi_ScopeID = wf_ScopeID inp, fi_Key = wf_Key inp\<rparr> d2 = (Inr n, d3)"
  shows "f \<in> set fs \<and> fct_Key f = wf_Key inp \<and> fct_Value f = wf_Value inp \<and> 0 < n \<and>
    memory_facts d3 = filter (\<lambda>g. \<not> (fct_ScopeType g = wf_ScopeType inp \<and> fct_ScopeID g = wf_ScopeID inp \<and> fct_Key g = wf_Key inp))
      (memory_facts d @ [f]) \<and>
    n = int (length (memory_facts d)) + 1 - int (length (memory_facts d3)) \<and>
    (\<forall>q gs d4. search p q d3 = (Inr gs, d4) \<and> si_ScopeType q = wf_ScopeType inp \<and> si_ScopeID q = wf_ScopeID inp \<longrightarrow>
       wf_Key inp \<notin> fct_Key ` set gs)"
proof -
  let ?hit = "\<lambda>g. fct_ScopeType g = wf_ScopeType inp \<and> fct_ScopeID g = wf_ScopeID inp \<and> fct_Key g = wf_Key inp"
  note w = write_fact_ok [OF assms(1)]
  let ?q = "\<lparr>fq_ScopeType = wf_ScopeType inp, fq_ScopeID = wf_ScopeID inp, fq_Tags = tags, fq_Limit = 0, fq_IncludeExpired = False\<rparr>"
  from assms(4) have s: "SearchFacts p ?q d1 = (Inr fs, d2)" by (simp add: search_def)
  have "f \<in> set fs"
    unfolding SearchFacts_complete [OF s, simplified] using w assms(2,3)
    by (auto simp: fact_matches_def live_at_def)
  moreover have m2: "memory_facts d2 = memory_facts d @ [f]" using SearchFacts_rows(2) [OF s] w by simp
  note k = forget_by_key [OF assms(5), simplified, unfolded Let_def m2]
  from k have m3: "memory_facts d3 = filter (\<lambda>g. \<not> ?hit g) (memory_facts d @ [f])" by simp
  have n: "n = int (length (filter ?hit (memory_facts d @ [f])))" using k by simp
  have cnt: "n = int (length (memory_facts d)) + 1 - int (length (memory_facts d3))"
    unfolding n m3 using sum_length_filter_compl [of ?hit "memory_facts d @ [f]"] by simp
  have "0 < n" unfolding n using w by simp
  have gone: "wf_Key inp \<notin> fct_Key ` set gs"
    if "search p q d3 = (Inr gs, d4)" "si_ScopeType q = wf_ScopeType inp" "si_ScopeID q = wf_ScopeID inp" for q gs d4
  proof
    assume "wf_Key inp \<in> fct_Key ` set gs"
    then obtain g where "g \<in> set gs" "fct_Key g = wf_Key inp" by auto
    with SearchFacts_mem [OF that(1) [unfolded search_def], of g] that(2,3) show False
      by (auto simp: m3 fact_matches_def split: if_splits)
  qed
  show ?thesis using calculation w m3 cnt \<open>0 < n\<close> gone by blast
qed

definition demo_write :: WriteFactInput where
  "demo_write = \<lparr>wf_ScopeType = ''user'', wf_ScopeID = ''ada'', wf_Key = ''likes'', wf_Value = ''tea'',
     wf_Tags = [''food''], wf_Source = [], wf_ExpiresAt = []\<rparr>"

theorem memory_round_trip_witness:
  "\<exists>f d1 fs d2 n d3. write_fact demo_pg (\<lambda>s. Inl (External ''bad time'')) demo_write empty_db = (Inr f, d1) \<and>
     search demo_pg \<lparr>si_ScopeType = ''user'', si_ScopeID = ''ada'', si_Tags = [''food''], si_Limit = 0\<rparr> d1 = (Inr fs, d2) \<and>
     f \<in> set fs \<and>
     forget demo_pg \<lparr>fi_ID = [], fi_ScopeType = ''user'', fi_ScopeID = ''ada'', fi_Key = ''likes''\<rparr> d2 = (Inr n, d3) \<and>
     n = 1 \<and> memory_facts d3 = []"
proof -
  let ?w = "write_fact demo_pg (\<lambda>s. Inl (External ''bad time'')) demo_write empty_db"
  let ?s = "search demo_pg \<lparr>si_ScopeType = ''user'', si_ScopeID = ''ada'', si_Tags = [''food''], si_Limit = 0\<rparr>"
  let ?f = "forget demo_pg \<lparr>fi_ID = [], fi_ScopeType = ''user'', fi_ScopeID = ''ada'', fi_Key = ''likes''\<rparr>"
  have ok: "is_ok (fst ?w)" "is_ok (fst (?s (snd ?w)))" by code_simp+
  obtain f d1 where w: "?w = (Inr f, d1)" using ok(1) by (metis is_ok_iff prod.collapse)
  then have d1: "d1 = snd ?w" by simp
  obtain fs d2 where s: "?s d1 = (Inr fs, d2)" using ok(2) unfolding d1 by (metis is_ok_iff prod.collapse)
  then have d2: "d2 = snd (?s d1)" by simp
  have "is_ok (fst (?f (snd (?s (snd ?w)))))" by code_simp
  then obtain n d3 where g: "?f d2 = (Inr n, d3)" unfolding d2 d1 by (metis is_ok_iff prod.collapse)
  have "wf_ExpiresAt demo_write = []" "[''food''] = [] \<or> set [''food''] \<inter> set (wf_Tags demo_write) \<noteq> {}"
    by (simp_all add: demo_write_def)
  from memory_round_trip [OF w this, of fs d2 n d3] s g have r: "f \<in> set fs" "n = 1" "memory_facts d3 = []"
    by (auto simp: demo_write_def empty_db_def write_fact_ok [OF w])
  show ?thesis by (intro exI conjI, rule w, rule s, rule r(1), rule g, rule r(2), rule r(3))
qed

lemma AgeOutAudit_tables:
  "AgeOutAudit p before d = (Inr n, d') \<Longrightarrow>
     same_tables (d\<lparr>audit_log := filter (\<lambda>r. before \<le> lr_created_at r) (audit_log d)\<rparr>) d'"
  by (auto simp: AgeOutAudit_def same_tables_def not_less dest!: exec_Inr)

lemma DeleteExpiredFacts_tables:
  "DeleteExpiredFacts p before d = (Inr n, d') \<Longrightarrow>
     same_tables (d\<lparr>memory_facts := filter (\<lambda>f. \<not> expired_by before f) (memory_facts d)\<rparr>) d'"
  by (auto simp: DeleteExpiredFacts_def same_tables_def dest!: exec_Inr)

text \<open>
  The retention job succeeds with its whole effect or reports failure: exit code 0 means that
  exactly the facts expired at the start of the job and exactly the audit rows older than the cutoff are
  gone and every other table is untouched; exit code 1 means that no audit row was removed.
\<close>

theorem retention_job:
  assumes "retention p env opened now add_days d = (code, d')"
  shows "if code = 0
    then (let cutoff = add_days now (wrap64 (- envInt env ''AUDIT_RETENTION_DAYS'' 365))
          in same_tables (d\<lparr>memory_facts := filter (\<lambda>f. \<not> expired_by now f) (memory_facts d),
                            audit_log := filter (\<lambda>r. cutoff \<le> lr_created_at r) (audit_log d)\<rparr>) d')
    else code = 1 \<and> audit_log d' = audit_log d"
proof -
  have same: "audit_log d' = audit_log d" if "DeleteExpiredFacts p now d = (Inl e, d')" for e
    using that by (auto simp: DeleteExpiredFacts_def wrap_err_Inl dest!: exec_Inl)
  have aged: "audit_log d2 = audit_log d1" if "AgeOutAudit p c d1 = (Inl e, d2)" for c d1 d2 e
    using that by (auto simp: AgeOutAudit_def wrap_err_Inl dest!: exec_Inl)
  let ?cutoff = "add_days now (wrap64 (- envInt env ''AUDIT_RETENTION_DAYS'' 365))"
  show ?thesis
  proof (cases "env ''DATABASE_URL'' = [] \<or> \<not> opened")
    case True
    then have "(code, d') = (1, d)" using assms by (auto simp: retention_def Let_def split: if_splits)
    then show ?thesis by simp
  next
    case False
    obtain r d1 where del: "DeleteExpiredFacts p now d = (r, d1)" by force
    obtain q d2 where age: "AgeOutAudit p ?cutoff d1 = (q, d2)" by force
    show ?thesis
    proof (cases r)
      case (Inl e)
      with assms False del same show ?thesis by (auto simp: retention_def Let_def)
    next
      case (Inr n)
      note t1 = DeleteExpiredFacts_tables [OF del [unfolded Inr]]
      then have log: "audit_log d1 = audit_log d" by (auto dest: same_tablesD)
      show ?thesis
      proof (cases q)
        case (Inl e)
        with assms False del Inr age log aged [of ?cutoff d1 e d2] show ?thesis by (auto simp: retention_def Let_def)
      next
        case (Inr m)
        note t2 = AgeOutAudit_tables [OF age [unfolded Inr]]
        have "code = 0" "d' = d2" using assms False del \<open>r = Inr n\<close> age Inr by (auto simp: retention_def Let_def)
        moreover have "same_tables (d\<lparr>memory_facts := filter (\<lambda>f. \<not> expired_by now f) (memory_facts d),
            audit_log := filter (\<lambda>r. ?cutoff \<le> lr_created_at r) (audit_log d)\<rparr>) d2"
          using t1 t2 by (cases d, cases d1, cases d2) (auto simp: same_tables_def)
        ultimately show ?thesis by (simp add: Let_def)
      qed
    qed
  qed
qed

definition demo_before :: db where
  "demo_before = empty_db\<lparr>memory_facts := [demo_memo ''ada'' ''tea''\<lparr>fct_ExpiresAt := Some 4\<rparr>, demo_memo ''eve'' ''x''],
     audit_log := [\<lparr>lr_id = 1, lr_actor = ''ada'', lr_tool = ''t'', lr_args_redacted = JNull, lr_result = ''ok'',
       lr_latency_ms = 1, lr_created_at = -400\<rparr>]\<rparr>"

definition retention_env :: "string \<Rightarrow> string" where
  "retention_env k = (if k = ''DATABASE_URL'' then ''pg'' else [])"

definition demo_job :: "int \<times> db" where
  "demo_job = retention demo_pg retention_env True 5 (+) demo_before"

theorem retention_job_witness:
  "fst demo_job = 0 \<and> map fct_ID (memory_facts (snd demo_job)) = [''eve''] \<and> audit_log (snd demo_job) = []"
proof -
  have c: "fst demo_job = 0" by code_simp
  obtain code d' where j: "demo_job = (code, d')" by force
  let ?cutoff = "5 + wrap64 (- envInt retention_env ''AUDIT_RETENTION_DAYS'' 365)"
  have code: "code = 0" using c unfolding j by simp
  have "envInt retention_env ''AUDIT_RETENTION_DAYS'' 365 = 365" by (simp add: envInt_def retention_env_def)
  then have cutoff: "?cutoff = -360" by (simp only:) (simp add: int64_def)
  have t: "same_tables (demo_before\<lparr>memory_facts := filter (\<lambda>f. \<not> expired_by 5 f) (memory_facts demo_before),
      audit_log := filter (\<lambda>r. ?cutoff \<le> lr_created_at r) (audit_log demo_before)\<rparr>) d'"
    using retention_job [OF j [unfolded demo_job_def]] unfolding code if_P [OF refl] Let_def .
  have "memory_facts d' = filter (\<lambda>f. \<not> expired_by 5 f) (memory_facts demo_before)"
    using same_tablesD(6) [OF t] by simp
  moreover have "audit_log d' = filter (\<lambda>r. -360 \<le> lr_created_at r) (audit_log demo_before)"
    using same_tablesD(8) [OF t] unfolding cutoff by simp
  ultimately show ?thesis unfolding j by (simp add: expired_by_def demo_memo_def demo_before_def code)
qed

end
