(* ===== verification/McpServers.thy ===== *)
theory McpServers
  imports Workspace Template MemoryMCP GatewayServer
begin

text \<open>
  The MCP servers as processes behind the gateway: the HTTP front their \<open>main\<close> functions share
  (cmd/server/main.go of each, cmd/memory-mcp/main.go), the tools of the memory and finance servers, and
  the way a call of the gateway takes through its downstream client to a tool of the Workspace server.
  The MCP library that carries a request to a handler is an argument, \<open>mcp_library\<close> what is relied on.
\<close>

subsection \<open>The HTTP front\<close>

definition mcp_ok :: "string \<Rightarrow> Request \<Rightarrow> bool" where
  "mcp_ok token r \<longleftrightarrow> token = [] \<or> req_Header r ''Authorization'' = ''Bearer '' @ token"

definition plain :: "int \<Rightarrow> string \<Rightarrow> Response" where
  "plain code txt = \<lparr>resp_Code = code, resp_Body = Raw_Bad (txt @ [CHR 0x0A])\<rparr>"

interpretation mcp: gate "mcp_ok token" "\<lambda>r h s. withAuth token h r s" "plain 401 ''unauthorized''" for token
  by unfold_locales (auto simp: withAuth_def mcp_ok_def plain_def)

text \<open>The routes of every server: the protocol behind the bearer check, and the health check.\<close>

definition mcp_mux :: "string \<Rightarrow> (Request \<Rightarrow> 's \<Rightarrow> Response \<times> 's) \<Rightarrow> string \<Rightarrow> Request \<Rightarrow> 's \<Rightarrow> Response \<times> 's" where
  "mcp_mux token mcpHandler path r s =
     (if path = ''/mcp'' then withAuth token mcpHandler r s
      else if path = ''/healthz'' then (writeJSON 200 (JObj [(''status'', JStr ''ok'')]), s)
      else (plain 404 ''404 page not found'', s))"

lemma mcp_mux_guarded: "snd (mcp_mux token h path r s) \<noteq> s \<Longrightarrow> path = ''/mcp'' \<and> mcp_ok token r"
  using mcp.effect_needs_ok [of token h r s] by (auto simp: mcp_mux_def split: if_splits)

subsection \<open>The tools of the memory and finance servers\<close>

datatype memory_input = WriteFactTool WriteFactInput | SearchTool SearchInput | ForgetTool ForgetInput

datatype memory_output = FactOut Fact | SearchOut "Fact list" | ForgetOut int

fun memory_tool :: "memory_input \<Rightarrow> string" where
  "memory_tool (WriteFactTool i) = ''write_fact''"
| "memory_tool (SearchTool i) = ''search''"
| "memory_tool (ForgetTool i) = ''forget''"

fun memory_handle :: "pg \<Rightarrow> (string \<Rightarrow> goerr + int) \<Rightarrow> memory_input \<Rightarrow> db \<Rightarrow> (goerr + memory_output) \<times> db" where
  "memory_handle p parse_time (WriteFactTool i) d =
     (let (f, d') = write_fact p parse_time i d in (map_sum (\<lambda>e. e) FactOut f, d'))"
| "memory_handle p parse_time (SearchTool i) d = (let (fs, d') = search p i d in (map_sum (\<lambda>e. e) SearchOut fs, d'))"
| "memory_handle p parse_time (ForgetTool i) d = (let (n, d') = forget p i d in (map_sum (\<lambda>e. e) ForgetOut n, d'))"

datatype finance_input = EvaluateTool ReimbursementRequest

fun finance_tool :: "finance_input \<Rightarrow> string" where
  "finance_tool (EvaluateTool i) = ''evaluate''"

fun finance_handle :: "fmt2 \<Rightarrow> Evaluator \<Rightarrow> finance_input \<Rightarrow> 's \<Rightarrow> (goerr + Evaluation) \<times> 's" where
  "finance_handle fmt2 e (EvaluateTool i) s = (Inr (Evaluate fmt2 e i), s)"

text \<open>
  The start of the memory server: the error that ends it, or its token and address.  \<open>opened\<close> and
  \<open>migrated\<close> are the outcomes of opening the database and of the migrations.
\<close>

definition memory_start ::
  "(string \<Rightarrow> string) \<Rightarrow> (string \<Rightarrow> goerr option) \<Rightarrow> goerr option \<Rightarrow> goerr + string \<times> string" where
  "memory_start env opened migrated =
     (if env ''DATABASE_URL'' = [] then Inl (Errorf ''memory-mcp: DATABASE_URL is required'' [])
      else (case opened (env ''DATABASE_URL'') of
              Some e \<Rightarrow> Inl e
            | None \<Rightarrow>
                (case migrated of
                   Some e \<Rightarrow> Inl e
                 | None \<Rightarrow> Inr (env ''MCP_AUTH_TOKEN'',
                     '':'' @ (if env ''PORT'' = [] then ''8080'' else env ''PORT'')))))"

subsection \<open>The library between request and handler\<close>

text \<open>A \<open>tools/call\<close> request names a tool and carries its arguments.\<close>

definition tools_call :: "raw \<Rightarrow> (string \<times> json) option" where
  "tools_call body =
     (case body_object body of
        None \<Rightarrow> None
      | Some kvs \<Rightarrow>
          (case (map_of kvs ''method'', map_of kvs ''params'') of
             (Some (JStr m), Some (JObj ps)) \<Rightarrow>
               (if m = ''tools/call''
                then (case (map_of ps ''name'', map_of ps ''arguments'') of
                        (Some (JStr n), Some a) \<Rightarrow> Some (n, a) | _ \<Rightarrow> None)
                else None)
           | _ \<Rightarrow> None))"

text \<open>
  What is relied on of the library: a request changes nothing beyond what one handler does, and a handler
  runs only for a \<open>tools/call\<close> of its own tool, with the arguments decoded into its input.
\<close>

type_synonym ('i, 'o, 's) streamable = "('i \<Rightarrow> 's \<Rightarrow> (goerr + 'o) \<times> 's) \<Rightarrow> Request \<Rightarrow> 's \<Rightarrow> Response \<times> 's"

definition mcp_library :: "('i \<Rightarrow> string) \<Rightarrow> (string \<Rightarrow> json \<Rightarrow> 'i option) \<Rightarrow> ('i, 'o, 's) streamable \<Rightarrow> bool" where
  "mcp_library tool decode streamable \<longleftrightarrow>
     (\<forall>h r s. snd (streamable h r s) = s \<or>
        (\<exists>n a i. tools_call (req_Body r) = Some (n, a) \<and> decode n a = Some i \<and> tool i = n \<and>
           snd (streamable h r s) = snd (h i s)))"

subsection \<open>The servers\<close>

text \<open>What each \<open>main\<close> puts behind its routes.\<close>

definition workspace_server ::
  "WorkspaceConfig \<Rightarrow> (workspace_input, workspace_output, 's) streamable \<Rightarrow> (json \<Rightarrow> string) \<Rightarrow> 's API \<Rightarrow>
   string \<Rightarrow> Request \<Rightarrow> 's \<Rightarrow> Response \<times> 's" where
  "workspace_server cfg streamable fmt_v api =
     mcp_mux (wc_AuthToken cfg) (streamable (workspace_handle (google_client fmt_v api)))"

definition finance_server ::
  "FinanceConfig \<Rightarrow> (finance_input, Evaluation, 's) streamable \<Rightarrow> fmt2 \<Rightarrow> Evaluator \<Rightarrow> string \<Rightarrow> Request \<Rightarrow> 's \<Rightarrow> Response \<times> 's" where
  "finance_server cfg streamable fmt2 e = mcp_mux (fc_AuthToken cfg) (streamable (finance_handle fmt2 e))"

definition memory_server ::
  "string \<Rightarrow> (memory_input, memory_output, db) streamable \<Rightarrow> pg \<Rightarrow> (string \<Rightarrow> goerr + int) \<Rightarrow> string \<Rightarrow> Request \<Rightarrow> db \<Rightarrow> Response \<times> db" where
  "memory_server token streamable p parse_time = mcp_mux token (streamable (memory_handle p parse_time))"

definition template_server ::
  "TemplateConfig \<Rightarrow> (template_input, template_output, (string \<times> json) list list \<times> 's) streamable \<Rightarrow> fmt2 \<Rightarrow>
   (string \<Rightarrow> goerr option) \<Rightarrow> (string \<Rightarrow> (string \<times> string) list \<Rightarrow> json \<Rightarrow> 's \<Rightarrow> (goerr + int) \<times> 's) \<Rightarrow>
   string \<Rightarrow> Request \<Rightarrow> (string \<times> json) list list \<times> 's \<Rightarrow> Response \<times> ((string \<times> json) list list \<times> 's)" where
  "template_server cfg streamable fmt2 parse_url post =
     mcp_mux (tc_AuthToken cfg) (streamable (template_handle fmt2 DefaultStandards (template_audit parse_url post cfg)))"

lemma mcp_served:
  assumes "mcp_library tool decode streamable" "snd (mcp_mux token (streamable h) path r s) \<noteq> s"
  obtains n a i where "mcp_ok token r" "tools_call (req_Body r) = Some (n, a)" "decode n a = Some i" "tool i = n"
    "snd (mcp_mux token (streamable h) path r s) = snd (h i s)"
proof -
  from mcp_mux_guarded [OF assms(2)] have g: "path = ''/mcp''" "mcp_ok token r" by simp_all
  then have "mcp_mux token (streamable h) path r s = streamable h r s"
    using mcp.passed [of token r "streamable h" s] by (simp add: mcp_mux_def)
  with assms g that show thesis unfolding mcp_library_def by metis
qed

text \<open>The finance server keeps no state, and a request to the memory server changes no table but the facts.\<close>

lemma finance_server_stateless:
  assumes "mcp_library finance_tool decode streamable"
  shows "snd (finance_server cfg streamable fmt2 e path r s) = s"
proof (rule ccontr)
  assume "\<not> ?thesis"
  then have "snd (mcp_mux (fc_AuthToken cfg) (streamable (finance_handle fmt2 e)) path r s) \<noteq> s" by (simp add: finance_server_def)
  from mcp_served [OF assms this] obtain i where
    "snd (mcp_mux (fc_AuthToken cfg) (streamable (finance_handle fmt2 e)) path r s) = snd (finance_handle fmt2 e i s)" by metis
  then show False using \<open>snd (mcp_mux _ _ _ _ _) \<noteq> s\<close> by (cases i) simp
qed

definition facts_only :: "db \<Rightarrow> db \<Rightarrow> bool" where
  "facts_only d d' \<longleftrightarrow> (\<exists>fs n. d' = d\<lparr>memory_facts := fs, stmts := n\<rparr>)"

lemma facts_onlyI: "facts_only d d" "facts_only d (d\<lparr>stmts := n\<rparr>)" "facts_only d (d\<lparr>stmts := n, memory_facts := fs\<rparr>)"
  unfolding facts_only_def
  by (intro exI [of _ "memory_facts d"] exI [of _ "stmts d"], simp,
      intro exI [of _ "memory_facts d"] exI [of _ n], simp, intro exI [of _ fs] exI [of _ n], simp)

lemma memory_ops_facts_only:
  "facts_only d (snd (WriteFact p f d))" "facts_only d (snd (SearchFacts p q d))"
  "facts_only d (snd (ForgetFact p i d))" "facts_only d (snd (ForgetFactsByKey p st si k d))"
  by (auto simp: WriteFact_eq SearchFacts_eq ForgetFact_def ForgetFactsByKey_def wrap_err_def exec_def select_def Let_def
      facts_onlyI split: option.split sum.split)

lemma memory_handle_facts_only: "facts_only d (snd (memory_handle p parse_time i d))"
proof (cases i)
  case (WriteFactTool w)
  then show ?thesis
    by (auto simp: write_fact_def Let_def split_beta facts_onlyI memory_ops_facts_only split: sum.split)
next
  case (SearchTool q)
  then show ?thesis by (simp add: search_def split_beta memory_ops_facts_only)
next
  case (ForgetTool f)
  have "snd (forget p f d) \<in> {d, snd (ForgetFact p (fi_ID f) d), snd (ForgetFactsByKey p (fi_ScopeType f) (fi_ScopeID f) (fi_Key f) d)}"
    by (auto simp: forget_def split: prod.split sum.split)
  with ForgetTool memory_ops_facts_only(3) [of d p "fi_ID f"] memory_ops_facts_only(4) facts_onlyI(1)
  show ?thesis by (auto simp: split_beta)
qed

lemma memory_server_facts_only:
  assumes "mcp_library memory_tool decode streamable"
  shows "facts_only d (snd (memory_server token streamable p parse_time path r d))"
proof (rule ccontr)
  let ?d = "snd (mcp_mux token (streamable (memory_handle p parse_time)) path r d)"
  assume not: "\<not> ?thesis"
  then have "?d \<noteq> d" using facts_onlyI(1) [of d] by (auto simp: memory_server_def)
  from mcp_served [OF assms this] obtain i where "?d = snd (memory_handle p parse_time i d)" by metis
  with not memory_handle_facts_only [of d p parse_time i] show False by (simp add: memory_server_def)
qed

subsection \<open>From the gateway to a Workspace tool\<close>

text \<open>mcp-servers/google-workspace/manifest.yaml as the gateway decodes it.\<close>

definition workspace_endpoint :: string where
  "workspace_endpoint = ''http://google-workspace.railway.internal:8080/mcp''"

definition workspace_description :: string where
  "workspace_description =
     ''Google Workspace capability for the ScottyLabs agent: read Sheets, list and create Calendar '' @
     ''events, draft and send Gmail, and read Drive metadata, acting as the agent'' @ [CHR 0x27] @ ''s scottylabs.org '' @
     ''account via a scoped service account with domain-wide delegation.'' @ [CHR 0x0A]"

definition workspace_manifest :: manifestFile where
  "workspace_manifest =
     \<lparr>mf_Name = ''google.workspace'', mf_Owner = ''platform-team'', mf_Description = workspace_description,
      mf_Endpoint = workspace_endpoint, mf_Transport = ''streamable-http'', mf_Auth = ''bearer'',
      mf_Tools = [\<lparr>mt_Name = ''sheets_read'', mt_Scope = ''google.sheets.read'', mt_Impact = ''read''\<rparr>,
        \<lparr>mt_Name = ''calendar_list'', mt_Scope = ''google.calendar.read'', mt_Impact = ''read''\<rparr>,
        \<lparr>mt_Name = ''calendar_create_event'', mt_Scope = ''google.calendar.write'', mt_Impact = ''write''\<rparr>,
        \<lparr>mt_Name = ''gmail_draft'', mt_Scope = ''google.gmail.draft'', mt_Impact = ''write''\<rparr>,
        \<lparr>mt_Name = ''gmail_send'', mt_Scope = ''google.gmail.send'', mt_Impact = ''high''\<rparr>,
        \<lparr>mt_Name = ''drive_read'', mt_Scope = ''google.drive.read'', mt_Impact = ''read''\<rparr>],
      mf_AllowedCommittees = [''finance'', ''events'', ''design'', ''leadership''], mf_Lifecycle = ''proposed''\<rparr>"

text \<open>The request that arrives at a server, and the network with the Workspace server at its address.\<close>

definition arrived :: "(string \<times> string) list \<Rightarrow> json \<Rightarrow> Request" where
  "arrived hs body = \<lparr>req_Header = (\<lambda>k. case map_of hs k of Some v \<Rightarrow> v | None \<Rightarrow> []), req_Body = Raw_JSON body,
     req_PathValue = (\<lambda>k. []), req_Query = (\<lambda>k. [])\<rparr>"

type_synonym 's workspace_world = "api_write list \<times> 's"

definition workspace_net ::
  "WorkspaceConfig \<Rightarrow> (workspace_input, workspace_output, 's workspace_world) streamable \<Rightarrow> (json \<Rightarrow> string) \<Rightarrow> 's API \<Rightarrow>
   (string \<Rightarrow> goerr + int \<times> raw) \<Rightarrow> 's workspace_world http" where
  "workspace_net cfg streamable fmt_v api elsewhere url hs body w =
     (if url = workspace_endpoint
      then (let (resp, w') = workspace_server cfg streamable fmt_v (logged_api api) ''/mcp'' (arrived hs body) w
            in (Inr (resp_Code resp, resp_Body resp), w'))
      else (elsewhere url, w))"

text \<open>The downstream calls of the gateway, carried out one after the other.\<close>

definition deliver ::
  "(string \<Rightarrow> string) \<Rightarrow> (string \<Rightarrow> goerr option) \<Rightarrow> 'w http \<Rightarrow> string \<Rightarrow> (Server \<times> Tool \<times> raw) list \<Rightarrow> 'w \<Rightarrow> 'w" where
  "deliver cf parse_url http token calls w =
     foldl (\<lambda>w (srv, t, args). snd (HTTPCaller_Call cf parse_url http token srv t args w)) w calls"

subsection \<open>No email without approval\<close>

lemma tools_call_rpc_body: "tools_call (Raw_JSON (rpc_body n a)) = Some (n, a)"
  by (simp add: tools_call_def rpc_body_def)

lemma HTTPCaller_effect:
  assumes "snd (HTTPCaller_Call cf parse_url http token srv t args w) \<noteq> w"
  obtains a where "raw_value (if args = Raw_Empty then Raw_JSON (JObj []) else args) = Some a"
    "snd (HTTPCaller_Call cf parse_url http token srv t args w) =
       snd (http (srv_Endpoint srv) (rpc_headers token) (rpc_body (tl_Name t) a) w)"
  using assms by (auto simp: HTTPCaller_Call_def Let_def split: option.splits prod.splits sum.splits)

lemma HTTPCaller_sends:
  assumes "parse_url (srv_Endpoint srv) = None"
  shows "snd (HTTPCaller_Call cf parse_url http token srv t (Raw_JSON a) w) =
    snd (http (srv_Endpoint srv) (rpc_headers token) (rpc_body (tl_Name t) a) w)"
  using assms by (auto simp: HTTPCaller_Call_def split: prod.splits sum.splits)

text \<open>One call that changes the Workspace world ran the tool it names, for a bearer the server accepts.\<close>

lemma workspace_reached:
  assumes lib: "mcp_library workspace_tool decode streamable"
    and ch: "snd (HTTPCaller_Call cf parse_url (workspace_net cfg streamable fmt_v api elsewhere) token srv t args (l, x)) \<noteq> (l, x)"
  obtains a i where "srv_Endpoint srv = workspace_endpoint" "wc_AuthToken cfg = [] \<or> token = wc_AuthToken cfg"
    "raw_value (if args = Raw_Empty then Raw_JSON (JObj []) else args) = Some a"
    "decode (tl_Name t) a = Some i" "workspace_tool i = tl_Name t"
    "fst (snd (HTTPCaller_Call cf parse_url (workspace_net cfg streamable fmt_v api elsewhere) token srv t args (l, x))) =
       l @ workspace_log i"
proof -
  let ?net = "workspace_net cfg streamable fmt_v api elsewhere"
  let ?h = "workspace_handle (google_client fmt_v (logged_api api))"
  from ch obtain a where a: "raw_value (if args = Raw_Empty then Raw_JSON (JObj []) else args) = Some a"
    and eff: "snd (HTTPCaller_Call cf parse_url ?net token srv t args (l, x)) =
       snd (?net (srv_Endpoint srv) (rpc_headers token) (rpc_body (tl_Name t) a) (l, x))" by (rule HTTPCaller_effect)
  let ?r = "arrived (rpc_headers token) (rpc_body (tl_Name t) a)"
  from ch eff have url: "srv_Endpoint srv = workspace_endpoint" by (auto simp: workspace_net_def split: if_splits)
  then have mux: "snd (?net (srv_Endpoint srv) (rpc_headers token) (rpc_body (tl_Name t) a) (l, x)) =
      snd (mcp_mux (wc_AuthToken cfg) (streamable ?h) ''/mcp'' ?r (l, x))" by (simp add: workspace_net_def workspace_server_def split: prod.split)
  with ch eff have "snd (mcp_mux (wc_AuthToken cfg) (streamable ?h) ''/mcp'' ?r (l, x)) \<noteq> (l, x)" by simp
  from mcp_served [OF lib this] obtain n b i where served: "mcp_ok (wc_AuthToken cfg) ?r" "tools_call (req_Body ?r) = Some (n, b)"
    "decode n b = Some i" "workspace_tool i = n"
    "snd (mcp_mux (wc_AuthToken cfg) (streamable ?h) ''/mcp'' ?r (l, x)) = snd (?h i (l, x))" by blast
  have "req_Body ?r = Raw_JSON (rpc_body (tl_Name t) a)" by (simp add: arrived_def)
  with served(2) have nb: "n = tl_Name t" "b = a" by (simp_all add: tools_call_rpc_body)
  from served(1) have "wc_AuthToken cfg = [] \<or> token = wc_AuthToken cfg"
    by (auto simp: mcp_ok_def arrived_def rpc_headers_def split: if_splits)
  with a url served eff mux nb that [of a i] show thesis by (simp add: workspace_handle_log)
qed

lemma workspace_log_Sent:
  "Sent u m \<in> set (workspace_log i) \<Longrightarrow> \<exists>e. i = GmailSend e \<and> workspace_log i = [Sent ''me'' (encodeMessage (input_draft e))]"
  by (cases i) (auto split: if_splits)

text \<open>What registration of the manifest establishes for the address of the server.\<close>

definition lists_manifest :: "db \<Rightarrow> bool" where
  "lists_manifest d \<longleftrightarrow> list_all (\<lambda>s. srv_Endpoint s = workspace_endpoint \<longrightarrow>
     list_all (\<lambda>t. tl_ServerID t = srv_ID s \<longrightarrow>
       (tl_Name t, tl_Impact t) \<in> set (map (\<lambda>t. (mt_Name t, mt_Impact t)) (mf_Tools workspace_manifest))) (mcp_tools d)) (mcp_servers d)"

text \<open>
  C2. No email leaves without a person's approval, end to end: when every tool registered at the address of
  the Workspace server is as its manifest lists it, then whatever call an agent makes at the gateway, if
  carrying out its downstream requests makes Google send a message, the call named the tool
  \<open>gmail_send\<close>, some person approved that tool in the call's session, the gateway presented the bearer
  the server is configured with, and exactly one message was sent, the one of the call's arguments.
\<close>

theorem email_needs_approval:
  assumes "gw_store g = repo_store p" "lists_manifest (gs_store gs)"
    and "Call g ck req gs = (res, gs')" "gs_calls gs' = gs_calls gs @ calls"
    and "mcp_library workspace_tool decode streamable"
    and "deliver cf parse_url (workspace_net cfg streamable fmt_v api elsewhere) token calls ([], x) = (l, x')"
    and "Sent u m \<in> set l"
  shows "rq_ToolName req = ''gmail_send'' \<and>
    rq_SessionID req \<noteq> [] \<and> approved_for p (gs_store gs) (rq_SessionID req) ''gmail_send'' \<and>
    (wc_AuthToken cfg = [] \<or> token = wc_AuthToken cfg) \<and>
    (\<exists>a e. raw_value (if rq_Args req = Raw_Empty then Raw_JSON (JObj []) else rq_Args req) = Some a \<and>
       decode ''gmail_send'' a = Some (GmailSend e) \<and> l = [Sent ''me'' (encodeMessage (input_draft e))])"
proof -
  have "calls \<noteq> []" using assms(6,7) by (auto simp: deliver_def)
  with assms(4) repo.call_safe [OF assms(1,3)] obtain b where
    c: "calls = [(tb_Server b, tb_Tool b, rq_Args req)]" and
    reg: "registered_in p (gs_store gs) (rq_ServerName req) (rq_ToolName req) b" and
    high: "tl_Impact (tb_Tool b) = ''high'' \<longrightarrow>
       rq_SessionID req \<noteq> [] \<and> approved_for p (gs_store gs) (rq_SessionID req) (rq_ToolName req)" by auto
  let ?call = "snd (HTTPCaller_Call cf parse_url (workspace_net cfg streamable fmt_v api elsewhere) token
      (tb_Server b) (tb_Tool b) (rq_Args req) ([], x))"
  have l: "?call = (l, x')" using assms(6) by (simp add: deliver_def c)
  then have "?call \<noteq> ([], x)" using assms(7) by auto
  from workspace_reached [OF assms(5) this] obtain a i where
    i: "srv_Endpoint (tb_Server b) = workspace_endpoint" "wc_AuthToken cfg = [] \<or> token = wc_AuthToken cfg"
      "raw_value (if rq_Args req = Raw_Empty then Raw_JSON (JObj []) else rq_Args req) = Some a"
      "decode (tl_Name (tb_Tool b)) a = Some i" "workspace_tool i = tl_Name (tb_Tool b)" "l = workspace_log i"
    by (metis append_Nil fst_conv l)
  from workspace_log_Sent [of u m i] assms(7) i(6) obtain e where e: "i = GmailSend e"
    "l = [Sent ''me'' (encodeMessage (input_draft e))]" by auto
  from reg obtain s0 where s0: "s0 \<in> set (mcp_servers (gs_store gs))" "tb_Server b = server_view p (gs_store gs) s0"
    "tb_Tool b \<in> set (mcp_tools (gs_store gs))" "tl_ServerID (tb_Tool b) = srv_ID s0" "tl_Name (tb_Tool b) = rq_ToolName req"
    unfolding registered_in_def by blast
  have name: "tl_Name (tb_Tool b) = ''gmail_send''" using i(5) e(1) by simp
  have "srv_Endpoint s0 = workspace_endpoint" using i(1) s0(2) by simp
  with assms(2) s0 have "(tl_Name (tb_Tool b), tl_Impact (tb_Tool b)) \<in>
      set (map (\<lambda>t. (mt_Name t, mt_Impact t)) (mf_Tools workspace_manifest))"
    unfolding lists_manifest_def list_all_iff by blast
  with name have "tl_Impact (tb_Tool b) = ''high''" by (simp add: workspace_manifest_def)
  with high s0(5) name i e show ?thesis by auto
qed


lemma workspace_name: "mf_Name workspace_manifest = ''google.workspace''"
  by (simp add: workspace_manifest_def)

lemma registered_manifest_listed:
  assumes "db_inv d" "validate workspace_manifest path = Inr inp" "RegisterServer p inp d = (Inr s, d')"
    and "\<forall>s \<in> set (mcp_servers d). srv_Endpoint s = workspace_endpoint \<longrightarrow> srv_Name s = ''google.workspace''"
  shows "lists_manifest d'"
proof -
  have inp: "sin_Name inp = ''google.workspace''"
    "(\<lambda>t. (tin_Name t, tin_Impact t)) ` set (sin_Tools inp) = set (map (\<lambda>t. (mt_Name t, mt_Impact t)) (mf_Tools workspace_manifest))"
    using validate_tools_of [OF assms(2)] by (simp_all add: image_image workspace_name)
  obtain s0 where s0: "s0 \<in> set (mcp_servers d')" "srv_Name s0 = sin_Name inp"
    "tool_input ` {t \<in> set (mcp_tools d'). tl_ServerID t = srv_ID s0} = set (sin_Tools inp)"
    "filter (\<lambda>v. srv_Name v \<noteq> sin_Name inp) (mcp_servers d') = filter (\<lambda>v. srv_Name v \<noteq> sin_Name inp) (mcp_servers d)"
    by (rule RegisterServer_ok [OF assms(1,3)])
  have "db_inv d'" using RegisterServer_inv [OF assms(1), of p inp] assms(3) by simp
  then have uniq: "distinct (map srv_Name (mcp_servers d'))" by (simp add: db_inv_def servers_ok_def)
  have at: "s1 = s0" if "s1 \<in> set (mcp_servers d')" "srv_Endpoint s1 = workspace_endpoint" for s1
  proof -
    have "srv_Name s1 = sin_Name inp"
    proof (rule ccontr)
      assume "srv_Name s1 \<noteq> sin_Name inp"
      with that(1) have "s1 \<in> set (filter (\<lambda>v. srv_Name v \<noteq> sin_Name inp) (mcp_servers d'))" by simp
      then have "s1 \<in> set (mcp_servers d)" unfolding s0(4) by simp
      with assms(4) that(2) inp(1) \<open>srv_Name s1 \<noteq> sin_Name inp\<close> show False by auto
    qed
    with uniq that(1) s0(1,2) show ?thesis by (metis distinct_map inj_onD)
  qed
  have "(tl_Name t, tl_Impact t) \<in> set (map (\<lambda>t. (mt_Name t, mt_Impact t)) (mf_Tools workspace_manifest))"
    if "t \<in> set (mcp_tools d')" "tl_ServerID t = srv_ID s0" for t
  proof -
    from that s0(3) have "tool_input t \<in> set (sin_Tools inp)" by blast
    then show ?thesis unfolding inp(2) [symmetric] by (auto simp: tool_input_def image_iff intro!: bexI [of _ "tool_input t"])
  qed
  with at show ?thesis unfolding lists_manifest_def list_all_iff by blast
qed

definition demo_decode :: "string \<Rightarrow> json \<Rightarrow> workspace_input option" where
  "demo_decode n a = (if n = ''gmail_send''
     then Some (GmailSend \<lparr>ei_To = [''a@cmu.edu''], ei_Cc = [], ei_Subject = ''Hi'', ei_Body = []\<rparr>) else None)"

definition demo_streamable :: "(workspace_input, workspace_output, unit workspace_world) streamable" where
  "demo_streamable h r s =
     (case tools_call (req_Body r) of
        Some (n, a) \<Rightarrow>
          (case demo_decode n a of
             Some i \<Rightarrow> (writeJSON 200 (JObj [(''result'', JNull)]), snd (h i s))
           | None \<Rightarrow> (write_error 400 ''bad arguments'', s))
      | None \<Rightarrow> (write_error 400 ''bad request'', s))"

lemma demo_streamable_library: "mcp_library workspace_tool demo_decode demo_streamable"
  unfolding mcp_library_def
proof (intro allI)
  fix h r s
  show "snd (demo_streamable h r s) = s \<or> (\<exists>n a i. tools_call (req_Body r) = Some (n, a) \<and> demo_decode n a = Some i \<and>
      workspace_tool i = n \<and> snd (demo_streamable h r s) = snd (h i s))"
  proof (cases "tools_call (req_Body r)")
    case (Some na)
    then show ?thesis by (cases na) (auto simp: demo_streamable_def demo_decode_def)
  qed (simp add: demo_streamable_def)
qed

definition demo_api :: "unit API" where
  "demo_api = \<lparr>api_ValuesGet = (\<lambda>i r x. (Inr (r, []), x)), api_EventsList = (\<lambda>q x. (Inr [], x)),
     api_EventsInsert = (\<lambda>c e x. (Inr e, x)), api_DraftsCreate = (\<lambda>u m x. (Inr ''d1'', x)),
     api_MessagesSend = (\<lambda>u m x. (Inr ''m1'', x)), api_FilesList = (\<lambda>q x. (Inr [], x))\<rparr>"

definition mail_db :: db where
  "mail_db = demo_db\<lparr>mcp_servers := [demo_server\<lparr>srv_Endpoint := workspace_endpoint\<rparr>], mcp_tools := [demo_tool ''gmail_send'' ''high''],
     approvals := [\<lparr>ar_id = ''ap'', ar_session_id = Some ''ses'', ar_tool = ''gmail_send'', ar_args_redacted = JNull,
       ar_status = ''approved'', ar_decided_by = ''lead'', ar_decided_at = Some 1, ar_created_at = 0\<rparr>]\<rparr>"

lemma mail_db_inv: "db_inv mail_db"
  using demo_db_inv by (simp add: mail_db_def db_inv_def table_defs approval_status_def)

lemma mail_db_lists: "lists_manifest mail_db"
  by (simp add: lists_manifest_def mail_db_def workspace_manifest_def)

lemma mail_decide:
  "decide demo_pg mail_db (demo_request ''finance'' ''ses'' ''gmail_send'') =
     Run \<lparr>tb_Server = server_view demo_pg mail_db (demo_server\<lparr>srv_Endpoint := workspace_endpoint\<rparr>), tb_Tool = demo_tool ''gmail_send'' ''high''\<rparr>"
  by (simp add: decide_def resolve_spec_def may_use_def approved_for_def mail_db_def demo_pg_def)

definition mail_config :: WorkspaceConfig where
  "mail_config = \<lparr>wc_Port = ''8080'', wc_LogLevel = ''info'', wc_AuthToken = ''tok'', wc_GoogleSAJSON = ''{}'',
     wc_DelegatedSubject = ''agent@scottylabs.org''\<rparr>"

definition mail_net :: "unit workspace_world http" where
  "mail_net = workspace_net mail_config demo_streamable (\<lambda>j. []) demo_api (\<lambda>u. Inl (External ''no route''))"

text \<open>An approved call to send reaches Google through every layer, with one message.\<close>

theorem email_needs_approval_witness:
  "\<exists>res gs' calls m. Call demo_gateway demo_clock (demo_request ''finance'' ''ses'' ''gmail_send'') (start_gateway None mail_db) = (res, gs') \<and>
     gs_calls gs' = calls \<and> deliver (\<lambda>s. s) (\<lambda>u. None) mail_net ''tok'' calls ([], ()) = ([Sent ''me'' m], ()) \<and>
     approved_for demo_pg mail_db ''ses'' ''gmail_send''"
proof -
  let ?req = "demo_request ''finance'' ''ses'' ''gmail_send''" and ?srv = "demo_server\<lparr>srv_Endpoint := workspace_endpoint\<rparr>"
  let ?mail = "\<lparr>ei_To = [''a@cmu.edu''], ei_Cc = [], ei_Subject = ''Hi'', ei_Body = []\<rparr>"
  let ?m = "encodeMessage (input_draft ?mail)"
  obtain res err gs' where c: "Call demo_gateway demo_clock ?req (start_gateway None mail_db) = ((res, err), gs')"
    by (metis prod.exhaust)
  let ?calls = "[(server_view demo_pg mail_db ?srv, demo_tool ''gmail_send'' ''high'', rq_Args ?req)]"
  from Call_decide [OF _ _ _ _ _ c, of demo_pg] mail_db_inv have calls: "gs_calls gs' = ?calls"
    by (simp add: mail_decide)
  have "TrimSpace ''a@cmu.edu'' \<noteq> []" "TrimSpace ''Hi'' \<noteq> []" by code_simp+
  then have log: "workspace_log (GmailSend ?mail) = [Sent ''me'' ?m]"
    by (simp add: ValidateEmailDraft_def input_draft_def nonEmpty_def)
  let ?h = "workspace_handle (google_client (\<lambda>j. []) (logged_api demo_api)) (GmailSend ?mail) ([], ())"
  have h: "snd ?h = ([Sent ''me'' ?m], ())"
    using workspace_handle_log [of "\<lambda>j. []" demo_api "GmailSend ?mail" "[]" "()"] log by (simp add: prod_eq_iff)
  have "snd (mail_net workspace_endpoint (rpc_headers ''tok'') (rpc_body ''gmail_send'' a) ([], ())) = snd ?h" for a
    by (simp add: mail_net_def mail_config_def workspace_net_def workspace_server_def mcp_mux_def withAuth_def arrived_def rpc_headers_def demo_streamable_def
        tools_call_rpc_body demo_decode_def del: workspace_handle.simps)
  with h have d: "deliver (\<lambda>s. s) (\<lambda>u. None) mail_net ''tok'' ?calls ([], ()) = ([Sent ''me'' ?m], ())"
    by (simp add: deliver_def HTTPCaller_sends)
  from email_needs_approval [OF _ _ c, of demo_pg ?calls demo_decode demo_streamable "\<lambda>s. s" "\<lambda>u. None" mail_config "\<lambda>j. []" demo_api
      "\<lambda>u. Inl (External ''no route'')" "''tok''" "()" "[Sent ''me'' ?m]" "()" "''me''" ?m]
  have "approved_for demo_pg mail_db ''ses'' ''gmail_send''"
    using mail_db_lists calls demo_streamable_library d [unfolded mail_net_def] by simp
  with c calls d show ?thesis by blast
qed

end
