(* ===== verification/RuntimeCLI.thy ===== *)
theory RuntimeCLI
  imports RuntimeServer
begin

text \<open>
  The command-line runtime: \<open>main\<close> of runtime/cmd/runtime/main.go.  It submits one task and reads its
  events; each question for an approval is answered with a denial.  The process and the engine's
  goroutine interleave as the steps of \<open>cli_step\<close>; the context is never cancelled.
\<close>

subsection \<open>The process\<close>

datatype cli_pc = Reading | Resolving string | Exited int

record cli =
  cli_pc :: cli_pc
  cli_task :: task
  cli_out :: "string list"




definition cli_start :: "prog \<Rightarrow> cli" where
  "cli_start p = \<lparr>cli_pc = Reading, cli_task = new_task p, cli_out = []\<rparr>"



text \<open>\<open>main\<close>: an exit code at once, or the process that runs the Goose engine on the task.\<close>

definition cli_main ::
  "(string \<Rightarrow> string) \<Rightarrow> files \<Rightarrow> (string list \<Rightarrow> string \<Rightarrow> process) \<Rightarrow> string list \<Rightarrow> (int + cli) outcome" where
  "cli_main env os proc args =
     (let cfg = LoadConfig env; rt = \<lparr>rt_models = Models cfg, rt_recipesDir = rc_RecipesDir cfg\<rparr>
      in case parseArgs args of
           Panics \<Rightarrow> Panics
         | Returns (Inl e) \<Rightarrow> Returns (Inl 2)
         | Returns (Inr req) \<Rightarrow>
             (case SubmitTask os rt (GooseEngine_Run cfg proc) req of
                Inl e \<Rightarrow> Returns (Inl 1)
              | Inr t \<Rightarrow> Returns (Inr \<lparr>cli_pc = Reading, cli_task = t, cli_out = []\<rparr>)))"

subsection \<open>When every run is finite\<close>

text \<open>An engine that comes to its result whatever it is answered: it neither streams for ever nor blocks.\<close>

inductive finishes :: "prog \<Rightarrow> bool" where
  "finishes k \<Longrightarrow> finishes (Emit e k)"
| "(\<And>x. finishes (k x)) \<Longrightarrow> finishes (Ask tool i k)"
| "finishes (Return r)"

inductive_simps finishes_simps [simp]: "finishes (Emit e k)" "finishes (Ask tool i k)" "finishes (Return r)" "finishes (Hang k)"

text \<open>The positions of the engine's goroutine only ever go down this order.\<close>

inductive pc_next :: "pc \<Rightarrow> pc \<Rightarrow> bool" where
  "pc_next (At (Emit e k)) (At k)"
| "pc_next (At (Ask tool i k)) (Waiting i k)"
| "pc_next (Waiting i k) (At (k x))"
| "pc_next (At (Return r)) (Sending es)"
| "pc_next (Sending (e # es)) (Sending es)"
| "pc_next (Sending []) Closed"
| "pc_next Closed Finished"

inductive_simps pc_next_from [simp]: "pc_next (At (Emit e k)) q" "pc_next (At (Ask tool i k)) q" "pc_next (At (Hang k)) q" "pc_next (Waiting i k) q"
  "pc_next (At (Return r)) q" "pc_next (Sending (e # es)) q" "pc_next (Sending []) q" "pc_next Closed q" "pc_next Finished q"















subsection \<open>A run ends at its exit, with every question denied\<close>

text \<open>Engines that ask for approvals through the hook only, and do not emit such events themselves.\<close>

coinductive quiet :: "prog \<Rightarrow> bool" where
  "ev_Kind e \<noteq> KindApprovalRequired \<Longrightarrow> quiet k \<Longrightarrow> quiet (Emit e k)"
| "(\<And>x. quiet (k x)) \<Longrightarrow> quiet (Ask tool i k)"
| "quiet (Return r)"
| "quiet k \<Longrightarrow> quiet (Hang k)"

inductive_simps quiet_simps [simp]: "quiet (Emit e k)" "quiet (Ask tool i k)" "quiet (Return r)" "quiet (Hang k)"















subsection \<open>The process that \<open>main\<close> starts\<close>

lemma goose_scan_quiet: "quiet (goose_scan wait out s)"
proof (coinduction arbitrary: out s)
  case quiet
  show ?case
    by (cases s; cases "\<exists>line rest. s = Line line rest \<and> fits line")
      (auto simp: goose_wait_def goose_failed_def status_event_def split: wait_result.split option.split)
qed

lemma goose_quiet: "quiet (GooseEngine_Run cfg proc spec)"
  by (simp add: GooseEngine_Run_def goose_scan_quiet split: process.split)

lemma cli_main_starts:
  "cli_main env os proc args = Returns (Inr c) \<Longrightarrow>
     \<exists>spec. c = cli_start (GooseEngine_Run (LoadConfig env) proc spec) \<and> quiet (GooseEngine_Run (LoadConfig env) proc spec)"
  by (auto simp: cli_main_def SubmitTask_def cli_start_def Let_def goose_quiet split: outcome.splits sum.splits)

text \<open>
  Goose comes to its result exactly when its process does: the output has an end, or a line that the
  scanner cannot hold, and the process then ends.  There is no time limit on it.
\<close>

lemma emits_finishes: "finishes (emits es r)"
  by (induction es) simp_all

lemma goose_scan_finishes:
  "finishes (goose_scan wait out s) \<longleftrightarrow> (\<exists>ls unread failed. scans s ls unread \<and> wait unread = Ended failed)"
proof
  have "finishes q \<Longrightarrow> q = goose_scan wait out s \<Longrightarrow> \<exists>ls unread failed. scans s ls unread \<and> wait unread = Ended failed" for q out s
  proof (induction q arbitrary: out s rule: finishes.induct)
    case (1 k e)
    show ?case
    proof (cases "\<exists>line rest. s = Line line rest \<and> fits line")
      case True
      then obtain line rest where l: "s = Line line rest" "fits line" by blast
      with 1(3) have "k = goose_scan wait (out @ drop_cr line @ [CHR 0x0A]) rest" by simp
      from 1(2) [OF this] scans.line [OF l(2)] l(1) show ?thesis by blast
    next
      case False
      with 1(3) show ?thesis
        by (cases s) (auto simp: goose_wait_def goose_failed_def split: wait_result.splits option.splits)
    qed
  next
    case (2 k tool i)
    then show ?case
      by (cases s; cases "\<exists>line rest. s = Line line rest \<and> fits line")
        (auto simp: goose_wait_def goose_failed_def split: wait_result.splits option.splits)
  next
    case (3 r)
    then show ?case
      by (cases s; cases "\<exists>line rest. s = Line line rest \<and> fits line")
        (auto simp: goose_wait_def goose_failed_def intro: scans.intros split: wait_result.splits option.splits)
  qed
  then show "finishes (goose_scan wait out s) \<Longrightarrow> \<exists>ls unread failed. scans s ls unread \<and> wait unread = Ended failed" by blast
next
  assume "\<exists>ls unread failed. scans s ls unread \<and> wait unread = Ended failed"
  then show "finishes (goose_scan wait out s)" using goose_scan_emits emits_finishes by metis
qed

lemma goose_finishes:
  "finishes (GooseEngine_Run cfg proc spec) \<longleftrightarrow>
     rc_OpenRouterAPIKey cfg = [] \<or>
     (\<forall>s wait. proc (gooseEnv cfg spec) (goose_prompt spec) = Runs s wait \<longrightarrow>
        (\<exists>ls unread failed. scans s ls unread \<and> wait unread = Ended failed))"
  by (auto simp: GooseEngine_Run_def goose_scan_finishes split: process.split)

text \<open>A process that prints one line again and again gives an engine that never finishes.\<close>

primcorec chatter :: stdout where
  "chatter = Line ''tick'' chatter"

lemma chatter_never_finishes: "\<not> finishes (goose_scan wait out chatter)"
proof -
  have "scans s ls u \<Longrightarrow> s \<noteq> chatter" for s ls u
  proof (induction rule: scans.induct)
    case at_end
    then show ?case by (subst chatter.code) simp
  next
    case (too_long line rest)
    then show ?case by (subst chatter.code) (auto simp: fits_def)
  next
    case (line line rest ls unread)
    then show ?case by (subst chatter.code) auto
  qed
  then show ?thesis by (auto simp: goose_scan_finishes)
qed

subsection \<open>Running it\<close>









end
