(* ===== verification/RuntimeClient.thy ===== *)
theory RuntimeClient
  imports RuntimeServer
begin

text \<open>
  The HTTP clients of the runtime service: services/slack-gateway/internal/runtimeclient and
  services/scheduler/internal/runtimeclient, and the routes of runtime/internal/server they reach
  (\<open>runtime_routes\<close>).  The transport is an argument of a client: a request changes the state of the
  other side and gives an error or a status code with a body.  Bodies have each member at most once
  (a repeated member with an object would be merged by the decoder, which is not modelled).
\<close>

subsection \<open>The client\<close>

type_synonym 's transport = "string \<Rightarrow> string \<Rightarrow> (string \<times> string) list \<Rightarrow> json option \<Rightarrow> 's \<Rightarrow> (goerr + int \<times> raw) \<times> 's"

record Client =
  cl_baseURL :: string
  cl_token :: string

definition Configured :: "Client \<Rightarrow> bool" where
  "Configured c \<longleftrightarrow> cl_baseURL c \<noteq> []"

definition client_headers :: "Client \<Rightarrow> (string \<times> string) list" where
  "client_headers c = [(''Content-Type'', ''application/json'')] @
     (if cl_token c \<noteq> [] then [(''Authorization'', ''Bearer '' @ cl_token c)] else [])"

text \<open>\<open>parse_url\<close> is \<open>http.NewRequest\<close> accepting the address; the result is the body to decode.\<close>

definition client_do ::
  "(string \<Rightarrow> goerr option) \<Rightarrow> 's transport \<Rightarrow> Client \<Rightarrow> string \<Rightarrow> string \<Rightarrow> json option \<Rightarrow> 's \<Rightarrow> (goerr + raw) \<times> 's" where
  "client_do parse_url http c meth path inp s =
     (if \<not> Configured c then (Inl (Errorf ''runtime not configured'' []), s)
      else (case parse_url (cl_baseURL c @ path) of
              Some e \<Rightarrow> (Inl e, s)
            | None \<Rightarrow>
                (case http meth (cl_baseURL c @ path) (client_headers c) inp s of
                   (Inl e, s') \<Rightarrow> (Inl e, s')
                 | (Inr (status, body), s') \<Rightarrow>
                     (if status \<ge> 300 then (Inl (Errorf ''runtime: status %d'' [Itoa status]), s')
                      else (Inr body, s')))))"

record SubmitBody =
  sb_InlineGoal :: string
  sb_RecipeID :: string
  sb_Identity :: string
  sb_Committee :: string
  sb_HardTask :: bool

definition submit_json :: "SubmitBody \<Rightarrow> json" where
  "submit_json b = JObj (omit ''inline_goal'' (sb_InlineGoal b) @ omit ''recipe_id'' (sb_RecipeID b) @
     omit ''identity'' (sb_Identity b) @ omit ''committee'' (sb_Committee b) @
     (if sb_HardTask b then [(''hard_task'', JBool True)] else []))"

definition decode_error :: goerr where
  "decode_error = External ''json: cannot unmarshal''"

definition decode_submitted :: "(string \<Rightarrow> string) \<Rightarrow> raw \<Rightarrow> (string \<times> string) option" where
  "decode_submitted cf body =
     (case body_object body of
        None \<Rightarrow> None
      | Some kvs \<Rightarrow>
          (case (str_field cf ''task_id'' kvs, str_field cf ''error'' kvs) of
             (Some t, Some e) \<Rightarrow> Some (t, e) | _ \<Rightarrow> None))"

definition client_Submit ::
  "(string \<Rightarrow> string) \<Rightarrow> (string \<Rightarrow> goerr option) \<Rightarrow> 's transport \<Rightarrow> Client \<Rightarrow> SubmitBody \<Rightarrow> 's \<Rightarrow> (goerr + string) \<times> 's" where
  "client_Submit cf parse_url http c body s =
     (case client_do parse_url http c ''POST'' ''/tasks'' (Some (submit_json body)) s of
        (Inl e, s') \<Rightarrow> (Inl e, s')
      | (Inr raw, s') \<Rightarrow>
          (case decode_submitted cf raw of
             None \<Rightarrow> (Inl decode_error, s')
           | Some (taskID, err) \<Rightarrow>
               (if taskID = [] then (Inl (Errorf ''runtime: %s'' [err]), s') else (Inr taskID, s'))))"

record ClientEvent =
  ce_Kind :: string
  ce_Text :: string
  ce_Tool :: string
  ce_ApprovalID :: string

record ClientSnapshot =
  cs_Status :: string
  cs_Events :: "ClientEvent list"
  cs_Pending :: "pendingApproval option"
  cs_Result :: "Result option"

definition decode_event :: "(string \<Rightarrow> string) \<Rightarrow> (string \<times> json) list \<Rightarrow> ClientEvent option" where
  "decode_event cf kvs =
     (case (str_field cf ''kind'' kvs, str_field cf ''text'' kvs, str_field cf ''tool'' kvs, str_field cf ''approval_id'' kvs) of
        (Some k, Some t, Some l, Some i) \<Rightarrow> Some \<lparr>ce_Kind = k, ce_Text = t, ce_Tool = l, ce_ApprovalID = i\<rparr>
      | _ \<Rightarrow> None)"

fun json_events :: "(string \<Rightarrow> string) \<Rightarrow> json \<Rightarrow> ClientEvent list option" where
  "json_events cf (JArr xs) = those (map (\<lambda>x. case body_object (Raw_JSON x) of None \<Rightarrow> None | Some kvs \<Rightarrow> decode_event cf kvs) xs)"
| "json_events cf _ = None"

fun json_pending :: "(string \<Rightarrow> string) \<Rightarrow> json \<Rightarrow> pendingApproval option option" where
  "json_pending cf (JObj kvs) =
     (case (str_field cf ''tool'' kvs, str_field cf ''approval_id'' kvs) of
        (Some t, Some i) \<Rightarrow> Some (Some \<lparr>pa_Tool = t, pa_ApprovalID = i\<rparr>) | _ \<Rightarrow> None)"
| "json_pending cf _ = None"

fun json_result :: "(string \<Rightarrow> string) \<Rightarrow> json \<Rightarrow> Result option option" where
  "json_result cf (JObj kvs) =
     (case (str_field cf ''output'' kvs, str_field cf ''audit_ref'' kvs) of
        (Some t, Some i) \<Rightarrow> Some (Some \<lparr>rs_Output = t, rs_AuditRef = i\<rparr>) | _ \<Rightarrow> None)"
| "json_result cf _ = None"

definition decode_snapshot :: "(string \<Rightarrow> string) \<Rightarrow> raw \<Rightarrow> ClientSnapshot option" where
  "decode_snapshot cf body =
     (case body_object body of
        None \<Rightarrow> None
      | Some kvs \<Rightarrow>
          (case (str_field cf ''status'' kvs, decode_field cf ''events'' (json_events cf) [] kvs,
                 decode_field cf ''pending_approval'' (json_pending cf) None kvs,
                 decode_field cf ''result'' (json_result cf) None kvs) of
             (Some st, Some es, Some p, Some r) \<Rightarrow>
               Some \<lparr>cs_Status = st, cs_Events = es, cs_Pending = p, cs_Result = r\<rparr>
           | _ \<Rightarrow> None))"

definition client_Get ::
  "(string \<Rightarrow> string) \<Rightarrow> (string \<Rightarrow> goerr option) \<Rightarrow> 's transport \<Rightarrow> Client \<Rightarrow> string \<Rightarrow> 's \<Rightarrow> (goerr + ClientSnapshot) \<times> 's" where
  "client_Get cf parse_url http c taskID s =
     (case client_do parse_url http c ''GET'' (''/tasks/'' @ taskID) None s of
        (Inl e, s') \<Rightarrow> (Inl e, s')
      | (Inr raw, s') \<Rightarrow>
          (case decode_snapshot cf raw of None \<Rightarrow> (Inl decode_error, s') | Some v \<Rightarrow> (Inr v, s')))"

definition approve_json :: "string \<Rightarrow> bool \<Rightarrow> string \<Rightarrow> json" where
  "approve_json approvalID granted by =
     marshal_map [(''approval_id'', JStr approvalID), (''granted'', JBool granted), (''decided_by'', JStr by)]"

definition client_Approve ::
  "(string \<Rightarrow> goerr option) \<Rightarrow> 's transport \<Rightarrow> Client \<Rightarrow> string \<Rightarrow> string \<Rightarrow> bool \<Rightarrow> string \<Rightarrow> 's \<Rightarrow> (goerr + unit) \<times> 's" where
  "client_Approve parse_url http c taskID approvalID granted by s =
     (case client_do parse_url http c ''POST'' (''/tasks/'' @ taskID @ ''/approve'') (Some (approve_json approvalID granted by)) s of
        (Inl e, s') \<Rightarrow> (Inl e, s') | (Inr raw, s') \<Rightarrow> (Inr (), s'))"

text \<open>The scheduler's client: the parameters travel as a JSON object (\<open>null\<close> when there is no map).\<close>

definition params_json :: "(string \<times> string) list option \<Rightarrow> json" where
  "params_json ps = (case ps of None \<Rightarrow> JNull | Some kvs \<Rightarrow> marshal_map (map (\<lambda>(k, v). (k, JStr v)) kvs))"

definition job_json :: "string \<Rightarrow> string \<Rightarrow> (string \<times> string) list option \<Rightarrow> json" where
  "job_json recipeID committee params =
     marshal_map [(''recipe_id'', JStr recipeID), (''committee'', JStr committee), (''params'', params_json params)]"

definition scheduler_Submit ::
  "(string \<Rightarrow> string) \<Rightarrow> (string \<Rightarrow> goerr option) \<Rightarrow> 's transport \<Rightarrow> Client \<Rightarrow> string \<Rightarrow> string \<Rightarrow>
     (string \<times> string) list option \<Rightarrow> 's \<Rightarrow> (goerr + string) \<times> 's" where
  "scheduler_Submit cf parse_url http c recipeID committee params s =
     (if \<not> Configured c then (Inl (Errorf ''runtime not configured'' []), s)
      else (case parse_url (cl_baseURL c @ ''/tasks'') of
              Some e \<Rightarrow> (Inl e, s)
            | None \<Rightarrow>
                (case http ''POST'' (cl_baseURL c @ ''/tasks'') (client_headers c) (Some (job_json recipeID committee params)) s of
                   (Inl e, s') \<Rightarrow> (Inl e, s')
                 | (Inr (status, body), s') \<Rightarrow>
                     (if status \<ge> 300 then (Inl (Errorf ''runtime: status %d'' [Itoa status]), s')
                      else (case body_object body of
                              None \<Rightarrow> (Inl decode_error, s')
                            | Some kvs \<Rightarrow>
                                (case str_field cf ''task_id'' kvs of
                                   None \<Rightarrow> (Inl decode_error, s') | Some t \<Rightarrow> (Inr t, s')))))))"

subsection \<open>The routes of the runtime service\<close>

text \<open>
  What the service does with a request for a path of plain segments; \<open>env\<close> holds what the handlers
  take from outside (the engine, the files, the next random id, and which way the select of
  \<open>ResolveApproval\<close> goes).
\<close>

record runtime_env =
  re_files :: files
  re_runtime :: Runtime
  re_engine :: "RunSpec \<Rightarrow> prog"
  re_fresh :: string
  re_accepted :: bool

text \<open>What the mux answers by itself: 405 when only another method is routed at the path.\<close>

definition mux_refuses :: "bool \<Rightarrow> Response" where
  "mux_refuses known =
     (if known then \<lparr>resp_Code = 405, resp_Body = Raw_Bad (''Method Not Allowed'' @ newline)\<rparr>
      else \<lparr>resp_Code = 404, resp_Body = Raw_Bad (''404 page not found'' @ newline)\<rparr>)"

definition runtime_routes ::
  "(string \<Rightarrow> string) \<Rightarrow> runtime_env \<Rightarrow> string \<Rightarrow> string \<Rightarrow> string \<Rightarrow> Request \<Rightarrow> server \<Rightarrow> Response \<times> server" where
  "runtime_routes cf env token meth path r s =
     (let reads = (meth = ''GET'' \<or> meth = ''HEAD''); posts = (meth = ''POST'');
          r' = (\<lambda>i. r\<lparr>req_PathValue := (\<lambda>n. if n = ''id'' then i else [])\<rparr>)
      in case split_on (CHR ''/'') path of
           [a, b] \<Rightarrow>
             (if a = [] \<and> b = ''healthz'' then
                (if reads then (writeJSON 200 (JObj [(''status'', JStr ''ok'')]), s) else (mux_refuses True, s))
              else if a = [] \<and> b = ''tasks'' then
                (if posts
                 then auth token r (handleSubmit cf (re_files env) (re_runtime env) (re_engine env) (re_fresh env)) s
                 else (mux_refuses True, s))
              else (mux_refuses False, s))
         | [a, b, i] \<Rightarrow>
             (if a = [] \<and> b = ''tasks'' \<and> i \<noteq> [] then
                (if reads then auth token (r' i) handleGet s else (mux_refuses True, s))
              else (mux_refuses False, s))
         | [a, b, i, c] \<Rightarrow>
             (if a = [] \<and> b = ''tasks'' \<and> c = ''approve'' \<and> i \<noteq> [] then
                (if posts then auth token (r' i) (handleApprove cf (re_accepted env)) s else (mux_refuses True, s))
              else (mux_refuses False, s))
         | _ \<Rightarrow> (mux_refuses False, s))"

text \<open>A transport that delivers to the service at \<open>base\<close> and never loses a message.\<close>

definition direct :: "(string \<Rightarrow> string) \<Rightarrow> runtime_env \<Rightarrow> string \<Rightarrow> string \<Rightarrow> server transport" where
  "direct cf env token base meth url headers body s =
     (let r = \<lparr>req_Header = (\<lambda>h. case map_of headers h of Some v \<Rightarrow> v | None \<Rightarrow> []),
               req_Body = (case body of None \<Rightarrow> Raw_Empty | Some j \<Rightarrow> Raw_JSON j),
               req_PathValue = (\<lambda>n. []), req_Query = (\<lambda>n. [])\<rparr>;
          (resp, s') = runtime_routes cf env token meth (drop (length base) url) r s
      in (Inr (resp_Code resp, resp_Body resp), s'))"

subsection \<open>Encoding and decoding\<close>

lemmas lower_eval = field_matches_def ToLower_def is_ascii_def ascii_lower_def

lemmas decode_eval = str_field_def bool_field_def decode_field_def lower_eval

lemma submit_decodes:
  "decode_task cf (Raw_JSON (submit_json b)) =
     Some \<lparr>tr_RecipeID = sb_RecipeID b, tr_InlineGoal = sb_InlineGoal b, tr_Params = Map.empty,
           tr_Identity = sb_Identity b, tr_Committee = sb_Committee b, tr_HardTask = sb_HardTask b\<rparr>"
  by (simp add: submit_json_def decode_task_def omit_def decode_eval)

lemma approve_decodes:
  "decode_approve cf (Raw_JSON (approve_json a g by)) = Some \<lparr>dc_approvalID = a, dc_granted = g, dc_decidedBy = by\<rparr>"
  by (simp add: approve_json_def marshal_map_def decode_approve_def decode_eval)

lemma submitted_decodes:
  "decode_submitted cf (Raw_JSON (JObj [(''task_id'', JStr t)])) = Some (t, [])"
  by (simp add: decode_submitted_def decode_eval)

definition client_event :: "Event \<Rightarrow> ClientEvent" where
  "client_event e = \<lparr>ce_Kind = kind_text (ev_Kind e), ce_Text = ev_Text e, ce_Tool = ev_Tool e, ce_ApprovalID = ev_ApprovalID e\<rparr>"

lemma event_decodes:
  "(case body_object (Raw_JSON (event_json e)) of None \<Rightarrow> None | Some kvs \<Rightarrow> decode_event cf kvs) = Some (client_event e)"
  by (simp add: event_json_def decode_event_def client_event_def omit_def decode_eval)

lemma those_Some: "those (map (\<lambda>x. Some (f x)) xs) = Some (map f xs)"
  by (induction xs) auto

lemma events_decode: "json_events cf (JArr (map event_json es)) = Some (map client_event es)"
  by (simp add: o_def event_decodes those_Some)

definition client_view :: "snapshot \<Rightarrow> ClientSnapshot" where
  "client_view s = \<lparr>cs_Status = sn_Status s, cs_Events = map client_event (sn_Events s),
     cs_Pending = sn_Pending s, cs_Result = sn_Result s\<rparr>"

lemma pending_decodes:
  "json_pending cf (JObj [(''tool'', JStr (pa_Tool p)), (''approval_id'', JStr (pa_ApprovalID p))]) = Some (Some p)"
  by (simp add: decode_eval)

lemma result_decodes:
  "json_result cf (JObj ((''output'', JStr (rs_Output r)) # omit ''audit_ref'' (rs_AuditRef r))) = Some (Some r)"
  by (simp add: omit_def decode_eval)

lemma snapshot_decodes: "decode_snapshot cf (Raw_JSON (snapshot_json s)) = Some (client_view s)"
proof (cases "sn_Pending s"; cases "sn_Result s")
qed (simp_all add: snapshot_json_def decode_snapshot_def client_view_def omit_def decode_eval events_decode
   del: json_events.simps)

lemma omit_Nil_iff [simp]: "omit k v = [] \<longleftrightarrow> v = []"
  by (simp add: omit_def)

lemma insort_map_snd: "insort_key fst (k, g v) (map (\<lambda>(k, v). (k, g v)) ys) = map (\<lambda>(k, v). (k, g v)) (insort_key fst (k, v) ys)"
  by (induction ys) auto

lemma sort_map_snd: "sort_key fst (map (\<lambda>(k, v). (k, g v)) kvs) = map (\<lambda>(k, v). (k, g v)) (sort_key fst kvs)"
  by (induction kvs) (auto simp: insort_map_snd)

lemma map_of_mset:
  assumes "distinct (map fst kvs)" "mset xs = mset kvs"
  shows "map_of xs = map_of kvs"
proof
  fix k
  have d: "distinct (map fst xs)" using assms by (metis distinct_map mset_eq_imp_distinct_iff mset_eq_setD)
  have "map_of xs k = Some v \<longleftrightarrow> map_of kvs k = Some v" for v
    using map_of_eq_Some_iff [OF d] map_of_eq_Some_iff [OF assms(1)] mset_eq_setD [OF assms(2)] by simp
  then show "map_of xs k = map_of kvs k" by (metis option.exhaust)
qed

lemma json_params_strs: "json_params (JObj (map (\<lambda>(k, v). (k, JStr v)) ys)) = Some (map_of (rev ys))"
  by (auto simp: Let_def o_def case_prod_unfold rev_map)

lemma json_params_marshal:
  assumes "distinct (map fst kvs)"
  shows "json_params (marshal_map (map (\<lambda>(k, v). (k, JStr v)) kvs)) = Some (map_of kvs)"
proof -
  have "map_of (rev (sort_key fst kvs)) = map_of kvs" by (rule map_of_mset [OF assms]) simp
  then show ?thesis unfolding marshal_map_def sort_map_snd json_params_strs by simp
qed

declare json_params.simps [simp del]

lemma job_decodes:
  assumes "distinct (map fst (case params of None \<Rightarrow> [] | Some kvs \<Rightarrow> kvs))"
  shows "decode_task cf (Raw_JSON (job_json recipe committee params)) =
     Some \<lparr>tr_RecipeID = recipe, tr_InlineGoal = [],
           tr_Params = map_of (case params of None \<Rightarrow> [] | Some kvs \<Rightarrow> kvs), tr_Identity = [],
           tr_Committee = committee, tr_HardTask = False\<rparr>"
proof (cases params)
  case None
  then show ?thesis
    by (simp add: job_json_def params_json_def marshal_map_def decode_task_def decode_eval)
next
  case (Some kvs)
  obtain xs where m: "marshal_map (map (\<lambda>(k, v). (k, JStr v)) kvs) = JObj xs" by (simp add: marshal_map_def)
  then have "json_params (JObj xs) = Some (map_of kvs)" using assms Some json_params_marshal [of kvs] by simp
  then show ?thesis
    by (simp add: Some job_json_def params_json_def m)
       (simp add: marshal_map_def decode_task_def decode_eval del: json_params.simps)
qed

definition client_request :: "Client \<Rightarrow> json option \<Rightarrow> Request" where
  "client_request c body =
     \<lparr>req_Header = (\<lambda>h. case map_of (client_headers c) h of Some v \<Rightarrow> v | None \<Rightarrow> []),
      req_Body = (case body of None \<Rightarrow> Raw_Empty | Some j \<Rightarrow> Raw_JSON j),
      req_PathValue = (\<lambda>n. []), req_Query = (\<lambda>n. [])\<rparr>"

definition client_outcome :: "Response \<times> 's \<Rightarrow> (goerr + raw) \<times> 's" where
  "client_outcome rs =
     (let (resp, s') = rs
      in if resp_Code resp \<ge> 300 then (Inl (Errorf ''runtime: status %d'' [Itoa (resp_Code resp)]), s')
         else (Inr (resp_Body resp), s'))"

text \<open>A client set up for the service at its address.\<close>

definition connected :: "Client \<Rightarrow> string \<Rightarrow> (string \<Rightarrow> goerr option) \<Rightarrow> bool" where
  "connected c token parse_url \<longleftrightarrow> cl_baseURL c \<noteq> [] \<and> cl_token c = token \<and> token \<noteq> [] \<and> parse_url = (\<lambda>u. None)"

lemma client_do_direct:
  assumes "connected c token parse_url"
  shows "client_do parse_url (direct cf env token (cl_baseURL c)) c meth path body s =
     client_outcome (runtime_routes cf env token meth path (client_request c body) s)"
  using assms
  by (simp add: client_do_def Configured_def direct_def connected_def client_outcome_def client_request_def Let_def
      split: prod.splits)

lemma client_bearer_ok:
  assumes "connected c token parse_url"
  shows "bearer_ok token (client_request c body)"
    "bearer_ok token (client_request c body\<lparr>req_PathValue := f\<rparr>)"
  using assms by (simp_all add: bearer_ok_def client_request_def client_headers_def connected_def)

lemma route_submit:
  assumes "connected c token parse_url"
  shows "runtime_routes cf env token ''POST'' ''/tasks'' (client_request c (Some j)) s =
     handleSubmit cf (re_files env) (re_runtime env) (re_engine env) (re_fresh env) (client_request c (Some j)) s"
  using client_bearer_ok [OF assms] by (simp add: runtime_routes_def auth_def)

lemma route_get:
  assumes "connected c token parse_url" "i \<noteq> []" "CHR ''/'' \<notin> set i"
  shows "runtime_routes cf env token ''GET'' (''/tasks/'' @ i) (client_request c None) s =
     handleGet (client_request c None\<lparr>req_PathValue := (\<lambda>n. if n = ''id'' then i else [])\<rparr>) s"
  using client_bearer_ok [OF assms(1)] assms(2,3)
  by (simp add: runtime_routes_def auth_def split_on_no Let_def)

lemma route_approve:
  assumes "connected c token parse_url" "i \<noteq> []" "CHR ''/'' \<notin> set i"
  shows "runtime_routes cf env token ''POST'' (''/tasks/'' @ i @ ''/approve'') (client_request c (Some j)) s =
     handleApprove cf (re_accepted env) (client_request c (Some j)\<lparr>req_PathValue := (\<lambda>n. if n = ''id'' then i else [])\<rparr>) s"
proof -
  have "split_on (CHR ''/'') (''/tasks/'' @ i @ ''/approve'') = [[], ''tasks'', i, ''approve'']"
    using split_on_append_sep [OF assms(3), of "''approve''"] by simp
  then show ?thesis
    using client_bearer_ok [OF assms(1)] assms(2) by (simp add: runtime_routes_def auth_def Let_def)
qed

lemma approve_direct:
  assumes "connected c token parse_url" "i \<noteq> []" "CHR ''/'' \<notin> set i"
    and "rv_tasks s i = Some ts" "rv_running s i = Some t" "re_accepted env"
  shows "client_Approve parse_url (direct cf env token (cl_baseURL c)) c i a g by s =
        (Inr (), s\<lparr>rv_running := (rv_running s)(i \<mapsto>
           t\<lparr>tk_decisions := tk_decisions t @ [\<lparr>dc_approvalID = a, dc_granted = g, dc_decidedBy = by\<rparr>],
             tk_accepted := tk_accepted t @ [\<lparr>dc_approvalID = a, dc_granted = g, dc_decidedBy = by\<rparr>]\<rparr>),
           rv_tasks := (rv_tasks s)(i \<mapsto> resolved ts)\<rparr>)"
  unfolding client_Approve_def client_do_direct [OF assms(1)] route_approve [OF assms(1-3)]
  using assms(4-6)
  by (simp add: handleApprove_def client_request_def client_outcome_def writeJSON_def approve_decodes Let_def)

text \<open>
  C26. Client and service agree on the wire: with the service's address and token, submitting starts
  the task the caller described and returns its id, or fails with status 400 when the service cannot
  resolve it; polling returns the very snapshot of the task (every event, the pending approval, the
  result), or 404; and an approval delivers exactly the decision given to the running task.
\<close>

theorem runtime_client_agrees:
  assumes "connected c token parse_url" "re_fresh env \<noteq> []" "i \<noteq> []" "CHR ''/'' \<notin> set i"
  shows "client_Submit cf parse_url (direct cf env token (cl_baseURL c)) c b s =
      (case SubmitTask (re_files env) (re_runtime env) (re_engine env)
              \<lparr>tr_RecipeID = sb_RecipeID b, tr_InlineGoal = sb_InlineGoal b, tr_Params = Map.empty,
               tr_Identity = sb_Identity b, tr_Committee = sb_Committee b, tr_HardTask = sb_HardTask b\<rparr> of
         Inl e \<Rightarrow> (Inl (Errorf ''runtime: status %d'' [Itoa 400]), s)
       | Inr t \<Rightarrow> (Inr (re_fresh env), s\<lparr>rv_tasks := (rv_tasks s)(re_fresh env \<mapsto> new_taskState),
                    rv_running := (rv_running s)(re_fresh env \<mapsto> t)\<rparr>)) \<and>
    client_Get cf parse_url (direct cf env token (cl_baseURL c)) c i s =
      (case rv_tasks s i of None \<Rightarrow> (Inl (Errorf ''runtime: status %d'' [Itoa 404]), s)
       | Some ts \<Rightarrow> (Inr (client_view (snapshot_of ts)), s)) \<and>
    (rv_tasks s i = Some ts \<and> rv_running s i = Some t \<and> re_accepted env \<longrightarrow>
      client_Approve parse_url (direct cf env token (cl_baseURL c)) c i a g by s =
        (Inr (), s\<lparr>rv_running := (rv_running s)(i \<mapsto>
           t\<lparr>tk_decisions := tk_decisions t @ [\<lparr>dc_approvalID = a, dc_granted = g, dc_decidedBy = by\<rparr>],
             tk_accepted := tk_accepted t @ [\<lparr>dc_approvalID = a, dc_granted = g, dc_decidedBy = by\<rparr>]\<rparr>),
           rv_tasks := (rv_tasks s)(i \<mapsto> resolved ts)\<rparr>))"
proof (intro conjI impI)
  show "client_Submit cf parse_url (direct cf env token (cl_baseURL c)) c b s =
      (case SubmitTask (re_files env) (re_runtime env) (re_engine env)
              \<lparr>tr_RecipeID = sb_RecipeID b, tr_InlineGoal = sb_InlineGoal b, tr_Params = Map.empty,
               tr_Identity = sb_Identity b, tr_Committee = sb_Committee b, tr_HardTask = sb_HardTask b\<rparr> of
         Inl e \<Rightarrow> (Inl (Errorf ''runtime: status %d'' [Itoa 400]), s)
       | Inr t \<Rightarrow> (Inr (re_fresh env), s\<lparr>rv_tasks := (rv_tasks s)(re_fresh env \<mapsto> new_taskState),
                    rv_running := (rv_running s)(re_fresh env \<mapsto> t)\<rparr>))"
    unfolding client_Submit_def client_do_direct [OF assms(1)] route_submit [OF assms(1)]
    using assms(2) submit_decodes [of cf b] submitted_decodes [of cf "re_fresh env"]
    by (simp add: handleSubmit_def client_request_def client_outcome_def write_error_def writeJSON_def split: sum.splits)
  show "client_Get cf parse_url (direct cf env token (cl_baseURL c)) c i s =
      (case rv_tasks s i of None \<Rightarrow> (Inl (Errorf ''runtime: status %d'' [Itoa 404]), s)
       | Some ts \<Rightarrow> (Inr (client_view (snapshot_of ts)), s))"
    unfolding client_Get_def client_do_direct [OF assms(1)] route_get [OF assms(1,3,4)]
    by (simp add: handleGet_def client_outcome_def write_error_def writeJSON_def snapshot_decodes split: option.splits)
next
  assume "rv_tasks s i = Some ts \<and> rv_running s i = Some t \<and> re_accepted env"
  then have "rv_tasks s i = Some ts" "rv_running s i = Some t" "re_accepted env" by simp_all
  then show "client_Approve parse_url (direct cf env token (cl_baseURL c)) c i a g by s =
        (Inr (), s\<lparr>rv_running := (rv_running s)(i \<mapsto>
           t\<lparr>tk_decisions := tk_decisions t @ [\<lparr>dc_approvalID = a, dc_granted = g, dc_decidedBy = by\<rparr>],
             tk_accepted := tk_accepted t @ [\<lparr>dc_approvalID = a, dc_granted = g, dc_decidedBy = by\<rparr>]\<rparr>),
           rv_tasks := (rv_tasks s)(i \<mapsto> resolved ts)\<rparr>)"
    by (rule approve_direct [OF assms(1,3,4)])
qed

definition demo_env :: runtime_env where
  "demo_env = \<lparr>re_files = demo_files, re_runtime = \<lparr>rt_models = Models demo_goose, rt_recipesDir = ''recipes''\<rparr>,
     re_engine = (\<lambda>spec. demo_prog), re_fresh = ''t1'', re_accepted = True\<rparr>"

definition demo_client :: Client where
  "demo_client = \<lparr>cl_baseURL = ''http://runtime'', cl_token = ''key''\<rparr>"

theorem runtime_client_agrees_witness:
  "\<exists>s' v. client_Submit (\<lambda>s. s) (\<lambda>u. None) (direct (\<lambda>s. s) demo_env ''key'' ''http://runtime'') demo_client
       \<lparr>sb_InlineGoal = ''pay'', sb_RecipeID = [], sb_Identity = ''cli'', sb_Committee = [], sb_HardTask = False\<rparr>
       \<lparr>rv_tasks = Map.empty, rv_running = Map.empty\<rparr> = (Inr ''t1'', s') \<and>
     client_Get (\<lambda>s. s) (\<lambda>u. None) (direct (\<lambda>s. s) demo_env ''key'' ''http://runtime'') demo_client ''t1'' s' = (Inr v, s') \<and>
     cs_Status v = ''running''"
proof -
  have c: "connected demo_client ''key'' (\<lambda>u. None)" "re_fresh demo_env \<noteq> []" "''t1'' \<noteq> []" "CHR ''/'' \<notin> set ''t1''"
    by (simp_all add: connected_def demo_client_def demo_env_def)
  have b: "cl_baseURL demo_client = ''http://runtime''" by (simp add: demo_client_def)
  note agrees = runtime_client_agrees [OF c, unfolded b]
  have "\<exists>s'. client_Submit (\<lambda>s. s) (\<lambda>u. None) (direct (\<lambda>s. s) demo_env ''key'' ''http://runtime'') demo_client
       \<lparr>sb_InlineGoal = ''pay'', sb_RecipeID = [], sb_Identity = ''cli'', sb_Committee = [], sb_HardTask = False\<rparr>
       \<lparr>rv_tasks = Map.empty, rv_running = Map.empty\<rparr> = (Inr ''t1'', s') \<and> rv_tasks s' ''t1'' = Some new_taskState"
    by (subst conjunct1 [OF agrees]) (simp add: SubmitTask_def buildSpec_def demo_env_def)
  then obtain s' where s: "client_Submit (\<lambda>s. s) (\<lambda>u. None) (direct (\<lambda>s. s) demo_env ''key'' ''http://runtime'') demo_client
       \<lparr>sb_InlineGoal = ''pay'', sb_RecipeID = [], sb_Identity = ''cli'', sb_Committee = [], sb_HardTask = False\<rparr>
       \<lparr>rv_tasks = Map.empty, rv_running = Map.empty\<rparr> = (Inr ''t1'', s')" "rv_tasks s' ''t1'' = Some new_taskState" by blast
  have "client_Get (\<lambda>s. s) (\<lambda>u. None) (direct (\<lambda>s. s) demo_env ''key'' ''http://runtime'') demo_client ''t1'' s' =
      (Inr (client_view (snapshot_of new_taskState)), s')"
    by (subst conjunct1 [OF conjunct2 [OF agrees]]) (simp add: s(2))
  note got = this
  show ?thesis
    by (intro exI conjI, rule s(1), rule got) (simp add: client_view_def snapshot_of_def new_taskState_def)
qed

end
