(* ===== verification/Slack.thy ===== *)
theory Slack
  imports RuntimeClient
begin

text \<open>
  The Slack gateway (services/slack-gateway/internal/slack): the message blocks (blocks.go) and the
  handler (handler.go).  The runtime is the record \<open>RuntimeAPI\<close> of the three calls the handler
  makes; messages posted are recorded in order (the handler ignores the poster's errors).  The Slack
  library's parsing and signature check and the decoding of forms are arguments.  Text beyond ASCII is
  written as its UTF-8 bytes.
\<close>

subsection \<open>Blocks\<close>

record Button =
  bt_ActionID :: string
  bt_Value :: string
  bt_Text :: string
  bt_Style :: string

datatype Block = Section string | Context string | Actions string "Button list"

definition ActionApprove :: string where "ActionApprove = ''sl_approve''"
definition ActionReview :: string where "ActionReview = ''sl_review''"
definition ActionCancel :: string where "ActionCancel = ''sl_cancel''"

definition encodeValue :: "string \<Rightarrow> string \<Rightarrow> string" where
  "encodeValue taskID approvalID = taskID @ ''::'' @ approvalID"

definition decodeValue :: "string \<Rightarrow> string \<times> string" where
  "decodeValue v = (case cut_at ''::'' v of None \<Rightarrow> (v, []) | Some (a, b) \<Rightarrow> (a, b))"

definition em_dash :: string where "em_dash = [CHR 0xE2, CHR 0x80, CHR 0x94]"
definition middle_dot :: string where "middle_dot = [CHR 0xC2, CHR 0xB7]"

definition statusBlocks :: "string \<Rightarrow> Block list" where
  "statusBlocks t = [Section ('':robot_face: '' @ t)]"

definition resultBlocks :: "string \<Rightarrow> Block list" where
  "resultBlocks out =
     (let out = (if blank_str out then ''_(no output)_'' else out)
      in [Section ('':white_check_mark: *Done.*'' @ newline @ truncate_text out 2800),
          Context (''ScottyLabs Agent '' @ middle_dot @ '' audited'')])"

definition errorBlocks :: "string \<Rightarrow> Block list" where
  "errorBlocks msg = [Section ('':x: *Task failed:* '' @ truncate_text msg 2800)]"

definition approvalBlocks :: "string \<Rightarrow> string \<Rightarrow> string \<Rightarrow> string \<Rightarrow> Block list" where
  "approvalBlocks taskID approvalID tool argsJSON =
     (let val = encodeValue taskID approvalID
      in [Section ('':warning: *Approval required* '' @ em_dash @ '' high-impact action'' @ newline @ ''*Tool:* `'' @ tool @ ''`''),
          Section (''*Arguments (redacted):*'' @ newline @ ''```'' @ truncate_text argsJSON 1200 @ ''```''),
          Actions ''sl_approval''
            [\<lparr>bt_ActionID = ActionApprove, bt_Value = val, bt_Text = ''Approve'', bt_Style = ''primary''\<rparr>,
             \<lparr>bt_ActionID = ActionReview, bt_Value = val, bt_Text = ''Review'', bt_Style = []\<rparr>,
             \<lparr>bt_ActionID = ActionCancel, bt_Value = val, bt_Text = ''Cancel'', bt_Style = ''danger''\<rparr>]])"

subsection \<open>Text\<close>

text \<open>\<open>ReplaceAllString\<close> of \<open><@[A-Z0-9]+>\<close> by nothing, left to right.\<close>

definition mention_char :: "char \<Rightarrow> bool" where
  "mention_char c \<longleftrightarrow> is_digit c \<or> (CHR ''A'' \<le> c \<and> c \<le> CHR ''Z'')"

definition mention_at :: "string \<Rightarrow> string option" where
  "mention_at s =
     (case s of
        a # b # t \<Rightarrow>
          (if a = CHR ''<'' \<and> b = CHR ''@'' then
             (let name = takeWhile mention_char t; rest = dropWhile mention_char t
              in if name \<noteq> [] \<and> rest \<noteq> [] \<and> hd rest = CHR ''>'' then Some (tl rest) else None)
           else None)
      | _ \<Rightarrow> None)"

lemma mention_at_shorter: "mention_at s = Some t \<Longrightarrow> length t < length s"
proof -
  assume m: "mention_at s = Some t"
  then obtain a b u where s: "s = a # b # u" by (auto simp: mention_at_def split: list.splits)
  have "length t \<le> length (dropWhile mention_char u)"
    using m s by (auto simp: mention_at_def Let_def split: if_splits)
  also have "\<dots> \<le> length u" by (rule length_dropWhile_le)
  finally show ?thesis using s by simp
qed

function remove_mentions :: "string \<Rightarrow> string" where
  "remove_mentions s =
     (case mention_at s of
        Some t \<Rightarrow> remove_mentions t
      | None \<Rightarrow> (case s of [] \<Rightarrow> [] | c # cs \<Rightarrow> c # remove_mentions cs))"
  by pat_completeness auto
termination
  by (relation "measure length") (auto dest: mention_at_shorter)

declare remove_mentions.simps [simp del]

definition cleanText :: "string \<Rightarrow> string" where
  "cleanText s = TrimSpace (remove_mentions s)"

definition identity :: "string \<Rightarrow> string" where
  "identity slackUserID = (if slackUserID = [] then ''slack:unknown'' else ''slack:'' @ slackUserID)"

definition lastError :: "ClientSnapshot \<Rightarrow> string" where
  "lastError s = (case find (\<lambda>e. ce_Kind e = ''error'') (rev (cs_Events s)) of
     Some e \<Rightarrow> ce_Text e | None \<Rightarrow> ''task failed'')"

subsection \<open>The handler\<close>

record Message =
  ms_Channel :: string
  ms_ThreadTS :: string
  ms_Fallback :: string
  ms_Blocks :: "Block list"

record 's RuntimeAPI =
  ra_Submit :: "SubmitBody \<Rightarrow> 's \<Rightarrow> (goerr + string) \<times> 's"
  ra_Get :: "string \<Rightarrow> 's \<Rightarrow> (goerr + ClientSnapshot) \<times> 's"
  ra_Approve :: "string \<Rightarrow> string \<Rightarrow> bool \<Rightarrow> string \<Rightarrow> 's \<Rightarrow> (goerr + unit) \<times> 's"

record 's Handler =
  hd_rt :: "'s RuntimeAPI"
  hd_signingSecret :: string
  hd_botUserID :: string

text \<open>
  What a handler has done: the state of the runtime and the messages it has given to the poster, in
  order.  These are attempts: the handler drops the poster's error, so nothing it does depends on
  whether Slack took a message.
\<close>

type_synonym 's slack_world = "'s \<times> Message list"

definition post :: "string \<Rightarrow> string \<Rightarrow> string \<Rightarrow> Block list \<Rightarrow> 's slack_world \<Rightarrow> 's slack_world" where
  "post channel threadTS fallback blocks w =
     (fst w, snd w @ [\<lparr>ms_Channel = channel, ms_ThreadTS = threadTS, ms_Fallback = fallback, ms_Blocks = blocks\<rparr>])"

text \<open>
  The polling loop: each round reads the clock; \<open>clock\<close> lists the readings, and \<open>None\<close> means that the
  loop is still running when they end.
\<close>

fun poll_loop ::
  "'s RuntimeAPI \<Rightarrow> string \<Rightarrow> string \<Rightarrow> string \<Rightarrow> int \<Rightarrow> int list \<Rightarrow> string list \<Rightarrow> 's slack_world \<Rightarrow> 's slack_world option" where
  "poll_loop rt channel threadTS taskID deadline [] posted w = None"
| "poll_loop rt channel threadTS taskID deadline (now # clock) posted w =
     (if \<not> now < deadline
      then Some (post channel threadTS ''Task timed out.'' (errorBlocks ''task timed out before completing'') w)
      else
        (case ra_Get rt taskID (fst w) of
           (Inl e, s) \<Rightarrow> poll_loop rt channel threadTS taskID deadline clock posted (s, snd w)
         | (Inr snap, s) \<Rightarrow>
             (let (posted, w) =
                (case cs_Pending snap of
                   Some p \<Rightarrow>
                     (if pa_ApprovalID p \<notin> set posted
                      then (pa_ApprovalID p # posted,
                            post channel threadTS ''Approval required.''
                              (approvalBlocks taskID (pa_ApprovalID p) (pa_Tool p) []) (s, snd w))
                      else (posted, (s, snd w)))
                 | None \<Rightarrow> (posted, (s, snd w)))
              in if cs_Status snap = ''done'' then
                   Some (post channel threadTS ''Done.''
                     (resultBlocks (case cs_Result snap of Some r \<Rightarrow> rs_Output r | None \<Rightarrow> [])) w)
                 else if cs_Status snap = ''error'' then
                   Some (post channel threadTS ''Task failed.'' (errorBlocks (lastError snap)) w)
                 else poll_loop rt channel threadTS taskID deadline clock posted w)))"

definition runTask ::
  "'s RuntimeAPI \<Rightarrow> string \<Rightarrow> string \<Rightarrow> string \<Rightarrow> string \<Rightarrow> int \<Rightarrow> int list \<Rightarrow> 's slack_world \<Rightarrow> 's slack_world option" where
  "runTask rt channel threadTS ident txt deadline clock w =
     (if blank_str txt then Some w
      else
        (let w = post channel threadTS (''Got it '' @ em_dash @ '' working on it.'')
                   (statusBlocks (''Got it '' @ em_dash @ '' working on it'' @ ellipsis)) w
         in case ra_Submit rt \<lparr>sb_InlineGoal = txt, sb_RecipeID = [], sb_Identity = ident, sb_Committee = [],
                   sb_HardTask = False\<rparr> (fst w) of
              (Inl e, s) \<Rightarrow> Some (post channel threadTS ''Could not start the task.'' (errorBlocks (Error e)) (s, snd w))
            | (Inr taskID, s) \<Rightarrow> poll_loop rt channel threadTS taskID deadline clock [] (s, snd w)))"

subsection \<open>The routes\<close>

record SlackRequest =
  sq_Header :: "string \<Rightarrow> string"
  sq_Body :: "goerr + string"

text \<open>\<open>sig_ok\<close> is the Slack library's check of the signature headers against the secret and the body.\<close>

definition verify :: "(string \<Rightarrow> (string \<Rightarrow> string) \<Rightarrow> string \<Rightarrow> bool) \<Rightarrow> string \<Rightarrow> SlackRequest \<Rightarrow> string option" where
  "verify sig_ok secret r =
     (case sq_Body r of
        Inl e \<Rightarrow> None
      | Inr body \<Rightarrow>
          (if secret = [] then Some body
           else if sig_ok secret (sq_Header r) body then Some body else None))"

record AppMention =
  am_User :: string
  am_Text :: string
  am_Channel :: string
  am_TimeStamp :: string
  am_ThreadTimeStamp :: string

record SlackMessage = AppMention +
  sm_BotID :: string
  sm_SubType :: string
  sm_ChannelType :: string

datatype inner_event = AppMentionEvent AppMention | MessageEvent SlackMessage | OtherEvent

datatype slack_event = URLVerification | CallbackEvent inner_event | OtherType

definition plain_response :: "int \<Rightarrow> string \<Rightarrow> Response" where
  "plain_response code s = \<lparr>resp_Code = code, resp_Body = (if s = [] then Raw_Empty else Raw_Bad s)\<rparr>"

definition http_error :: "int \<Rightarrow> string \<Rightarrow> Response" where
  "http_error code msg = plain_response code (msg @ newline)"

text \<open>The background task an event starts, if any: channel, thread, identity and text.\<close>

definition event_task :: "string \<Rightarrow> inner_event \<Rightarrow> (string \<times> string \<times> string \<times> string) option" where
  "event_task botUserID inner =
     (case inner of
        AppMentionEvent e \<Rightarrow>
          (if am_User e = botUserID then None
           else Some (am_Channel e, firstNonEmpty [am_ThreadTimeStamp e, am_TimeStamp e], identity (am_User e), cleanText (am_Text e)))
      | MessageEvent e \<Rightarrow>
          (if sm_BotID e \<noteq> [] \<or> am_User e = botUserID \<or> sm_SubType e \<noteq> [] \<or> sm_ChannelType e \<noteq> ''im'' then None
           else Some (am_Channel e, firstNonEmpty [am_ThreadTimeStamp e, am_TimeStamp e], identity (am_User e), cleanText (am_Text e)))
      | OtherEvent \<Rightarrow> None)"

definition Events ::
  "(string \<Rightarrow> (string \<Rightarrow> string) \<Rightarrow> string \<Rightarrow> bool) \<Rightarrow> (string \<Rightarrow> goerr + slack_event) \<Rightarrow> (string \<Rightarrow> string) \<Rightarrow>
     's Handler \<Rightarrow> SlackRequest \<Rightarrow> Response \<times> (string \<times> string \<times> string \<times> string) option" where
  "Events sig_ok parse_event challenge h r =
     (case verify sig_ok (hd_signingSecret h) r of
        None \<Rightarrow> (http_error 401 ''unauthorized'', None)
      | Some body \<Rightarrow>
          (case parse_event body of
             Inl e \<Rightarrow> (http_error 400 ''bad request'', None)
           | Inr ev \<Rightarrow>
               (case ev of
                  URLVerification \<Rightarrow> (plain_response 200 (challenge body), None)
                | CallbackEvent inner \<Rightarrow> (plain_response 200 [], event_task (hd_botUserID h) inner)
                | OtherType \<Rightarrow> (plain_response 200 [], None))))"

record BlockAction =
  ba_ActionID :: string
  ba_Value :: string

record InteractionCallback =
  cb_Type :: string
  cb_UserID :: string
  cb_ChannelID :: string
  cb_MessageTS :: string
  cb_BlockActions :: "BlockAction list"

definition on_action :: "'s RuntimeAPI \<Rightarrow> InteractionCallback \<Rightarrow> BlockAction \<Rightarrow> 's slack_world \<Rightarrow> 's slack_world" where
  "on_action rt cb a w =
     (let (taskID, approvalID) = decodeValue (ba_Value a);
          by = identity (cb_UserID cb);
          user = ''<@'' @ cb_UserID cb @ ''>''
      in if ba_ActionID a = ActionApprove then
           post (cb_ChannelID cb) (cb_MessageTS cb) ''Approved.''
             (statusBlocks (''Approved by '' @ user @ '' '' @ em_dash @ '' resuming.''))
             (snd (ra_Approve rt taskID approvalID True by (fst w)), snd w)
         else if ba_ActionID a = ActionCancel then
           post (cb_ChannelID cb) (cb_MessageTS cb) ''Cancelled.''
             (statusBlocks ('':no_entry: Cancelled by '' @ user @ ''.''))
             (snd (ra_Approve rt taskID approvalID False by (fst w)), snd w)
         else if ba_ActionID a = ActionReview then
           post (cb_ChannelID cb) (cb_MessageTS cb) ''Left for review.''
             (statusBlocks (''Left pending for review by '' @ user @ ''.'')) w
         else w)"

text \<open>\<open>form\<close> gives the value of a key of a form body, \<open>parse_cb\<close> decodes the payload.\<close>

definition Interactions ::
  "(string \<Rightarrow> (string \<Rightarrow> string) \<Rightarrow> string \<Rightarrow> bool) \<Rightarrow> (string \<Rightarrow> string \<Rightarrow> string) \<Rightarrow> (string \<Rightarrow> goerr + InteractionCallback) \<Rightarrow>
     's Handler \<Rightarrow> SlackRequest \<Rightarrow> 's slack_world \<Rightarrow> Response \<times> 's slack_world" where
  "Interactions sig_ok form parse_cb h r w =
     (case verify sig_ok (hd_signingSecret h) r of
        None \<Rightarrow> (http_error 401 ''unauthorized'', w)
      | Some body \<Rightarrow>
          (case parse_cb (form body ''payload'') of
             Inl e \<Rightarrow> (http_error 400 ''bad request'', w)
           | Inr cb \<Rightarrow>
               (plain_response 200 [],
                if cb_Type cb \<noteq> ''block_actions'' then w
                else foldl (\<lambda>w a. on_action (hd_rt h) cb a w) w (cb_BlockActions cb))))"

definition Command ::
  "(string \<Rightarrow> (string \<Rightarrow> string) \<Rightarrow> string \<Rightarrow> bool) \<Rightarrow> (string \<Rightarrow> string \<Rightarrow> string) \<Rightarrow> 's Handler \<Rightarrow> SlackRequest \<Rightarrow> Response" where
  "Command sig_ok form h r =
     (case verify sig_ok (hd_signingSecret h) r of
        None \<Rightarrow> http_error 401 ''unauthorized''
      | Some body \<Rightarrow>
          writeJSON 200 (marshal_map
            [(''response_type'', JStr ''ephemeral''),
             (''text'', JStr ('':wrench: `'' @ form body ''command'' @ '' '' @ form body ''text'' @
                ''` enqueued to the Engineering Agent. You'' @ [CHR 0x27] @
                ''ll get a draft PR link here when it'' @ [CHR 0x27] @ ''s ready. (WP-11)''))]))"

subsection \<open>Facts\<close>

lemma Contains_no_char: "Contains s (c # d) \<Longrightarrow> c \<in> set s"
  by (induction s) (auto simp: prefix_def)

lemma decode_encode:
  assumes "CHR '':'' \<notin> set taskID"
  shows "decodeValue (encodeValue taskID approvalID) = (taskID, approvalID)"
proof -
  have "\<not> Contains (taskID @ butlast ''::'') ''::''"
    using assms
  proof (induction taskID)
    case (Cons c s)
    then show ?case by (auto simp: prefix_def)
  qed (simp add: prefix_def)
  then show ?thesis by (simp add: decodeValue_def encodeValue_def cut_at_append del: append_Cons)
qed

lemma remove_mentions_plain: "CHR ''<'' \<notin> set s \<Longrightarrow> remove_mentions s = s"
proof (induction s)
  case Nil
  show ?case by (subst remove_mentions.simps) (simp add: mention_at_def)
next
  case (Cons c s)
  then have "mention_at (c # s) = None" by (cases s) (auto simp: mention_at_def)
  with Cons show ?case by (subst remove_mentions.simps) simp
qed

text \<open>The buttons of an approval message.\<close>

fun block_buttons :: "Block \<Rightarrow> Button list" where
  "block_buttons (Actions i bs) = bs"
| "block_buttons _ = []"

definition buttons :: "Block list \<Rightarrow> Button list" where
  "buttons bs = concat (map block_buttons bs)"

definition click :: "Button \<Rightarrow> string \<Rightarrow> string \<Rightarrow> string \<Rightarrow> InteractionCallback" where
  "click b user channel ts = \<lparr>cb_Type = ''block_actions'', cb_UserID = user, cb_ChannelID = channel, cb_MessageTS = ts,
     cb_BlockActions = [\<lparr>ba_ActionID = bt_ActionID b, ba_Value = bt_Value b\<rparr>]\<rparr>"

definition button_decision :: "Button \<Rightarrow> bool option" where
  "button_decision b = (if bt_Text b = ''Approve'' then Some True else if bt_Text b = ''Cancel'' then Some False else None)"

lemma approval_buttons:
  "buttons (approvalBlocks taskID approvalID tool args) =
     [\<lparr>bt_ActionID = ActionApprove, bt_Value = encodeValue taskID approvalID, bt_Text = ''Approve'', bt_Style = ''primary''\<rparr>,
      \<lparr>bt_ActionID = ActionReview, bt_Value = encodeValue taskID approvalID, bt_Text = ''Review'', bt_Style = []\<rparr>,
      \<lparr>bt_ActionID = ActionCancel, bt_Value = encodeValue taskID approvalID, bt_Text = ''Cancel'', bt_Style = ''danger''\<rparr>]"
  by (simp add: buttons_def approvalBlocks_def Let_def)

lemma click_result:
  assumes "CHR '':'' \<notin> set taskID" "b \<in> set (buttons (approvalBlocks taskID approvalID tool args))"
    and "verify sig_ok (hd_signingSecret h) r = Some body" "parse_cb (form body ''payload'') = Inr (click b user channel ts)"
  shows "\<exists>m. Interactions sig_ok form parse_cb h r (s, msgs) =
    (plain_response 200 [],
     (case button_decision b of None \<Rightarrow> s
      | Some granted \<Rightarrow> snd (ra_Approve (hd_rt h) taskID approvalID granted (identity user) s), msgs @ [m])) \<and>
    ms_Channel m = channel \<and> ms_ThreadTS m = ts"
proof -
  let ?v = "encodeValue taskID approvalID"
  note d = decode_encode [OF assms(1), of approvalID]
  have i: "Interactions sig_ok form parse_cb h r (s, msgs) =
      (plain_response 200 [], on_action (hd_rt h) (click b user channel ts) \<lparr>ba_ActionID = bt_ActionID b, ba_Value = bt_Value b\<rparr> (s, msgs))"
    using assms(3,4) by (simp add: Interactions_def click_def)
  from assms(2) consider
      "b = \<lparr>bt_ActionID = ActionApprove, bt_Value = ?v, bt_Text = ''Approve'', bt_Style = ''primary''\<rparr>"
    | "b = \<lparr>bt_ActionID = ActionReview, bt_Value = ?v, bt_Text = ''Review'', bt_Style = []\<rparr>"
    | "b = \<lparr>bt_ActionID = ActionCancel, bt_Value = ?v, bt_Text = ''Cancel'', bt_Style = ''danger''\<rparr>"
    unfolding approval_buttons list.set insert_iff empty_iff by (elim disjE) simp_all
  then show ?thesis
    by cases (simp_all add: i on_action_def click_def d button_decision_def post_def ActionApprove_def ActionCancel_def ActionReview_def)
qed

subsection \<open>Properties\<close>

text \<open>
  With a signing secret, nothing happens without a valid Slack signature: a request whose body cannot
  be read or whose signature does not check gets 401 on every route, starts no task, delivers no
  decision to the runtime and posts nothing.
\<close>

theorem slack_unsigned_rejected:
  assumes "hd_signingSecret h \<noteq> []"
    and "\<forall>body. sq_Body r = Inr body \<longrightarrow> \<not> sig_ok (hd_signingSecret h) (sq_Header r) body"
  shows "Events sig_ok parse_event challenge h r = (http_error 401 ''unauthorized'', None) \<and>
    Interactions sig_ok form parse_cb h r w = (http_error 401 ''unauthorized'', w) \<and>
    Command sig_ok form h r = http_error 401 ''unauthorized''"
proof -
  have "verify sig_ok (hd_signingSecret h) r = None"
    using assms by (auto simp: verify_def split: sum.splits)
  then show ?thesis by (simp add: Events_def Interactions_def Command_def)
qed

text \<open>An approval request as it is posted.\<close>

definition approval_post :: "string \<Rightarrow> string \<Rightarrow> string \<Rightarrow> pendingApproval \<Rightarrow> Message" where
  "approval_post channel threadTS taskID p =
     \<lparr>ms_Channel = channel, ms_ThreadTS = threadTS, ms_Fallback = ''Approval required.'',
      ms_Blocks = approvalBlocks taskID (pa_ApprovalID p) (pa_Tool p) []\<rparr>"

text \<open>
  What a background task sees and must say.  \<open>observed\<close>: the answers of the runtime to the polls, one
  for each reading of the clock before the deadline, up to the first snapshot of a task that is over.
\<close>

definition over :: "goerr + ClientSnapshot \<Rightarrow> bool" where
  "over r = (case r of Inl e \<Rightarrow> False | Inr snap \<Rightarrow> cs_Status snap = ''done'' \<or> cs_Status snap = ''error'')"

fun observed :: "'s RuntimeAPI \<Rightarrow> string \<Rightarrow> int \<Rightarrow> int list \<Rightarrow> 's \<Rightarrow> (goerr + ClientSnapshot) list \<times> 's" where
  "observed rt taskID deadline [] s = ([], s)"
| "observed rt taskID deadline (now # clock) s =
     (if deadline \<le> now then ([], s)
      else (case ra_Get rt taskID s of
              (r, s1) \<Rightarrow>
                (if over r then ([r], s1)
                 else (case observed rt taskID deadline clock s1 of (rs, s2) \<Rightarrow> (r # rs, s2)))))"

text \<open>The questions shown in the snapshots, and the first of each approval id.\<close>

fun questions :: "(goerr + ClientSnapshot) list \<Rightarrow> pendingApproval list" where
  "questions [] = []"
| "questions (Inl e # rs) = questions rs"
| "questions (Inr snap # rs) =
     (case cs_Pending snap of None \<Rightarrow> questions rs | Some p \<Rightarrow> p # questions rs)"

fun first_of_each :: "pendingApproval list \<Rightarrow> pendingApproval list" where
  "first_of_each [] = []"
| "first_of_each (p # ps) = p # filter (\<lambda>q. pa_ApprovalID q \<noteq> pa_ApprovalID p) (first_of_each ps)"

lemma first_of_each_distinct: "distinct (map pa_ApprovalID (first_of_each ps))"
  by (induction ps) (auto simp: distinct_map_filter)

lemma first_of_each_ids: "pa_ApprovalID ` set (first_of_each ps) = pa_ApprovalID ` set ps"
proof (induction ps)
  case (Cons p ps)
  have "pa_ApprovalID ` {q \<in> set (first_of_each ps). pa_ApprovalID q \<noteq> pa_ApprovalID p} =
      pa_ApprovalID ` set (first_of_each ps) - {pa_ApprovalID p}" by auto
  with Cons show ?case by simp
qed simp

text \<open>The last message: the last snapshot decides; without one of a task that is over, the time ran out.\<close>

definition outcome_post :: "string \<Rightarrow> string \<Rightarrow> (goerr + ClientSnapshot) list \<Rightarrow> Message" where
  "outcome_post channel threadTS rs =
     (let say = (\<lambda>f b. \<lparr>ms_Channel = channel, ms_ThreadTS = threadTS, ms_Fallback = f, ms_Blocks = b\<rparr>);
          late = say ''Task timed out.'' (errorBlocks ''task timed out before completing'')
      in case rev rs of
           Inr snap # _ \<Rightarrow>
             (if cs_Status snap = ''done'' then
                say ''Done.'' (resultBlocks (case cs_Result snap of Some r \<Rightarrow> rs_Output r | None \<Rightarrow> []))
              else if cs_Status snap = ''error'' then say ''Task failed.'' (errorBlocks (lastError snap))
              else late)
         | _ \<Rightarrow> late)"

lemma outcome_post_Cons: "\<not> over r \<Longrightarrow> outcome_post channel threadTS (r # rs) = outcome_post channel threadTS rs"
  by (cases rs rule: rev_cases) (auto simp: outcome_post_def over_def Let_def split: sum.splits)

lemma filter_posted:
  "x \<in> set posted \<Longrightarrow> filter (\<lambda>q. pa_ApprovalID q \<noteq> x \<and> pa_ApprovalID q \<notin> set posted) qs =
     filter (\<lambda>q. pa_ApprovalID q \<notin> set posted) qs"
  by (auto intro!: filter_cong)

lemma poll_loop_exact:
  assumes "\<exists>now \<in> set clock. deadline \<le> now" "observed rt taskID deadline clock s = (rs, s2)"
  shows "poll_loop rt channel threadTS taskID deadline clock posted (s, ms) =
    Some (s2, ms @ map (approval_post channel threadTS taskID)
        (filter (\<lambda>q. pa_ApprovalID q \<notin> set posted) (first_of_each (questions rs))) @ [outcome_post channel threadTS rs])"
  using assms
proof (induction clock arbitrary: posted s ms rs s2)
  case (Cons now clock)
  show ?case
  proof (cases "deadline \<le> now")
    case True
    with Cons.prems show ?thesis by (simp add: post_def outcome_post_def)
  next
    case False
    with Cons.prems have later: "\<exists>now \<in> set clock. deadline \<le> now" by auto
    obtain r s1 where g: "ra_Get rt taskID s = (r, s1)" by force
    obtain rs' s2' where o': "observed rt taskID deadline clock s1 = (rs', s2')" by force
    note IH = Cons.IH [OF later o']
    show ?thesis
    proof (cases r)
      case (Inl e)
      with Cons.prems g False o' have "rs = Inl e # rs'" "s2 = s2'" by (simp_all add: over_def)
      with g False IH [of posted ms] Inl show ?thesis by (simp add: outcome_post_Cons over_def)
    next
      case (Inr snap)
      have seen: "(rs, s2) = (if over r then ([r], s1) else (r # rs', s2'))"
        using Cons.prems(2) g False o' by (simp split: if_splits)
      show ?thesis
      proof (cases "over r")
        case True
        with seen have "rs = [Inr snap]" "s2 = s1" by (simp_all add: Inr)
        with True g False Inr show ?thesis
          by (auto simp: over_def outcome_post_def post_def approval_post_def split: option.split)
      next
        case running: False
        with seen have rs: "rs = Inr snap # rs'" "s2 = s2'" by (simp_all add: Inr)
        from running have st: "cs_Status snap \<noteq> ''done''" "cs_Status snap \<noteq> ''error''" by (simp_all add: over_def Inr)
        show ?thesis
        proof (cases "cs_Pending snap")
          case None
          with g False Inr st IH [of posted ms] running show ?thesis by (simp add: rs outcome_post_Cons)
        next
          case (Some p)
          let ?ms = "ms @ [approval_post channel threadTS taskID p]"
          have "poll_loop rt channel threadTS taskID deadline (now # clock) posted (s, ms) =
              (if pa_ApprovalID p \<notin> set posted
               then poll_loop rt channel threadTS taskID deadline clock (pa_ApprovalID p # posted) (s1, ?ms)
               else poll_loop rt channel threadTS taskID deadline clock posted (s1, ms))"
            using g False Inr st Some by (simp add: post_def approval_post_def)
          with IH [of "pa_ApprovalID p # posted" ?ms] IH [of posted ms] running Inr Some show ?thesis
            by (simp add: rs outcome_post_Cons filter_posted)
        qed
      qed
    qed
  qed
qed simp

text \<open>
  C28. A mention is answered exactly.  Once the clock passes the deadline the background task of a text
  that is not blank has returned, and it has attempted these posts in its thread, in this order: an
  acknowledgement; when the runtime refused the task, that it could not start with the error, and
  nothing else; and otherwise, for the task id that \<open>Submit\<close> returned, one approval request for each
  approval id that a poll showed as pending, with the tool shown first and in the order they appeared,
  and one outcome that the last snapshot decides: its result when it is \<open>done\<close>, its last error when
  it is \<open>error\<close>, and otherwise that the time ran out.
\<close>

theorem runTask_answers:
  assumes "\<not> blank_str txt" "\<exists>now \<in> set clock. deadline \<le> now"
  shows "runTask rt channel threadTS ident txt deadline clock (s, ms) =
    (let say = (\<lambda>f b. \<lparr>ms_Channel = channel, ms_ThreadTS = threadTS, ms_Fallback = f, ms_Blocks = b\<rparr>);
         ack = say (''Got it '' @ em_dash @ '' working on it.'') (statusBlocks (''Got it '' @ em_dash @ '' working on it'' @ ellipsis))
     in case ra_Submit rt \<lparr>sb_InlineGoal = txt, sb_RecipeID = [], sb_Identity = ident, sb_Committee = [], sb_HardTask = False\<rparr> s of
          (Inl e, s1) \<Rightarrow> Some (s1, ms @ [ack, say ''Could not start the task.'' (errorBlocks (Error e))])
        | (Inr taskID, s1) \<Rightarrow>
            (case observed rt taskID deadline clock s1 of
               (rs, s2) \<Rightarrow> Some (s2, ms @ [ack] @
                 map (approval_post channel threadTS taskID) (first_of_each (questions rs)) @ [outcome_post channel threadTS rs])))"
proof -
  define ack where "ack = \<lparr>ms_Channel = channel, ms_ThreadTS = threadTS,
     ms_Fallback = ''Got it '' @ em_dash @ '' working on it.'',
     ms_Blocks = statusBlocks (''Got it '' @ em_dash @ '' working on it'' @ ellipsis)\<rparr>"
  obtain res s1 where sub: "ra_Submit rt \<lparr>sb_InlineGoal = txt, sb_RecipeID = [], sb_Identity = ident, sb_Committee = [],
      sb_HardTask = False\<rparr> s = (res, s1)" by force
  show ?thesis
  proof (cases res)
    case (Inl e)
    with sub assms(1) show ?thesis by (simp add: runTask_def post_def Let_def)
  next
    case (Inr taskID)
    obtain rs s2 where o: "observed rt taskID deadline clock s1 = (rs, s2)" by force
    have "runTask rt channel threadTS ident txt deadline clock (s, ms) =
        poll_loop rt channel threadTS taskID deadline clock [] (s1, ms @ [ack])"
      using sub assms(1) Inr by (simp add: runTask_def post_def ack_def Let_def)
    also have "\<dots> = Some (s2, (ms @ [ack]) @ map (approval_post channel threadTS taskID) (first_of_each (questions rs)) @
        [outcome_post channel threadTS rs])"
      using poll_loop_exact [OF assms(2) o, of channel threadTS "[]"] by simp
    finally show ?thesis using sub Inr o by (simp add: ack_def Let_def)
  qed
qed

definition client_api :: "(string \<Rightarrow> string) \<Rightarrow> (string \<Rightarrow> goerr option) \<Rightarrow> 's transport \<Rightarrow> Client \<Rightarrow> 's RuntimeAPI" where
  "client_api cf parse_url http c =
     \<lparr>ra_Submit = client_Submit cf parse_url http c, ra_Get = client_Get cf parse_url http c,
      ra_Approve = client_Approve parse_url http c\<rparr>"

text \<open>
  C27. From the button to the agent: a signed click on a button of an approval message, with the gateway
  connected to the runtime service, delivers to that running task exactly the decision of the button
  (granted for Approve, denied for Cancel, nothing for Review) with its approval id and the clicking user,
  touches no other task and posts one answer in the thread; and if the task waits for that approval,
  its next step resumes the engine with that answer.
\<close>

theorem click_reaches_task:
  assumes "connected c token parse_url" "i \<noteq> []" "CHR ''/'' \<notin> set i" "CHR '':'' \<notin> set i"
    and "rv_tasks s i = Some ts" "rv_running s i = Some t" "re_accepted env"
    and "hd_rt h = client_api cf parse_url (direct cf env token (cl_baseURL c)) c"
    and "b \<in> set (buttons (approvalBlocks i approvalID tool args))"
    and "verify sig_ok (hd_signingSecret h) r = Some body" "parse_cb (form body ''payload'') = Inr (click b user channel ts')"
  shows "\<exists>s' m. Interactions sig_ok form parse_cb h r (s, msgs) = (plain_response 200 [], (s', msgs @ [m])) \<and>
    ms_Channel m = channel \<and> ms_ThreadTS m = ts' \<and>
    (case button_decision b of
       None \<Rightarrow> s' = s
     | Some g \<Rightarrow> (\<exists>t'. rv_running s' = (rv_running s)(i \<mapsto> t') \<and>
         tk_decisions t' = tk_decisions t @ [\<lparr>dc_approvalID = approvalID, dc_granted = g, dc_decidedBy = identity user\<rparr>] \<and>
         (\<forall>k. tk_pc t = Waiting approvalID k \<and> tk_decisions t = [] \<longrightarrow>
            (\<exists>t''. task_step t' t'' \<and> tk_pc t'' = At (k (Inr g))))))"
proof -
  obtain m where m: "Interactions sig_ok form parse_cb h r (s, msgs) =
    (plain_response 200 [],
     (case button_decision b of None \<Rightarrow> s
      | Some granted \<Rightarrow> snd (ra_Approve (hd_rt h) i approvalID granted (identity user) s), msgs @ [m]))"
    "ms_Channel m = channel" "ms_ThreadTS m = ts'"
    using click_result [where parse_cb = parse_cb and form = form and h = h and user = user and channel = channel and ts = ts', OF assms(4,9,10,11)] by blast
  show ?thesis
  proof (cases "button_decision b")
    case None
    with m show ?thesis by auto
  next
    case (Some g)
    let ?d = "\<lparr>dc_approvalID = approvalID, dc_granted = g, dc_decidedBy = identity user\<rparr>"
    let ?t = "t\<lparr>tk_decisions := tk_decisions t @ [?d], tk_accepted := tk_accepted t @ [?d]\<rparr>"
    have "\<exists>t''. task_step ?t t'' \<and> tk_pc t'' = At (k (Inr g))" if "tk_pc t = Waiting approvalID k" "tk_decisions t = []" for k
    proof -
      have "task_step ?t (?t\<lparr>tk_pc := At (k (Inr (dc_granted ?d))), tk_decisions := [],
          tk_answers := tk_answers ?t @ [(approvalID, ?d)]\<rparr>)"
        by (rule task_step.answer) (simp_all add: that for_other_def)
      moreover have "tk_pc (?t\<lparr>tk_pc := At (k (Inr (dc_granted ?d))), tk_decisions := [],
          tk_answers := tk_answers ?t @ [(approvalID, ?d)]\<rparr>) = At (k (Inr g))" by simp
      ultimately show ?thesis by blast
    qed
    then have res: "\<forall>k. tk_pc t = Waiting approvalID k \<and> tk_decisions t = [] \<longrightarrow>
        (\<exists>t''. task_step ?t t'' \<and> tk_pc t'' = At (k (Inr g)))" by blast
    let ?s = "s\<lparr>rv_running := (rv_running s)(i \<mapsto> ?t), rv_tasks := (rv_tasks s)(i \<mapsto> resolved ts)\<rparr>"
    have "snd (ra_Approve (hd_rt h) i approvalID g (identity user) s) = ?s"
      unfolding assms(8) client_api_def RuntimeAPI.simps approve_direct [OF assms(1-3,5-7)] by simp
    then have "Interactions sig_ok form parse_cb h r (s, msgs) = (plain_response 200 [], (?s, msgs @ [m]))"
      using m(1) Some by simp
    moreover have "\<exists>t'. rv_running ?s = (rv_running s)(i \<mapsto> t') \<and> tk_decisions t' = tk_decisions t @ [?d] \<and>
        (\<forall>k. tk_pc t = Waiting approvalID k \<and> tk_decisions t = [] \<longrightarrow>
            (\<exists>t''. task_step t' t'' \<and> tk_pc t'' = At (k (Inr g))))"
      by (rule exI [of _ ?t]) (intro conjI res, simp_all)
    ultimately show ?thesis using m(2,3) unfolding Some option.case by blast
  qed
qed

text \<open>The first run of the witnesses: a gateway in front of the demo service, one task waiting for its approval.\<close>

definition demo_slack :: "server Handler" where
  "demo_slack = \<lparr>hd_rt = client_api (\<lambda>s. s) (\<lambda>u. None) (direct (\<lambda>s. s) demo_env ''key'' ''http://runtime'') demo_client,
     hd_signingSecret = ''shh'', hd_botUserID = ''B1''\<rparr>"

definition demo_signed :: SlackRequest where
  "demo_signed = \<lparr>sq_Header = (\<lambda>h. ''v0''), sq_Body = Inr ''body''\<rparr>"

definition demo_waiting :: server where
  "demo_waiting = \<lparr>rv_tasks = [''t1'' \<mapsto> new_taskState],
     rv_running = [''t1'' \<mapsto> (new_task demo_prog)\<lparr>tk_pc := Waiting ''a1'' (\<lambda>r. Return (Inl (External ''x'')))\<rparr>]\<rparr>"

definition approve_button :: Button where
  "approve_button = hd (buttons (approvalBlocks ''t1'' ''a1'' ''pay'' []))"

theorem click_reaches_task_witness:
  "\<exists>s' m t'. Interactions (\<lambda>k h b. True) (\<lambda>b k. b) (\<lambda>p. Inr (click approve_button ''U7'' ''C1'' ''17.5'')) demo_slack
      demo_signed (demo_waiting, []) = (plain_response 200 [], (s', [m])) \<and>
    rv_running s' ''t1'' = Some t' \<and> map dc_granted (tk_decisions t') = [True] \<and>
    map dc_decidedBy (tk_decisions t') = [''slack:U7'']"
proof -
  have c: "connected demo_client ''key'' (\<lambda>u. None)" by (simp add: connected_def demo_client_def)
  have h: "hd_rt demo_slack = client_api (\<lambda>s. s) (\<lambda>u. None) (direct (\<lambda>s. s) demo_env ''key'' (cl_baseURL demo_client)) demo_client"
    by (simp add: demo_slack_def demo_client_def)
  have b: "approve_button \<in> set (buttons (approvalBlocks ''t1'' ''a1'' ''pay'' []))"
    by (simp add: approve_button_def approval_buttons)
  have g: "button_decision approve_button = Some True"
    by (simp add: approve_button_def approval_buttons button_decision_def)
  have st: "rv_tasks demo_waiting ''t1'' = Some new_taskState"
    "rv_running demo_waiting ''t1'' = Some ((new_task demo_prog)\<lparr>tk_pc := Waiting ''a1'' (\<lambda>r. Return (Inl (External ''x'')))\<rparr>)"
    "re_accepted demo_env" by (simp_all add: demo_waiting_def demo_env_def)
  have v: "verify (\<lambda>k h b. True) (hd_signingSecret demo_slack) demo_signed = Some ''body''"
    by (simp add: verify_def demo_signed_def)
  have i: "''t1'' \<noteq> []" "CHR ''/'' \<notin> set ''t1''" "CHR '':'' \<notin> set ''t1''" by simp_all
  from click_reaches_task [where form = "\<lambda>b k. b" and parse_cb = "\<lambda>p. Inr (click approve_button ''U7'' ''C1'' ''17.5'')"
      and msgs = "[]", OF c i st h b v refl]
  show ?thesis unfolding g by (auto simp: new_task_def identity_def)
qed

theorem slack_unsigned_rejected_witness:
  "Interactions (\<lambda>k h b. False) (\<lambda>b k. b) (\<lambda>p. Inr (click approve_button ''U7'' ''C1'' ''17.5'')) demo_slack
      demo_signed (demo_waiting, []) = (http_error 401 ''unauthorized'', (demo_waiting, []))"
proof -
  have "hd_signingSecret demo_slack \<noteq> []" by (simp add: demo_slack_def)
  from slack_unsigned_rejected [OF this, of demo_signed "\<lambda>k h b. False"] show ?thesis by simp
qed

text \<open>A runtime that shows two questions, the first one twice and once with another tool, and then a result.\<close>

definition demo_answers :: "nat RuntimeAPI" where
  "demo_answers = \<lparr>ra_Submit = (\<lambda>b n. (Inr ''t1'', n)),
     ra_Get = (\<lambda>i n. (Inr \<lparr>cs_Status = (if n = 3 then ''done'' else ''awaiting_approval''), cs_Events = [],
        cs_Pending = Some (if n = 0 then \<lparr>pa_Tool = ''pay'', pa_ApprovalID = ''a1''\<rparr>
          else if n = 1 then \<lparr>pa_Tool = ''refund'', pa_ApprovalID = ''a1''\<rparr>
          else \<lparr>pa_Tool = ''send'', pa_ApprovalID = ''a2''\<rparr>),
        cs_Result = Some \<lparr>rs_Output = ''paid'', rs_AuditRef = []\<rparr>\<rparr>, Suc n)),
     ra_Approve = (\<lambda>i a g by n. (Inr (), n))\<rparr>"

theorem runTask_answers_witness:
  "\<exists>ack. runTask demo_answers ''C1'' ''17.5'' ''slack:U7'' ''pay it'' 100 [0, 1, 2, 3, 100] (0, []) =
     Some (4, [ack, approval_post ''C1'' ''17.5'' ''t1'' \<lparr>pa_Tool = ''pay'', pa_ApprovalID = ''a1''\<rparr>,
       approval_post ''C1'' ''17.5'' ''t1'' \<lparr>pa_Tool = ''send'', pa_ApprovalID = ''a2''\<rparr>,
       \<lparr>ms_Channel = ''C1'', ms_ThreadTS = ''17.5'', ms_Fallback = ''Done.'', ms_Blocks = resultBlocks ''paid''\<rparr>])"
proof -
  have b: "\<not> blank_str ''pay it''" by code_simp
  have c: "\<exists>now \<in> set [0, 1, 2, 3, 100 :: int]. 100 \<le> now" by simp
  show ?thesis
    unfolding runTask_answers [OF b c]
    by (simp add: demo_answers_def Let_def over_def outcome_post_def)
qed

end
