(* ===== verification/Scheduler.thy ===== *)
theory Scheduler
  imports RuntimeClient
begin

text \<open>
  The scheduler (services/scheduler): which jobs are due at a minute and their submission through the
  runtime (internal/scheduler), and the job set (internal/config).  Times are nanoseconds since Go's
  zero time.  The cron library is the argument \<open>parse\<close>: a specification gives an error or the function
  \<open>Next\<close> of its schedule; \<open>cron_law\<close> is what its documentation promises of \<open>Next\<close>.
\<close>

subsection \<open>Jobs\<close>

record Job =
  jb_Name :: string
  jb_Spec :: string
  jb_Recipe :: string
  jb_Committee :: string
  jb_Params :: "(string \<times> string) list option"

record RunResult =
  rr_Job :: string
  rr_TaskID :: string
  rr_Err :: string

type_synonym parse_cron = "string \<Rightarrow> goerr + (int \<Rightarrow> int)"

type_synonym 's submit = "string \<Rightarrow> string \<Rightarrow> (string \<times> string) list option \<Rightarrow> 's \<Rightarrow> (goerr + string) \<times> 's"

definition minute :: int where "minute = 60 * 10 ^ 9"
definition second :: int where "second = 10 ^ 9"

definition minute_of :: "int \<Rightarrow> int" where
  "minute_of now = now - now mod minute"

fun due_loop :: "parse_cron \<Rightarrow> int \<Rightarrow> Job list \<Rightarrow> Job list \<Rightarrow> goerr + Job list" where
  "due_loop parse m [] due = Inr due"
| "due_loop parse m (j # js) due =
     (case parse (jb_Spec j) of
        Inl e \<Rightarrow> Inl (Wrap ''scheduler: job %q has invalid spec %q: '' [jb_Name j, jb_Spec j] e)
      | Inr nxt \<Rightarrow> due_loop parse m js (if nxt (m - second) = m then due @ [j] else due))"

definition Due :: "parse_cron \<Rightarrow> Job list \<Rightarrow> int \<Rightarrow> goerr + Job list" where
  "Due parse jobs now = due_loop parse (minute_of now) jobs []"

fun run_jobs :: "'s submit \<Rightarrow> Job list \<Rightarrow> 's \<Rightarrow> RunResult list \<times> 's" where
  "run_jobs submit [] s = ([], s)"
| "run_jobs submit (j # js) s =
     (let (res, s) = submit (jb_Recipe j) (jb_Committee j) (jb_Params j) s;
          r = (case res of
                 Inl e \<Rightarrow> \<lparr>rr_Job = jb_Name j, rr_TaskID = [], rr_Err = Error e\<rparr>
               | Inr taskID \<Rightarrow> \<lparr>rr_Job = jb_Name j, rr_TaskID = taskID, rr_Err = []\<rparr>);
          (rs, s) = run_jobs submit js s
      in (r # rs, s))"

definition RunDue :: "parse_cron \<Rightarrow> 's submit \<Rightarrow> Job list \<Rightarrow> int \<Rightarrow> 's \<Rightarrow> (goerr + RunResult list) \<times> 's" where
  "RunDue parse submit jobs now s =
     (case Due parse jobs now of
        Inl e \<Rightarrow> (Inl e, s)
      | Inr due \<Rightarrow> (let (results, s) = run_jobs submit due s in (Inr results, s)))"

definition DefaultSchedule :: "Job list" where
  "DefaultSchedule =
     [\<lparr>jb_Name = ''weekly-leadership-digest'', jb_Spec = ''0 13 * * 1'', jb_Recipe = ''shared/weekly-digest'',
       jb_Committee = ''leadership'', jb_Params = None\<rparr>,
      \<lparr>jb_Name = ''daily-reimbursement-screening'', jb_Spec = ''0 13 * * *'', jb_Recipe = ''finance/screen-reimbursement'',
       jb_Committee = ''finance'', jb_Params = Some [(''sheet_id'', [])]\<rparr>]"

subsection \<open>Configuration\<close>

record SchedulerConfig =
  sc_RuntimeURL :: string
  sc_RuntimeToken :: string
  sc_ScheduleFile :: string
  sc_Port :: string

definition Load_scheduler_config :: "(string \<Rightarrow> string) \<Rightarrow> SchedulerConfig" where
  "Load_scheduler_config env =
     \<lparr>sc_RuntimeURL = env ''RUNTIME_URL'', sc_RuntimeToken = env ''RUNTIME_SERVICE_TOKEN'',
      sc_ScheduleFile = env ''SCHEDULE_FILE'', sc_Port = firstNonEmpty [env ''PORT'', ''8080'']\<rparr>"

definition Jobs :: "(string \<Rightarrow> goerr + string) \<Rightarrow> (string \<Rightarrow> goerr + Job list) \<Rightarrow> SchedulerConfig \<Rightarrow> goerr + Job list" where
  "Jobs read_file parse_jobs c =
     (if sc_ScheduleFile c = [] then Inr DefaultSchedule
      else (case read_file (sc_ScheduleFile c) of
              Inl e \<Rightarrow> Inl (Wrap ''config: read schedule file: '' [] e)
            | Inr raw \<Rightarrow>
                (case parse_jobs raw of
                   Inl e \<Rightarrow> Inl (Wrap ''config: parse schedule file: '' [] e) | Inr jobs \<Rightarrow> Inr jobs)))"

text \<open>The service: one run per tick of its clock, and the tasks each run reported.\<close>

fun serve_ticks :: "parse_cron \<Rightarrow> 's submit \<Rightarrow> Job list \<Rightarrow> int list \<Rightarrow> 's \<Rightarrow> (goerr + RunResult list) list \<times> 's" where
  "serve_ticks parse submit jobs [] s = ([], s)"
| "serve_ticks parse submit jobs (now # ticks) s =
     (let (r, s) = RunDue parse submit jobs now s; (rs, s) = serve_ticks parse submit jobs ticks s in (r # rs, s))"

subsection \<open>Due jobs\<close>

text \<open>
  The documented contract of a schedule with activation times \<open>A\<close> (whole minutes): \<open>Next\<close> gives the
  first activation after its argument, or the zero time when there is none within five years.
\<close>

definition cron_law :: "int set \<Rightarrow> (int \<Rightarrow> int) \<Rightarrow> bool" where
  "cron_law A nxt \<longleftrightarrow> (\<forall>a \<in> A. 0 < a \<and> a mod minute = 0) \<and>
     (\<forall>t. nxt t \<in> A \<and> t < nxt t \<and> (\<forall>a \<in> A. t < a \<longrightarrow> nxt t \<le> a) \<or>
          nxt t = 0 \<and> (\<forall>a \<in> A. \<not> (t < a \<and> a \<le> t + 5 * 365 * 24 * 60 * minute)))"

lemma minute_of_pos: "minute \<le> now \<Longrightarrow> 0 < minute_of now \<and> minute_of now \<le> now \<and> now < minute_of now + minute \<and> minute_of now mod minute = 0"
proof -
  assume "minute \<le> now"
  have m: "0 < minute" by (simp add: minute_def)
  then have b: "0 \<le> now mod minute" "now mod minute < minute" by simp_all
  have "(now - now mod minute) mod minute = 0" by (simp add: minus_mod_eq_mult_div)
  with b m \<open>minute \<le> now\<close> show ?thesis unfolding minute_of_def by linarith
qed

lemma due_next_iff:
  assumes "cron_law A nxt" "0 < m" "m mod minute = 0"
  shows "nxt (m - second) = m \<longleftrightarrow> m \<in> A"
proof
  assume n: "nxt (m - second) = m"
  with assms(1,2) show "m \<in> A" unfolding cron_law_def by (metis less_irrefl)
next
  assume "m \<in> A"
  have "nxt (m - second) \<in> A \<and> m - second < nxt (m - second) \<and> (\<forall>a \<in> A. m - second < a \<longrightarrow> nxt (m - second) \<le> a) \<or>
      nxt (m - second) = 0 \<and> (\<forall>a \<in> A. \<not> (m - second < a \<and> a \<le> m - second + 5 * 365 * 24 * 60 * minute))"
    using assms(1) unfolding cron_law_def by blast
  moreover have "m - second < m" "m \<le> m - second + 5 * 365 * 24 * 60 * minute" by (simp_all add: second_def minute_def)
  ultimately have n: "nxt (m - second) \<in> A" "m - second < nxt (m - second)" "nxt (m - second) \<le> m"
    using \<open>m \<in> A\<close> by blast+
  then have "nxt (m - second) mod minute = 0" using assms(1) unfolding cron_law_def by blast
  with assms(3) have "minute dvd m - nxt (m - second)" by (simp add: dvd_diff mod_0_imp_dvd)
  moreover have "0 \<le> m - nxt (m - second)" "m - nxt (m - second) < minute"
    using n by (simp_all add: second_def minute_def)
  ultimately have "m - nxt (m - second) = 0" using zdvd_not_zless by force
  then show "nxt (m - second) = m" by simp
qed

lemma due_loop_filter:
  assumes "\<forall>j \<in> set jobs. \<exists>nxt. parse (jb_Spec j) = Inr nxt \<and> cron_law (acts (jb_Spec j)) nxt" "0 < m" "m mod minute = 0"
  shows "due_loop parse m jobs due = Inr (due @ filter (\<lambda>j. m \<in> acts (jb_Spec j)) jobs)"
  using assms(1)
proof (induction jobs arbitrary: due)
  case (Cons j jobs)
  then obtain nxt where n: "parse (jb_Spec j) = Inr nxt" "cron_law (acts (jb_Spec j)) nxt" by auto
  with Cons due_next_iff [OF n(2) assms(2,3)] show ?case by simp
qed simp

lemma Due_filter:
  assumes "\<forall>j \<in> set jobs. \<exists>nxt. parse (jb_Spec j) = Inr nxt \<and> cron_law (acts (jb_Spec j)) nxt" "minute \<le> now"
  shows "Due parse jobs now = Inr (filter (\<lambda>j. minute_of now \<in> acts (jb_Spec j)) jobs)"
  using due_loop_filter [of jobs parse acts "minute_of now" "[]"] assms minute_of_pos [of now] by (simp add: Due_def)

text \<open>One job with an invalid specification keeps every due job from running.\<close>

lemma bad_spec_blocks_all:
  assumes "j \<in> set jobs" "parse (jb_Spec j) = Inl e"
  shows "\<exists>e'. RunDue parse submit jobs now s = (Inl e', s)"
proof -
  have "\<exists>e'. due_loop parse m jobs due = Inl e'" for m due
    using assms by (induction jobs arbitrary: due) (auto split: sum.splits)
  then show ?thesis unfolding RunDue_def Due_def by (metis sum.case(1))
qed

subsection \<open>Runs\<close>

lemma run_jobs_results:
  assumes "run_jobs submit js s = (rs, s')"
  shows "map rr_Job rs = map jb_Name js"
  using assms by (induction js arbitrary: s rs) (auto simp: Let_def split: prod.splits sum.splits)

text \<open>A submit that also records its calls.\<close>

type_synonym call = "string \<times> string \<times> (string \<times> string) list option"

definition logged :: "'s submit \<Rightarrow> (call list \<times> 's) submit" where
  "logged sub r c ps w = (let (x, s') = sub r c ps (snd w) in (x, (fst w @ [(r, c, ps)], s')))"

definition job_call :: "Job \<Rightarrow> call" where
  "job_call j = (jb_Recipe j, jb_Committee j, jb_Params j)"

lemma run_jobs_logged: "fst (snd (run_jobs (logged sub) js w)) = fst w @ map job_call js"
  by (induction js arbitrary: w) (simp_all add: Let_def case_prod_beta logged_def job_call_def)

text \<open>
  C29. The scheduler submits exactly the due jobs: when every specification is valid and \<open>Next\<close> keeps
  its contract, the submissions of a run of ticks are, tick by tick and in the order of the job set,
  those of the jobs with an activation at the tick's minute, each with its recipe, committee and
  parameters, whatever the runtime answers; and every tick reports one result per job it submitted.
\<close>

theorem scheduler_submits_due:
  assumes "\<forall>j \<in> set jobs. \<exists>nxt. parse (jb_Spec j) = Inr nxt \<and> cron_law (acts (jb_Spec j)) nxt"
    and "\<forall>now \<in> set ticks. minute \<le> now"
    and "serve_ticks parse (logged submit) jobs ticks w = (rs, w')"
  shows "fst w' = fst w @ concat (map (\<lambda>now. map job_call (filter (\<lambda>j. minute_of now \<in> acts (jb_Spec j)) jobs)) ticks) \<and>
    list_all2 (\<lambda>r now. \<exists>res. r = Inr res \<and> map rr_Job res = map jb_Name (filter (\<lambda>j. minute_of now \<in> acts (jb_Spec j)) jobs))
      rs ticks"
  using assms(2,3)
proof (induction ticks arbitrary: w rs)
  case (Cons now ticks)
  let ?due = "filter (\<lambda>j. minute_of now \<in> acts (jb_Spec j)) jobs"
  obtain res w1 where r: "run_jobs (logged submit) ?due w = (res, w1)" by (metis prod.exhaust)
  have run: "RunDue parse (logged submit) jobs now w = (Inr res, w1)"
    using Due_filter [OF assms(1), of now] Cons.prems(1) r by (simp add: RunDue_def)
  obtain rs2 where rest: "serve_ticks parse (logged submit) jobs ticks w1 = (rs2, w')" and rs: "rs = Inr res # rs2"
    using Cons.prems(2) run by (auto split: prod.splits)
  from run_jobs_logged [of submit ?due w] r have "fst w1 = fst w @ map job_call ?due" by simp
  with Cons.IH [OF _ rest] Cons.prems(1) rs run_jobs_results [OF r] show ?case by simp
qed simp

definition demo_jobs :: "Job list" where
  "demo_jobs = [\<lparr>jb_Name = ''ping'', jb_Spec = ''5'', jb_Recipe = ''ops/ping'', jb_Committee = ''ops'', jb_Params = None\<rparr>]"

definition demo_next :: "int \<Rightarrow> int" where
  "demo_next t = (if t < 5 * minute then 5 * minute else 0)"

lemma demo_cron_law: "cron_law {5 * minute} demo_next"
  by (simp add: cron_law_def demo_next_def minute_def)

theorem scheduler_submits_due_witness:
  "\<exists>rs w'. serve_ticks (\<lambda>s. Inr demo_next) (logged (\<lambda>r c ps n. (Inl (External ''down''), Suc n))) demo_jobs
      [4 * minute + 7, 5 * minute + 7, 6 * minute] ([], 0 :: nat) = (rs, w') \<and>
    fst w' = [(''ops/ping'', ''ops'', None)]"
proof -
  let ?ticks = "[4 * minute + 7, 5 * minute + 7, 6 * minute]"
  obtain rs w' where r: "serve_ticks (\<lambda>s. Inr demo_next) (logged (\<lambda>r c ps n. (Inl (External ''down''), Suc n))) demo_jobs
      ?ticks ([], 0 :: nat) = (rs, w')" by (metis prod.exhaust)
  have "\<forall>j \<in> set demo_jobs. \<exists>nxt. Inr demo_next = Inr nxt \<and> cron_law ((\<lambda>s. {5 * minute}) (jb_Spec j)) nxt"
    using demo_cron_law by simp
  moreover have "\<forall>now \<in> set ?ticks. minute \<le> now" by (simp add: minute_def)
  ultimately have "fst w' = fst ([] :: call list, 0 :: nat) @
      concat (map (\<lambda>now. map job_call (filter (\<lambda>j. minute_of now \<in> (\<lambda>s. {5 * minute}) (jb_Spec j)) demo_jobs)) ?ticks)"
    using scheduler_submits_due [where parse = "\<lambda>s. Inr demo_next" and acts = "\<lambda>s. {5 * minute}", OF _ _ r] by blast
  then have "fst w' = [(''ops/ping'', ''ops'', None)]"
    by (simp add: minute_of_def minute_def demo_jobs_def job_call_def)
  with r show ?thesis by blast
qed

subsection \<open>Through the runtime service\<close>

lemma scheduler_Submit_direct:
  assumes "connected c token parse_url" "re_fresh env \<noteq> []"
    and "distinct (map fst (case params of None \<Rightarrow> [] | Some kvs \<Rightarrow> kvs))"
  shows "scheduler_Submit cf parse_url (direct cf env token (cl_baseURL c)) c recipe committee params s =
    (case SubmitTask (re_files env) (re_runtime env) (re_engine env)
            \<lparr>tr_RecipeID = recipe, tr_InlineGoal = [], tr_Params = map_of (case params of None \<Rightarrow> [] | Some kvs \<Rightarrow> kvs),
             tr_Identity = [], tr_Committee = committee, tr_HardTask = False\<rparr> of
       Inl e \<Rightarrow> (Inl (Errorf ''runtime: status %d'' [Itoa 400]), s)
     | Inr t \<Rightarrow> (Inr (re_fresh env), s\<lparr>rv_tasks := (rv_tasks s)(re_fresh env \<mapsto> new_taskState),
                  rv_running := (rv_running s)(re_fresh env \<mapsto> t)\<rparr>))"
proof -
  let ?j = "job_json recipe committee params"
  have d: "direct cf env token (cl_baseURL c) ''POST'' (cl_baseURL c @ ''/tasks'') (client_headers c) (Some ?j) s =
      (let (resp, s') = handleSubmit cf (re_files env) (re_runtime env) (re_engine env) (re_fresh env) (client_request c (Some ?j)) s
       in (Inr (resp_Code resp, resp_Body resp), s'))"
    using route_submit [OF assms(1), of cf env ?j s] unfolding client_request_def by (simp add: direct_def)
  have b: "req_Body (client_request c (Some ?j)) = Raw_JSON ?j" by (simp add: client_request_def)
  have t: "str_field cf ''task_id'' [(''task_id'', JStr i)] = Some i" for i by (simp add: decode_eval)
  show ?thesis
    using assms(1) unfolding scheduler_Submit_def d
    by (simp add: connected_def Configured_def handleSubmit_def b job_decodes [OF assms(3)] t write_error_def writeJSON_def
        split: sum.splits)
qed

text \<open>
  A scheduled recipe reaches the agent: at a minute its specification names, a job's recipe is
  started by the runtime service with the job's committee and parameters, the run reports the new task's id,
  and the task is there to be polled; when the runtime cannot resolve the recipe, the run reports an
  error for that job and nothing is started.
\<close>

theorem scheduled_job_starts:
  assumes "connected c token parse_url" "re_fresh env \<noteq> []"
    and "parse (jb_Spec j) = Inr nxt" "cron_law A nxt" "minute \<le> now" "minute_of now \<in> A"
    and "distinct (map fst (case jb_Params j of None \<Rightarrow> [] | Some kvs \<Rightarrow> kvs))"
  shows "RunDue parse (scheduler_Submit cf parse_url (direct cf env token (cl_baseURL c)) c) [j] now s =
    (case SubmitTask (re_files env) (re_runtime env) (re_engine env)
            \<lparr>tr_RecipeID = jb_Recipe j, tr_InlineGoal = [],
             tr_Params = map_of (case jb_Params j of None \<Rightarrow> [] | Some kvs \<Rightarrow> kvs),
             tr_Identity = [], tr_Committee = jb_Committee j, tr_HardTask = False\<rparr> of
       Inl e \<Rightarrow> (Inr [\<lparr>rr_Job = jb_Name j, rr_TaskID = [], rr_Err = ''runtime: status 400''\<rparr>], s)
     | Inr t \<Rightarrow> (Inr [\<lparr>rr_Job = jb_Name j, rr_TaskID = re_fresh env, rr_Err = []\<rparr>],
         s\<lparr>rv_tasks := (rv_tasks s)(re_fresh env \<mapsto> new_taskState), rv_running := (rv_running s)(re_fresh env \<mapsto> t)\<rparr>))"
proof -
  have "Due parse [j] now = Inr [j]"
    using Due_filter [of "[j]" parse "\<lambda>s. A" now] assms(3-6) by simp
  moreover have "Error (Errorf ''runtime: status %d'' [Itoa 400]) = ''runtime: status 400''" by code_simp
  ultimately show ?thesis
    unfolding RunDue_def
    by (simp add: scheduler_Submit_direct [OF assms(1,2,7)] split: sum.splits)
qed

definition demo_job_pay :: Job where
  "demo_job_pay = \<lparr>jb_Name = ''pay'', jb_Spec = ''5'', jb_Recipe = ''missing'', jb_Committee = ''ops'',
     jb_Params = Some [(''sheet_id'', ''s1'')]\<rparr>"

theorem scheduled_job_starts_witness:
  "RunDue (\<lambda>s. Inr demo_next) (scheduler_Submit (\<lambda>s. s) (\<lambda>u. None) (direct (\<lambda>s. s) demo_env ''key'' ''http://runtime'') demo_client)
     [demo_job_pay] (5 * minute + 1) \<lparr>rv_tasks = Map.empty, rv_running = Map.empty\<rparr> =
   (Inr [\<lparr>rr_Job = ''pay'', rr_TaskID = [], rr_Err = ''runtime: status 400''\<rparr>],
    \<lparr>rv_tasks = Map.empty, rv_running = Map.empty\<rparr>)"
proof -
  have c: "connected demo_client ''key'' (\<lambda>u. None)" "re_fresh demo_env \<noteq> []"
    by (simp_all add: connected_def demo_client_def demo_env_def)
  have "minute \<le> 5 * minute + 1" "minute_of (5 * minute + 1) \<in> {5 * minute}"
    by (simp_all add: minute_of_def minute_def)
  moreover have "distinct (map fst (case jb_Params demo_job_pay of None \<Rightarrow> [] | Some kvs \<Rightarrow> kvs))"
    by (simp add: demo_job_pay_def)
  moreover have "\<exists>e. LoadRecipeByID demo_files ''recipes'' ''missing'' = Inl e"
  proof -
    have "\<not> is_ok (LoadRecipeByID demo_files ''recipes'' ''missing'')" by code_simp
    then show ?thesis by (cases "LoadRecipeByID demo_files ''recipes'' ''missing''") auto
  qed
  ultimately show ?thesis
    using scheduled_job_starts [where parse = "\<lambda>s. Inr demo_next" and j = demo_job_pay and now = "5 * minute + 1"
        and cf = "\<lambda>s. s" and s = "\<lparr>rv_tasks = Map.empty, rv_running = Map.empty\<rparr>", OF c refl demo_cron_law]
    by (auto simp: demo_client_def demo_env_def SubmitTask_def buildSpec_def demo_job_pay_def)
qed

end
