(* ===== verification/Egress.thy ===== *)
theory Egress
  imports GoLib "HOL-Library.Word"
begin

unbundle bit_operations_syntax

text \<open>
  The egress allowlist of the Engineering Agent's sandbox
  (services/engineering-agent/internal/egress), with what it uses of package \<open>net\<close>: \<open>ParseIP\<close> and
  the address classes.  An address is its list of bytes, 4 or 16 of them (\<open>None\<close> is the nil address).
\<close>

subsection \<open>Addresses\<close>

type_synonym IP = "8 word list"

text \<open>The fields of a dotted IPv4 address: no empty field, no leading zero, at most 255.\<close>

definition ipv4_field :: "string \<Rightarrow> 8 word option" where
  "ipv4_field f =
     (if f \<noteq> [] \<and> list_all is_digit f \<and> (length f = 1 \<or> hd f \<noteq> CHR ''0'') \<and> digits_val f \<le> 255
      then Some (word_of_int (digits_val f)) else None)"

definition parseIPv4Fields :: "string \<Rightarrow> IP option" where
  "parseIPv4Fields s =
     (let fs = split_on (CHR ''.'') s
      in if length fs = 4 then those (map ipv4_field fs) else None)"

definition hex_val :: "char \<Rightarrow> int option" where
  "hex_val c =
     (if CHR ''0'' \<le> c \<and> c \<le> CHR ''9'' then Some (of_char c - 48)
      else if CHR ''a'' \<le> c \<and> c \<le> CHR ''f'' then Some (of_char c - 87)
      else if CHR ''A'' \<le> c \<and> c \<le> CHR ''F'' then Some (of_char c - 55)
      else None)"

definition is_hex :: "char \<Rightarrow> bool" where
  "is_hex c \<longleftrightarrow> hex_val c \<noteq> None"

definition hex_group :: "string \<Rightarrow> int" where
  "hex_group ds = foldl (\<lambda>a c. 16 * a + the (hex_val c)) 0 ds"

lemma shorter_rest: "takeWhile P s \<noteq> [] \<Longrightarrow> length (dropWhile P s) < length s"
  by (induction s) (auto simp: less_Suc_eq_le length_dropWhile_le split: if_splits)

text \<open>
  The loop of \<open>parseIPv6\<close>: \<open>ip\<close> are the bytes so far and \<open>ell\<close> the place of the \<open>::\<close>; the result is the
  bytes and the place when the whole string was used.
\<close>

function ipv6_loop :: "string \<Rightarrow> IP \<Rightarrow> nat option \<Rightarrow> (IP \<times> nat option) option" where
  "ipv6_loop s ip ell =
     (if length ip \<ge> 16 then (if s = [] then Some (ip, ell) else None)
      else
        (let ds = takeWhile is_hex s; rest = dropWhile is_hex s; acc = hex_group ds
         in if length ds > 4 \<or> ds = [] then None
            else if rest \<noteq> [] \<and> hd rest = CHR ''.'' then
              (if ell = None \<and> length ip \<noteq> 12 then None
               else if length ip + 4 > 16 then None
               else (case parseIPv4Fields s of None \<Rightarrow> None | Some v4 \<Rightarrow> Some (ip @ v4, ell)))
            else
              (let ip = ip @ [word_of_int (acc div 256), word_of_int acc]
               in if rest = [] then Some (ip, ell)
                  else if hd rest \<noteq> CHR '':'' then None
                  else if length rest = 1 then None
                  else
                    (let s = tl rest
                     in if hd s = CHR '':'' then
                          (if ell \<noteq> None then None
                           else if tl s = [] then Some (ip, Some (length ip))
                           else ipv6_loop (tl s) ip (Some (length ip)))
                        else ipv6_loop s ip ell))))"
  by pat_completeness auto
termination
  by (relation "measure (\<lambda>(s, ip, ell). length s)") (auto simp: Let_def intro: less_imp_diff_less shorter_rest)

declare ipv6_loop.simps [simp del]

definition parseIPv6 :: "string \<Rightarrow> IP option" where
  "parseIPv6 s =
     (let (s, ell) = (if prefix ''::'' s then (drop 2 s, Some 0) else (s, None))
      in if ell \<noteq> None \<and> s = [] then Some (replicate 16 0)
         else (case ipv6_loop s [] ell of
                 None \<Rightarrow> None
               | Some (ip, ell) \<Rightarrow>
                   (if length ip < 16
                    then (case ell of
                            None \<Rightarrow> None
                          | Some k \<Rightarrow> Some (take k ip @ replicate (16 - length ip) 0 @ drop k ip))
                    else if ell \<noteq> None then None else Some ip)))"

text \<open>\<open>net.ParseIP\<close>: the first of \<open>.\<close>, \<open>:\<close>, \<open>%\<close> decides; a zone is refused.  IPv4 gives 16 bytes.\<close>

definition v4_mapped :: "IP \<Rightarrow> IP" where
  "v4_mapped v4 = replicate 10 0 @ [0xff, 0xff] @ v4"

definition ParseIP :: "string \<Rightarrow> IP option" where
  "ParseIP s =
     (if CHR ''%'' \<in> set s then None
      else (case find (\<lambda>c. c = CHR ''.'' \<or> c = CHR '':'') s of
              None \<Rightarrow> None
            | Some c \<Rightarrow> (if c = CHR ''.'' then map_option v4_mapped (parseIPv4Fields s) else parseIPv6 s)))"

definition To4 :: "IP \<Rightarrow> IP option" where
  "To4 ip =
     (if length ip = 4 then Some ip
      else if length ip = 16 \<and> take 10 ip = replicate 10 0 \<and> ip ! 10 = 0xff \<and> ip ! 11 = 0xff then Some (drop 12 ip)
      else None)"

definition Equal :: "IP \<Rightarrow> IP \<Rightarrow> bool" where
  "Equal ip x \<longleftrightarrow>
     (if length ip = length x then ip = x
      else if length ip = 4 \<and> length x = 16 then take 12 x = v4_mapped [] \<and> ip = drop 12 x
      else if length ip = 16 \<and> length x = 4 then take 12 ip = v4_mapped [] \<and> drop 12 ip = x
      else False)"

definition IsLoopback :: "IP \<Rightarrow> bool" where
  "IsLoopback ip \<longleftrightarrow> (case To4 ip of Some v \<Rightarrow> v ! 0 = 127 | None \<Rightarrow> Equal ip (replicate 15 0 @ [1]))"

definition IsPrivate :: "IP \<Rightarrow> bool" where
  "IsPrivate ip \<longleftrightarrow>
     (case To4 ip of
        Some v \<Rightarrow> v ! 0 = 10 \<or> v ! 0 = 172 \<and> v ! 1 AND 0xf0 = 16 \<or> v ! 0 = 192 \<and> v ! 1 = 168
      | None \<Rightarrow> length ip = 16 \<and> ip ! 0 AND 0xfe = 0xfc)"

definition IsLinkLocalUnicast :: "IP \<Rightarrow> bool" where
  "IsLinkLocalUnicast ip \<longleftrightarrow>
     (case To4 ip of
        Some v \<Rightarrow> v ! 0 = 169 \<and> v ! 1 = 254
      | None \<Rightarrow> length ip = 16 \<and> ip ! 0 = 0xfe \<and> ip ! 1 AND 0xc0 = 0x80)"

definition IsLinkLocalMulticast :: "IP \<Rightarrow> bool" where
  "IsLinkLocalMulticast ip \<longleftrightarrow>
     (case To4 ip of
        Some v \<Rightarrow> v ! 0 = 224 \<and> v ! 1 = 0 \<and> v ! 2 = 0
      | None \<Rightarrow> length ip = 16 \<and> ip ! 0 = 0xff \<and> ip ! 1 AND 0x0f = 0x02)"

definition IsUnspecified :: "IP \<Rightarrow> bool" where
  "IsUnspecified ip \<longleftrightarrow> Equal ip (v4_mapped [0, 0, 0, 0]) \<or> Equal ip (replicate 16 0)"

subsection \<open>The allowlist\<close>

definition allowedHosts :: "string list" where
  "allowedHosts =
     [''github.com'', ''api.github.com'', ''codeload.github.com'', ''objects.githubusercontent.com'',
      ''raw.githubusercontent.com'', ''ghcr.io'',
      ''proxy.golang.org'', ''sum.golang.org'', ''go.dev'', ''golang.org'',
      ''registry.npmjs.org'', ''pypi.org'', ''files.pythonhosted.org'',
      ''crates.io'', ''static.crates.io'', ''rubygems.org'',
      ''deb.debian.org'', ''security.debian.org'', ''archive.ubuntu.com'', ''ports.ubuntu.com'']"

definition AllowedHosts :: "string list" where
  "AllowedHosts = allowedHosts"

definition blockedName :: "string \<Rightarrow> bool" where
  "blockedName host \<longleftrightarrow>
     host \<in> set [''metadata.google.internal'', ''metadata'', ''instance-data'', ''instance-data.ec2.internal''] \<or>
     HasSuffix host ''.internal'' \<or> HasSuffix host ''.local''"

definition Allowed :: "(string \<Rightarrow> string) \<Rightarrow> string \<Rightarrow> bool" where
  "Allowed uni host \<longleftrightarrow>
     (let host = ToLower uni (TrimSpace host)
      in if host = [] then False
         else if ParseIP host \<noteq> None then False
         else if blockedName host then False
         else list_ex (\<lambda>a. host = a \<or> HasSuffix host (''.'' @ a)) allowedHosts)"

definition AllowedIP :: "IP option \<Rightarrow> bool" where
  "AllowedIP ip \<longleftrightarrow>
     (case ip of
        None \<Rightarrow> False
      | Some ip \<Rightarrow>
          (if IsLoopback ip \<or> IsPrivate ip \<or> IsLinkLocalUnicast ip \<or> IsLinkLocalMulticast ip \<or> IsUnspecified ip then False
           else if (case ParseIP ''169.254.169.254'' of Some m \<Rightarrow> Equal ip m | None \<Rightarrow> False) \<or>
                   (case ParseIP ''fd00:ec2::254'' of Some m \<Rightarrow> Equal ip m | None \<Rightarrow> False) then False
           else True))"

lemma ParseIP_examples:
  "ParseIP ''169.254.169.254'' = Some (v4_mapped [169, 254, 169, 254])"
  "ParseIP ''fd00:ec2::254'' = Some ([0xfd, 0, 0x0e, 0xc2] @ replicate 10 0 @ [0x02, 0x54])"
  "ParseIP ''::ffff:10.0.0.1'' = Some (v4_mapped [10, 0, 0, 1])"
  "ParseIP ''::'' = Some (replicate 16 0)"
  "ParseIP ''01.2.3.4'' = None" "ParseIP ''1.2.3'' = None" "ParseIP ''1::2::3'' = None" "ParseIP ''fe80::1%eth0'' = None"
  by code_simp+

subsection \<open>Names\<close>

definition addr_char :: "char \<Rightarrow> bool" where
  "addr_char c \<longleftrightarrow> is_hex c \<or> c = CHR ''.'' \<or> c = CHR '':''"

lemma digit_hex: "is_digit c \<Longrightarrow> is_hex c"
  by (simp add: is_digit_def is_hex_def hex_val_def)

lemma those_SomeD: "those xs = Some ys \<Longrightarrow> \<forall>x \<in> set xs. x \<noteq> None"
  by (induction xs arbitrary: ys) (auto split: option.splits)

lemma ipv4_chars: "parseIPv4Fields s = Some v \<Longrightarrow> \<forall>c \<in> set s. addr_char c"
proof
  fix c
  assume p: "parseIPv4Fields s = Some v" and c: "c \<in> set s"
  from p have "\<forall>f \<in> set (split_on (CHR ''.'') s). list_all is_digit f"
    by (fastforce simp: parseIPv4Fields_def Let_def ipv4_field_def split: if_splits dest: those_SomeD)
  moreover have "c \<in> insert (CHR ''.'') (\<Union> (set ` set (split_on (CHR ''.'') s)))"
    using set_Join [of "split_on (CHR ''.'') s" "[CHR ''.'']"] c unfolding Join_split_on by auto
  ultimately show "addr_char c" by (auto simp: addr_char_def list_all_iff digit_hex)
qed

text \<open>
  One round of the loop that succeeds: an embedded IPv4 address, the end, or a group and a colon with
  an ellipsis or another group after it.
\<close>

lemma ipv6_round:
  assumes "ipv6_loop s ip ell = Some r"
  obtains "s = []" | v where "parseIPv4Fields s = Some v" | "dropWhile is_hex s = []"
    | "dropWhile is_hex s = [CHR '':'', CHR '':'']"
    | u ip' k where "dropWhile is_hex s = CHR '':'' # CHR '':'' # u" "ipv6_loop u ip' (Some k) = Some r"
    | t ip' where "dropWhile is_hex s = CHR '':'' # t" "ipv6_loop t ip' ell = Some r"
proof (cases "length ip \<ge> 16")
  case True
  with assms that(1) show thesis by (auto simp: ipv6_loop.simps [of s] split: if_splits)
next
  case short: False
  let ?rest = "dropWhile is_hex s"
  note p = assms [unfolded ipv6_loop.simps [of s] Let_def if_not_P [OF short]]
  show thesis
  proof (cases "?rest")
    case Nil
    then show thesis by (rule that(3))
  next
    case (Cons c t)
    show thesis
    proof (cases "c = CHR ''.''")
      case True
      with p Cons that(2) show thesis by (auto split: if_splits option.splits)
    next
      case False
      with p Cons obtain d u where c: "c = CHR '':''" "t = d # u" by (cases t) (auto split: if_splits)
      show thesis
      proof (cases "d = CHR '':''")
        case d: True
        with p Cons c that(4,5) show thesis by (cases "u = []") (auto split: if_splits)
      next
        case d: False
        with p Cons c that(6) show thesis by (auto split: if_splits)
      qed
    qed
  qed
qed

lemma ipv6_chars: "ipv6_loop s ip ell = Some r \<Longrightarrow> \<forall>c \<in> set s. addr_char c"
proof (induction s arbitrary: ip ell rule: length_induct)
  case (1 s)
  let ?rest = "dropWhile is_hex s"
  have colon: "addr_char (CHR '':'')" by (simp add: addr_char_def)
  have ds: "\<forall>c \<in> set (takeWhile is_hex s). addr_char c" by (auto simp: addr_char_def dest: set_takeWhileD)
  have all: "\<forall>c \<in> set s. addr_char c" if "\<forall>c \<in> set ?rest. addr_char c"
    using ds that takeWhile_dropWhile_id [of is_hex s] by (metis Un_iff set_append)
  have shorter: "length ?rest \<le> length s" by (rule length_dropWhile_le)
  from "1.prems" show ?case
  proof (cases rule: ipv6_round)
    case (2 v)
    then show ?thesis by (rule ipv4_chars)
  next
    case (5 u ip' k)
    with shorter have "length u < length s" by simp
    with "1.IH" 5(2) have "\<forall>c \<in> set u. addr_char c" by blast
    then show ?thesis by (intro all) (simp add: 5(1) colon)
  next
    case (6 t ip')
    with shorter have "length t < length s" by simp
    with "1.IH" 6(2) have "\<forall>c \<in> set t. addr_char c" by blast
    then show ?thesis by (intro all) (simp add: 6(1) colon)
  next
    case 3
    show ?thesis by (rule all) (simp only: 3 list.set ball_empty)
  next
    case 4
    show ?thesis by (rule all) (simp add: 4 colon)
  qed simp
qed

lemma ParseIP_chars: "ParseIP s = Some ip \<Longrightarrow> \<forall>c \<in> set s. addr_char c"
proof -
  assume p: "ParseIP s = Some ip"
  have six: "\<forall>c \<in> set s. addr_char c" if "parseIPv6 s = Some ip"
  proof (cases "prefix ''::'' s")
    case True
    then obtain t where t: "s = ''::'' @ t" by (auto simp: prefix_def)
    with that have "t = [] \<or> (\<exists>r. ipv6_loop t [] (Some 0) = Some r)"
      by (auto simp: parseIPv6_def split: option.splits if_splits)
    then have "\<forall>c \<in> set t. addr_char c" using ipv6_chars [of t "[]" "Some 0"] by (elim disjE exE) auto
    with t show ?thesis by (simp add: addr_char_def)
  next
    case False
    with that have "\<exists>r. ipv6_loop s [] None = Some r" by (auto simp: parseIPv6_def split: option.splits)
    then show ?thesis using ipv6_chars by blast
  qed
  show ?thesis
    using p six ipv4_chars [of s] by (auto simp: ParseIP_def split: if_splits option.splits)
qed

lemma host_last: "a \<in> set allowedHosts \<Longrightarrow> a \<noteq> [] \<and> last a \<in> {CHR ''m'', CHR ''o'', CHR ''g'', CHR ''v''}"
  by (auto simp: allowedHosts_def)

lemma blocked_last: "blockedName host \<Longrightarrow> last host \<in> {CHR ''l'', CHR ''a''}"
  by (auto simp: blockedName_def HasSuffix_def suffix_def)

text \<open>
  The egress decision is the allowlist and nothing else: a host, trimmed and in lower case, is
  allowed exactly when it is one of the allowed names or a subdomain of one; so no IP literal in any
  notation and no metadata, \<open>.internal\<close> or \<open>.local\<close> name ever passes.
\<close>

theorem Allowed_iff_listed:
  "Allowed uni host \<longleftrightarrow> (\<exists>a \<in> set allowedHosts. \<exists>sub.
      ToLower uni (TrimSpace host) = a \<or> ToLower uni (TrimSpace host) = sub @ ''.'' @ a)"
proof -
  let ?h = "ToLower uni (TrimSpace host)"
  have ok: "?h \<noteq> [] \<and> ParseIP ?h = None \<and> \<not> blockedName ?h"
    if "a \<in> set allowedHosts" "?h = a \<or> ?h = sub @ ''.'' @ a" for a sub
  proof -
    from that host_last [OF that(1)] have l: "?h \<noteq> []" "last ?h \<in> {CHR ''m'', CHR ''o'', CHR ''g'', CHR ''v''}" by auto
    then have "last ?h \<in> set ?h" "\<not> addr_char (last ?h)" by (auto simp: addr_char_def is_hex_def hex_val_def)
    then have "ParseIP ?h = None" using ParseIP_chars [of ?h] by (cases "ParseIP ?h") auto
    moreover have "\<not> blockedName ?h" using blocked_last [of ?h] l(2) by auto
    ultimately show ?thesis using l(1) by simp
  qed
  show ?thesis
  proof
    assume "Allowed uni host"
    then show "\<exists>a \<in> set allowedHosts. \<exists>sub. ?h = a \<or> ?h = sub @ ''.'' @ a"
      by (fastforce simp: Allowed_def Let_def list_ex_iff HasSuffix_def suffix_def split: if_splits)
  next
    assume "\<exists>a \<in> set allowedHosts. \<exists>sub. ?h = a \<or> ?h = sub @ ''.'' @ a"
    then obtain a sub where a: "a \<in> set allowedHosts" "?h = a \<or> ?h = sub @ ''.'' @ a" by blast
    from ok [OF a] a show "Allowed uni host"
      by (auto simp: Allowed_def Let_def list_ex_iff HasSuffix_def suffix_def)
  qed
qed

subsection \<open>Resolved addresses\<close>

lemma byte_cases:
  assumes "list_all P (map word_of_int [0..255])"
  shows "P (b :: 8 word)"
proof -
  have "uint b \<in> set [0..255]" using uint_ge_0 [of b] uint_lt2p [of b] by simp
  then have "word_of_int (uint b) \<in> set (map word_of_int [0..255] :: 8 word list)" unfolding set_map by (rule imageI)
  with assms have "P (word_of_int (uint b))" unfolding list_all_iff by blast
  then show ?thesis by simp
qed

lemma byte_f0: "b AND 0xf0 = 16 \<longleftrightarrow> 16 \<le> b \<and> b \<le> 31" for b :: "8 word"
proof (rule byte_cases [of _ b])
  show "list_all (\<lambda>b :: 8 word. (b AND 0xf0 = 16) \<longleftrightarrow> 16 \<le> b \<and> b \<le> 31) (map word_of_int [0..255])"
    by (simp add: upto.simps [of 0] upto.simps [of 1], (simp add: word_le_nat_alt)?)
qed

lemma byte_fe: "b AND 0xfe = 0xfc \<longleftrightarrow> b = 0xfc \<or> b = 0xfd" for b :: "8 word"
proof (rule byte_cases [of _ b])
  show "list_all (\<lambda>b :: 8 word. (b AND 0xfe = 0xfc) \<longleftrightarrow> b = 0xfc \<or> b = 0xfd) (map word_of_int [0..255])"
    by (simp add: upto.simps [of 0] upto.simps [of 1], (simp add: word_le_nat_alt)?)
qed

lemma byte_c0: "b AND 0xc0 = 0x80 \<longleftrightarrow> 0x80 \<le> b \<and> b \<le> 0xbf" for b :: "8 word"
proof (rule byte_cases [of _ b])
  show "list_all (\<lambda>b :: 8 word. (b AND 0xc0 = 0x80) \<longleftrightarrow> 0x80 \<le> b \<and> b \<le> 0xbf) (map word_of_int [0..255])"
    by (simp add: upto.simps [of 0] upto.simps [of 1], (simp add: word_le_nat_alt)?)
qed

lemma byte_0f: "b AND 0x0f = 2 \<longleftrightarrow> b mod 16 = 2" for b :: "8 word"
proof (rule byte_cases [of _ b])
  show "list_all (\<lambda>b :: 8 word. (b AND 0x0f = 2) \<longleftrightarrow> b mod 16 = 2) (map word_of_int [0..255])"
    by (simp add: upto.simps [of 0] upto.simps [of 1], (simp add: word_le_nat_alt)?)
qed

lemma zeros:
  "replicate 10 (0 :: 8 word) = [0, 0, 0, 0, 0, 0, 0, 0, 0, 0]"
  "replicate 12 (0 :: 8 word) = [0, 0, 0, 0, 0, 0, 0, 0, 0, 0, 0, 0]"
  "replicate 15 (0 :: 8 word) = [0, 0, 0, 0, 0, 0, 0, 0, 0, 0, 0, 0, 0, 0, 0]"
  "replicate 16 (0 :: 8 word) = [0, 0, 0, 0, 0, 0, 0, 0, 0, 0, 0, 0, 0, 0, 0, 0]"
  by (simp_all add: numeral_eq_Suc)

lemma v4_mapped_list: "v4_mapped v = [0, 0, 0, 0, 0, 0, 0, 0, 0, 0] @ [0xff, 0xff] @ v"
  unfolding v4_mapped_def zeros ..

lemma v4_mapped_simps [simp]:
  "length (v4_mapped v) = 12 + length v" "take 12 (v4_mapped v) = v4_mapped []" "drop 12 (v4_mapped v) = v"
  "To4 [a, b, c, d] = Some [a, b, c, d]" "To4 (v4_mapped [a, b, c, d]) = Some [a, b, c, d]"
  by (simp_all add: v4_mapped_list To4_def zeros)

lemma To4_eq:
  "length ip = 16 \<Longrightarrow> To4 ip = None \<Longrightarrow> take 12 ip \<noteq> v4_mapped []"
proof
  assume l: "length ip = 16" and n: "To4 ip = None" and t: "take 12 ip = v4_mapped []"
  have "take 10 ip = take 10 (take 12 ip)" by simp
  then have "take 10 ip = replicate 10 0" by (simp add: t v4_mapped_def)
  moreover have "ip ! 10 = take 12 ip ! 10" "ip ! 11 = take 12 ip ! 11" by simp_all
  then have "ip ! 10 = 0xff" "ip ! 11 = 0xff" by (simp_all add: t v4_mapped_def nth_append)
  ultimately show False using l n by (simp add: To4_def)
qed

text \<open>The ranges blocked for an IPv4 address, and for an address that is no IPv4 address.\<close>

definition blocked_v4 :: "8 word \<Rightarrow> 8 word \<Rightarrow> 8 word \<Rightarrow> 8 word \<Rightarrow> bool" where
  "blocked_v4 a b c d \<longleftrightarrow> a = 127 \<or> a = 10 \<or> a = 172 \<and> 16 \<le> b \<and> b \<le> 31 \<or> a = 192 \<and> b = 168 \<or>
     a = 169 \<and> b = 254 \<or> a = 224 \<and> b = 0 \<and> c = 0 \<or> a = 0 \<and> b = 0 \<and> c = 0 \<and> d = 0"

definition blocked_v6 :: "IP \<Rightarrow> bool" where
  "blocked_v6 ip \<longleftrightarrow> ip = replicate 15 0 @ [1] \<or> ip = replicate 16 0 \<or> ip ! 0 = 0xfc \<or> ip ! 0 = 0xfd \<or>
     ip ! 0 = 0xfe \<and> 0x80 \<le> ip ! 1 \<and> ip ! 1 \<le> 0xbf \<or> ip ! 0 = 0xff \<and> ip ! 1 mod 16 = 2"

lemma allowed_v4:
  assumes "To4 ip = Some [a, b, c, d]" "ip = [a, b, c, d] \<or> ip = v4_mapped [a, b, c, d]"
  shows "AllowedIP (Some ip) \<longleftrightarrow> \<not> blocked_v4 a b c d"
proof -
  have z: "v4_mapped [a, b, c, d] \<noteq> replicate 16 0" by (simp add: v4_mapped_list zeros)
  have u: "IsUnspecified ip \<longleftrightarrow> [a, b, c, d] = [0, 0, 0, 0]"
    using assms(2) z by (auto simp: IsUnspecified_def Equal_def v4_mapped_list zeros)
  have m: "Equal ip (v4_mapped [169, 254, 169, 254]) \<longleftrightarrow> [a, b, c, d] = [169, 254, 169, 254]"
    using assms(2) by (auto simp: Equal_def v4_mapped_list zeros)
  have e: "\<not> Equal ip ([0xfd, 0, 0x0e, 0xc2] @ replicate 10 0 @ [0x02, 0x54])"
    using assms(2) by (auto simp: Equal_def v4_mapped_list zeros)
  show ?thesis
    unfolding AllowedIP_def option.case ParseIP_examples(1,2) IsLoopback_def IsPrivate_def IsLinkLocalUnicast_def
      IsLinkLocalMulticast_def assms(1) u m
    using e by (auto simp: blocked_v4_def byte_f0)
qed

lemma allowed_v6:
  assumes "length ip = 16" "To4 ip = None"
  shows "AllowedIP (Some ip) \<longleftrightarrow> \<not> blocked_v6 ip"
proof -
  have n: "\<not> Equal ip (v4_mapped v)" if "length v = 4" for v
    using To4_eq [OF assms] that assms(1) by (metis Equal_def add_numeral_left v4_mapped_simps(1,2) numeral_plus_numeral semiring_norm(2-10))
  show ?thesis
    unfolding AllowedIP_def option.case ParseIP_examples(1,2) IsLoopback_def IsPrivate_def IsLinkLocalUnicast_def
      IsLinkLocalMulticast_def IsUnspecified_def assms(2)
    using assms(1) n [of "[0, 0, 0, 0]"] n [of "[169, 254, 169, 254]"]
    by (auto simp: blocked_v6_def Equal_def byte_fe byte_c0 byte_0f)
qed

text \<open>
  C32. The addresses the sandbox may connect to after a name was resolved: an IPv4 address, in 4 bytes or
  mapped into 16, is refused exactly in 127/8, 10/8, 172.16/12, 192.168/16, 169.254/16 (the metadata
  endpoint is in it), 224.0.0/24 and for 0.0.0.0; any other 16-byte address exactly for \<open>::1\<close>,
  \<open>::\<close>, fc00::/7, fe80::/10 and link-local multicast; and nil is refused.
\<close>

theorem AllowedIP_ranges:
  "AllowedIP (Some [a, b, c, d]) = (\<not> blocked_v4 a b c d) \<and>
   AllowedIP (Some (v4_mapped [a, b, c, d])) = (\<not> blocked_v4 a b c d) \<and>
   (length ip = 16 \<and> To4 ip = None \<longrightarrow> AllowedIP (Some ip) = (\<not> blocked_v6 ip)) \<and> \<not> AllowedIP None"
  using allowed_v4 [of "[a, b, c, d]" a b c d] allowed_v4 [of "v4_mapped [a, b, c, d]" a b c d] allowed_v6 [of ip]
  by (simp add: AllowedIP_def)

theorem AllowedIP_ranges_witness:
  "AllowedIP (Some ([0x20, 0x01, 0x0d, 0xb8] @ replicate 12 0)) \<and> \<not> AllowedIP (Some (v4_mapped [172, 31, 0, 1])) \<and>
   AllowedIP (Some [140, 82, 112, 3])"
proof -
  let ?ip = "[0x20, 0x01, 0x0d, 0xb8] @ replicate 12 (0 :: 8 word)"
  have "length ?ip = 16" "To4 ?ip = None" by (simp_all add: To4_def zeros)
  then show ?thesis
    using AllowedIP_ranges [of 172 31 0 1 ?ip] AllowedIP_ranges [of 140 82 112 3 ?ip]
    by (simp add: blocked_v4_def blocked_v6_def word_le_nat_alt zeros)
qed

end
