(* ===== verification/Dashboard.thy ===== *)
theory Dashboard
  imports GatewayProperties RuntimeClient
begin

text \<open>
  The maintainer dashboard (services/dashboard): the login and the token gate (internal/server/server.go),
  the read views, the registry switches, the decisions and the runtime proxy (internal/server/api.go) and
  the proxy's client (internal/runtimeclient/client.go).  A handler maps the tables of the repository and
  the state \<open>'s\<close> of the runtime.
\<close>

subsection \<open>Cookies\<close>

text \<open>\<open>net/http\<close>: the bytes a cookie value may have, \<open>SetCookie\<close>'s name and value, and \<open>Request.Cookie\<close>.\<close>

definition cookie_byte :: "char \<Rightarrow> bool" where
  "cookie_byte c \<longleftrightarrow> CHR 0x20 \<le> c \<and> c < CHR 0x7F \<and> c \<notin> {CHR 0x22, CHR '';'', CHR 0x5C}"

definition sanitizeCookieValue :: "string \<Rightarrow> string" where
  "sanitizeCookieValue v =
     (let v = filter cookie_byte v
      in if CHR '' '' \<in> set v \<or> CHR '','' \<in> set v then [CHR 0x22] @ v @ [CHR 0x22] else v)"

definition parseCookieValue :: "string \<Rightarrow> string option" where
  "parseCookieValue v =
     (let v = (if 1 < length v \<and> hd v = CHR 0x22 \<and> last v = CHR 0x22 then butlast (tl v) else v)
      in if list_all cookie_byte v then Some v else None)"

definition blank :: "char \<Rightarrow> bool" where
  "blank c \<longleftrightarrow> c \<in> {CHR 0x20, CHR 0x09, CHR 0x0A, CHR 0x0D}"

definition TrimString :: "string \<Rightarrow> string" where
  "TrimString s = rev (dropWhile blank (rev (dropWhile blank s)))"

fun cut_char :: "char \<Rightarrow> string \<Rightarrow> string \<times> string" where
  "cut_char c [] = ([], [])"
| "cut_char c (x # xs) = (if x = c then ([], xs) else (let (a, b) = cut_char c xs in (x # a, b)))"

definition cookie_part :: "string \<Rightarrow> string \<Rightarrow> string option" where
  "cookie_part name part =
     (let (n, v) = cut_char (CHR ''='') (TrimString part) in if TrimString n = name then parseCookieValue v else None)"

definition Cookie :: "string \<Rightarrow> Request \<Rightarrow> string option" where
  "Cookie name r =
     (case List.map_filter (cookie_part name) (split_on (CHR '';'') (req_Header r ''Cookie'')) of [] \<Rightarrow> None | v # vs \<Rightarrow> Some v)"

subsection \<open>The server\<close>

record 's Proxy =
  px_Configured :: bool
  px_Do :: "string \<Rightarrow> string \<Rightarrow> raw option \<Rightarrow> 's \<Rightarrow> (raw \<times> int \<times> goerr option) \<times> 's"

text \<open>What the handlers take from outside: the encodings of times and floats, the clock, the static files.\<close>

record dash_env =
  de_pg :: pg
  de_cf :: "string \<Rightarrow> string"
  de_time :: "int \<Rightarrow> string"
  de_float :: "rat \<Rightarrow> string"
  de_now :: int
  de_static :: "Request \<Rightarrow> Response"

record 's Dash =
  da_runtime :: "'s Proxy"
  da_token :: string

type_synonym 's dash_state = "db \<times> 's"

definition cookieName :: string where "cookieName = ''sl_dash''"

definition devMode :: "'s Dash \<Rightarrow> bool" where
  "devMode s \<longleftrightarrow> da_token s = []"

definition authed :: "'s Dash \<Rightarrow> Request \<Rightarrow> bool" where
  "authed s r \<longleftrightarrow> devMode s \<or> Cookie cookieName r = Some (da_token s)"

definition dash_auth ::
  "'s Dash \<Rightarrow> Request \<Rightarrow> (Request \<Rightarrow> 's dash_state \<Rightarrow> Response \<times> 's dash_state) \<Rightarrow> 's dash_state \<Rightarrow> Response \<times> 's dash_state" where
  "dash_auth s r next st = (if \<not> authed s r then (write_error 401 ''unauthorized'', st) else next r st)"

text \<open>The response and the name and value of the cookie set, if any.  The error of decoding is dropped.\<close>

definition handleLogin :: "(string \<Rightarrow> string) \<Rightarrow> 's Dash \<Rightarrow> Request \<Rightarrow> Response \<times> string option" where
  "handleLogin cf s r =
     (let token = (case body_object (req_Body r) of
                     None \<Rightarrow> []
                   | Some kvs \<Rightarrow> foldl (\<lambda>a (k, v). if field_matches cf ''token'' k then (case v of JStr t \<Rightarrow> t | _ \<Rightarrow> a) else a) [] kvs)
      in if devMode s \<or> token = da_token s
         then (writeJSON 200 (JObj [(''ok'', JBool True)]), Some (cookieName @ ''='' @ sanitizeCookieValue (da_token s)))
         else (write_error 401 ''invalid token'', None))"

definition handleMe :: "'s Dash \<Rightarrow> Request \<Rightarrow> Response" where
  "handleMe s r = writeJSON 200 (marshal_map
     [(''authed'', JBool (authed s r)), (''dev'', JBool (devMode s)), (''runtime_available'', JBool (px_Configured (da_runtime s)))])"

definition serverError :: "goerr \<Rightarrow> Response" where
  "serverError e = write_error 500 (Error e)"

definition badRequest :: Response where
  "badRequest = write_error 400 ''bad request''"

subsection \<open>Statistics\<close>

record stats =
  st_ServersTotal :: int
  st_ServersApproved :: int
  st_ServersProposed :: int
  st_ToolsTotal :: int
  st_HighImpactTools :: int
  st_PendingApprovals :: int
  st_Audit24h :: int
  st_ErrorRate :: rat
  st_AvgLatencyMS :: int
  st_RuntimeAvailable :: bool

definition no_stats :: stats where
  "no_stats = \<lparr>st_ServersTotal = 0, st_ServersApproved = 0, st_ServersProposed = 0, st_ToolsTotal = 0, st_HighImpactTools = 0,
     st_PendingApprovals = 0, st_Audit24h = 0, st_ErrorRate = 0, st_AvgLatencyMS = 0, st_RuntimeAvailable = False\<rparr>"

definition count_server :: "stats \<Rightarrow> Server \<Rightarrow> stats" where
  "count_server st sv =
     (let st = st\<lparr>st_ToolsTotal := st_ToolsTotal st + int (length (srv_Tools sv)),
                  st_HighImpactTools := st_HighImpactTools st + int (length (filter (\<lambda>t. tl_Impact t = ''high'') (srv_Tools sv)))\<rparr>
      in if srv_Lifecycle sv = LifecycleApproved then st\<lparr>st_ServersApproved := st_ServersApproved st + 1\<rparr>
         else if srv_Lifecycle sv = LifecycleProposed then st\<lparr>st_ServersProposed := st_ServersProposed st + 1\<rparr>
         else st)"

definition server_stats :: "Server list \<Rightarrow> stats" where
  "server_stats servers = foldl count_server (no_stats\<lparr>st_ServersTotal := int (length servers)\<rparr>) servers"

text \<open>The loop over the log: entries after the cutoff, failures, the sum of the latencies, all entries.\<close>

definition count_entry :: "int \<Rightarrow> int \<times> int \<times> int \<times> int \<Rightarrow> AuditEntry \<Rightarrow> int \<times> int \<times> int \<times> int" where
  "count_entry cutoff = (\<lambda>(recent, errs, total, counted) e.
     (if cutoff < au_CreatedAt e then recent + 1 else recent,
      if HasPrefix (au_Result e) ''denied'' \<or> HasPrefix (au_Result e) ''error'' then errs + 1 else errs,
      total + au_LatencyMS e, counted + 1))"

definition audit_stats :: "int \<Rightarrow> AuditEntry list \<Rightarrow> stats \<Rightarrow> stats" where
  "audit_stats now trail st =
     (let (recent, errs, total, counted) = foldl (count_entry (now - 24 * 60 * 60 * 10 ^ 9)) (st_Audit24h st, 0, 0, 0) trail;
          st = st\<lparr>st_Audit24h := recent\<rparr>
      in if counted > 0
         then st\<lparr>st_ErrorRate := f64 (of_int errs / of_int counted), st_AvgLatencyMS := go_div total counted\<rparr>
         else st)"

definition stats_json :: "(rat \<Rightarrow> string) \<Rightarrow> stats \<Rightarrow> json" where
  "stats_json fl st = JObj
     [(''servers_total'', JNum (Itoa (st_ServersTotal st))), (''servers_approved'', JNum (Itoa (st_ServersApproved st))),
      (''servers_proposed'', JNum (Itoa (st_ServersProposed st))), (''tools_total'', JNum (Itoa (st_ToolsTotal st))),
      (''high_impact_tools'', JNum (Itoa (st_HighImpactTools st))), (''pending_approvals'', JNum (Itoa (st_PendingApprovals st))),
      (''audit_24h'', JNum (Itoa (st_Audit24h st))), (''error_rate'', JNum (fl (st_ErrorRate st))),
      (''avg_latency_ms'', JNum (Itoa (st_AvgLatencyMS st))), (''runtime_available'', JBool (st_RuntimeAvailable st))]"

definition dash_stats :: "int \<Rightarrow> bool \<Rightarrow> Server list \<Rightarrow> AuditEntry list \<Rightarrow> Approval list \<Rightarrow> stats" where
  "dash_stats now available servers trail pending =
     (audit_stats now trail (server_stats servers))\<lparr>st_PendingApprovals := int (length pending), st_RuntimeAvailable := available\<rparr>"

definition handleStats :: "dash_env \<Rightarrow> 's Dash \<Rightarrow> Request \<Rightarrow> 's dash_state \<Rightarrow> Response \<times> 's dash_state" where
  "handleStats env s r st =
     (let (d, x) = st in
      case ListServers (de_pg env) d of
        (Inl e, d) \<Rightarrow> (serverError e, (d, x))
      | (Inr servers, d) \<Rightarrow>
          (case ListAudit (de_pg env) 500 d of
             (Inl e, d) \<Rightarrow> (serverError e, (d, x))
           | (Inr trail, d) \<Rightarrow>
               (case ListPendingApprovals (de_pg env) d of
                  (Inl e, d) \<Rightarrow> (serverError e, (d, x))
                | (Inr pending, d) \<Rightarrow>
                    (writeJSON 200 (stats_json (de_float env)
                       (dash_stats (de_now env) (px_Configured (da_runtime s)) servers trail pending)), (d, x)))))"

subsection \<open>Views and switches\<close>

definition json_list :: "('a \<Rightarrow> json) \<Rightarrow> 'a list \<Rightarrow> json" where
  "json_list f xs = (if xs = [] then JNull else JArr (map f xs))"

definition tool_json :: "Tool \<Rightarrow> json" where
  "tool_json t = JObj [(''id'', JStr (tl_ID t)), (''server_id'', JStr (tl_ServerID t)), (''name'', JStr (tl_Name t)),
     (''scope'', JStr (tl_Scope t)), (''impact'', JStr (tl_Impact t))]"

definition server_json :: "(int \<Rightarrow> string) \<Rightarrow> Server \<Rightarrow> json" where
  "server_json tm s = JObj
     [(''id'', JStr (srv_ID s)), (''name'', JStr (srv_Name s)), (''owner'', JStr (srv_Owner s)),
      (''description'', JStr (srv_Description s)), (''endpoint'', JStr (srv_Endpoint s)), (''transport'', JStr (srv_Transport s)),
      (''auth'', JStr (srv_Auth s)), (''lifecycle'', JStr (srv_Lifecycle s)), (''enabled'', JBool (srv_Enabled s)),
      (''health'', JStr (srv_Health s)), (''created_at'', JStr (tm (srv_CreatedAt s))), (''updated_at'', JStr (tm (srv_UpdatedAt s))),
      (''tools'', json_list tool_json (srv_Tools s)), (''committees'', json_list JStr (srv_Committees s))]"

definition audit_json :: "(int \<Rightarrow> string) \<Rightarrow> AuditEntry \<Rightarrow> json option" where
  "audit_json tm e = map_option (\<lambda>args. JObj
     [(''id'', JNum (Itoa (au_ID e))), (''actor'', JStr (au_Actor e)), (''tool'', JStr (au_Tool e)), (''args_redacted'', args),
      (''result'', JStr (au_Result e)), (''latency_ms'', JNum (Itoa (au_LatencyMS e))), (''created_at'', JStr (tm (au_CreatedAt e)))])
     (raw_value (au_ArgsRedacted e))"

definition approval_json :: "(int \<Rightarrow> string) \<Rightarrow> Approval \<Rightarrow> json option" where
  "approval_json tm a = map_option (\<lambda>args. JObj
     ([(''id'', JStr (ap_ID a)), (''session_id'', JStr (ap_SessionID a)), (''tool'', JStr (ap_Tool a)), (''args_redacted'', args),
       (''status'', JStr (ap_Status a)), (''decided_by'', JStr (ap_DecidedBy a))] @
      (case ap_DecidedAt a of None \<Rightarrow> [] | Some t \<Rightarrow> [(''decided_at'', JStr (tm t))]) @
      [(''created_at'', JStr (tm (ap_CreatedAt a)))]))
     (raw_value (ap_ArgsRedacted a))"

text \<open>A value that cannot be encoded leaves the body empty: the status has been written before.\<close>

definition write_value :: "json option \<Rightarrow> Response" where
  "write_value v = \<lparr>resp_Code = 200, resp_Body = (case v of None \<Rightarrow> Raw_Empty | Some j \<Rightarrow> Raw_JSON j)\<rparr>"

definition wrap_list :: "string \<Rightarrow> json option list \<Rightarrow> json option" where
  "wrap_list k xs = (if None \<in> set xs then None else Some (JObj [(k, JArr (map the xs))]))"

definition handleRegistry :: "dash_env \<Rightarrow> Request \<Rightarrow> 's dash_state \<Rightarrow> Response \<times> 's dash_state" where
  "handleRegistry env r st =
     (let (d, x) = st in
      case ListServers (de_pg env) d of
        (Inl e, d) \<Rightarrow> (serverError e, (d, x))
      | (Inr servers, d) \<Rightarrow> (write_value (wrap_list ''servers'' (map (\<lambda>s. Some (server_json (de_time env) s)) servers)), (d, x)))"

definition updated :: Response where
  "updated = writeJSON 200 (JObj [(''status'', JStr ''updated'')])"

definition handleLifecycle :: "dash_env \<Rightarrow> Request \<Rightarrow> 's dash_state \<Rightarrow> Response \<times> 's dash_state" where
  "handleLifecycle env r st =
     (let (d, x) = st in
      case Option.bind (body_object (req_Body r)) (str_field (de_cf env) ''lifecycle'') of
        None \<Rightarrow> (badRequest, st)
      | Some l \<Rightarrow>
          (case SetServerLifecycle (de_pg env) (req_PathValue r ''name'') l d of
             (Inl e, d) \<Rightarrow> (serverError e, (d, x)) | (Inr u, d) \<Rightarrow> (updated, (d, x))))"

definition handleEnabled :: "dash_env \<Rightarrow> Request \<Rightarrow> 's dash_state \<Rightarrow> Response \<times> 's dash_state" where
  "handleEnabled env r st =
     (let (d, x) = st in
      case Option.bind (body_object (req_Body r)) (bool_field (de_cf env) ''enabled'') of
        None \<Rightarrow> (badRequest, st)
      | Some b \<Rightarrow>
          (case SetServerEnabled (de_pg env) (req_PathValue r ''name'') b d of
             (Inl e, d) \<Rightarrow> (serverError e, (d, x)) | (Inr u, d) \<Rightarrow> (updated, (d, x))))"

definition audit_limit :: "Request \<Rightarrow> int" where
  "audit_limit r =
     (case (if req_Query r ''limit'' = [] then None else Atoi (req_Query r ''limit'')) of
        None \<Rightarrow> 100 | Some n \<Rightarrow> (if n > 0 \<and> n \<le> 500 then n else 100))"

definition handleAudit :: "dash_env \<Rightarrow> Request \<Rightarrow> 's dash_state \<Rightarrow> Response \<times> 's dash_state" where
  "handleAudit env r st =
     (let (d, x) = st in
      case ListAudit (de_pg env) (audit_limit r) d of
        (Inl e, d) \<Rightarrow> (serverError e, (d, x))
      | (Inr trail, d) \<Rightarrow> (write_value (wrap_list ''audit'' (map (audit_json (de_time env)) trail)), (d, x)))"

definition handleApprovals :: "dash_env \<Rightarrow> Request \<Rightarrow> 's dash_state \<Rightarrow> Response \<times> 's dash_state" where
  "handleApprovals env r st =
     (let (d, x) = st in
      case ListPendingApprovals (de_pg env) d of
        (Inl e, d) \<Rightarrow> (serverError e, (d, x))
      | (Inr pending, d) \<Rightarrow> (write_value (wrap_list ''approvals'' (map (approval_json (de_time env)) pending)), (d, x)))"

definition handleDecide :: "dash_env \<Rightarrow> Request \<Rightarrow> 's dash_state \<Rightarrow> Response \<times> 's dash_state" where
  "handleDecide env r st =
     (let (d, x) = st in
      case Option.bind (body_object (req_Body r))
             (\<lambda>kvs. Option.bind (str_field (de_cf env) ''status'' kvs) (\<lambda>status.
                map_option (\<lambda>by. (status, by)) (str_field (de_cf env) ''decided_by'' kvs))) of
        None \<Rightarrow> (badRequest, st)
      | Some (status, by) \<Rightarrow>
          (case DecideApproval (de_pg env) (req_PathValue r ''id'') status by d of
             (Inl e, d) \<Rightarrow> (serverError e, (d, x))
           | (Inr ap, d) \<Rightarrow> (write_value (approval_json (de_time env) ap), (d, x))))"

subsection \<open>The runtime proxy\<close>

definition proxyRuntime :: "'s Dash \<Rightarrow> string \<Rightarrow> string \<Rightarrow> raw option \<Rightarrow> 's dash_state \<Rightarrow> Response \<times> 's dash_state" where
  "proxyRuntime s meth path body st =
     (if \<not> px_Configured (da_runtime s) then (write_error 503 ''runtime not configured'', st)
      else
        (let ((out, code, err), x) = px_Do (da_runtime s) meth path body (snd st)
         in case err of
              Some e \<Rightarrow>
                (if out = Raw_Empty then (write_error 502 (Error e), (fst st, x))
                 else (\<lparr>resp_Code = code, resp_Body = out\<rparr>, (fst st, x)))
            | None \<Rightarrow> (\<lparr>resp_Code = code, resp_Body = out\<rparr>, (fst st, x))))"

definition handleSubmitTask :: "'s Dash \<Rightarrow> Request \<Rightarrow> 's dash_state \<Rightarrow> Response \<times> 's dash_state" where
  "handleSubmitTask s r st = proxyRuntime s ''POST'' ''/tasks'' (Some (req_Body r)) st"

definition handleGetTask :: "'s Dash \<Rightarrow> Request \<Rightarrow> 's dash_state \<Rightarrow> Response \<times> 's dash_state" where
  "handleGetTask s r st = proxyRuntime s ''GET'' (''/tasks/'' @ req_PathValue r ''id'') None st"

definition handleApproveTask :: "'s Dash \<Rightarrow> Request \<Rightarrow> 's dash_state \<Rightarrow> Response \<times> 's dash_state" where
  "handleApproveTask s r st =
     proxyRuntime s ''POST'' (''/tasks/'' @ req_PathValue r ''id'' @ ''/approve'') (Some (req_Body r)) st"

text \<open>
  The proxy's client.  The transport answers with an error, or with a status, what was read of the body
  and perhaps an error reading it.
\<close>

type_synonym 's byte_transport =
  "string \<Rightarrow> string \<Rightarrow> (string \<times> string) list \<Rightarrow> raw option \<Rightarrow> 's \<Rightarrow> (goerr + int \<times> raw \<times> goerr option) \<times> 's"

definition dash_Do ::
  "(string \<Rightarrow> goerr option) \<Rightarrow> 's byte_transport \<Rightarrow> Client \<Rightarrow> string \<Rightarrow> string \<Rightarrow> raw option \<Rightarrow> 's \<Rightarrow> (raw \<times> int \<times> goerr option) \<times> 's" where
  "dash_Do parse_url http c meth path body x =
     (if \<not> Configured c then ((Raw_Empty, 503, Some (Errorf ''runtime not configured'' [])), x)
      else (case parse_url (cl_baseURL c @ path) of
              Some e \<Rightarrow> ((Raw_Empty, 0, Some e), x)
            | None \<Rightarrow>
                (case http meth (cl_baseURL c @ path) (client_headers c) body x of
                   (Inl e, x) \<Rightarrow> ((Raw_Empty, 502, Some e), x)
                 | (Inr (code, out, err), x) \<Rightarrow> ((out, code, err), x))))"

definition proxy_of :: "(string \<Rightarrow> goerr option) \<Rightarrow> 's byte_transport \<Rightarrow> Client \<Rightarrow> 's Proxy" where
  "proxy_of parse_url http c = \<lparr>px_Configured = Configured c, px_Do = dash_Do parse_url http c\<rparr>"

subsection \<open>Routes\<close>

text \<open>The routes behind the token, with the path values each gives its handler, for a path cut at its slashes.\<close>

definition path_value :: "string \<Rightarrow> string \<Rightarrow> string \<Rightarrow> string" where
  "path_value k v = (\<lambda>n. if n = k then v else [])"

definition gated ::
  "dash_env \<Rightarrow> 's Dash \<Rightarrow> string \<Rightarrow> string list \<Rightarrow>
     ((Request \<Rightarrow> 's dash_state \<Rightarrow> Response \<times> 's dash_state) \<times> (string \<Rightarrow> string)) option" where
  "gated env s meth segs =
     (let reads = (meth = ''GET'' \<or> meth = ''HEAD''); posts = (meth = ''POST''); none = (\<lambda>n. [])
      in case segs of
           [a, b, c] \<Rightarrow>
             (if a \<noteq> [] \<or> b \<noteq> ''api'' then None
              else if reads \<and> c = ''stats'' then Some (handleStats env s, none)
              else if reads \<and> c = ''registry'' then Some (handleRegistry env, none)
              else if reads \<and> c = ''audit'' then Some (handleAudit env, none)
              else if reads \<and> c = ''approvals'' then Some (handleApprovals env, none)
              else if posts \<and> c = ''tasks'' then Some (handleSubmitTask s, none)
              else None)
         | [a, b, c, i] \<Rightarrow>
             (if a \<noteq> [] \<or> b \<noteq> ''api'' \<or> i = [] then None
              else if reads \<and> c = ''tasks'' then Some (handleGetTask s, path_value ''id'' i)
              else None)
         | [a, b, c, i, e] \<Rightarrow>
             (if a \<noteq> [] \<or> b \<noteq> ''api'' \<or> i = [] \<or> \<not> posts then None
              else if c = ''registry'' \<and> e = ''lifecycle'' then Some (handleLifecycle env, path_value ''name'' i)
              else if c = ''registry'' \<and> e = ''enabled'' then Some (handleEnabled env, path_value ''name'' i)
              else if c = ''approvals'' \<and> e = ''decide'' then Some (handleDecide env, path_value ''id'' i)
              else if c = ''tasks'' \<and> e = ''approve'' then Some (handleApproveTask s, path_value ''id'' i)
              else None)
         | _ \<Rightarrow> None)"

text \<open>The response, the cookie set and the state after a request for a path of plain segments.\<close>

definition dash_routes ::
  "dash_env \<Rightarrow> 's Dash \<Rightarrow> string \<Rightarrow> string \<Rightarrow> Request \<Rightarrow> 's dash_state \<Rightarrow> (Response \<times> string option) \<times> 's dash_state" where
  "dash_routes env s meth path r st =
     (let segs = split_on (CHR ''/'') path; reads = (meth = ''GET'' \<or> meth = ''HEAD'')
      in if reads \<and> segs = [[], ''healthz''] then ((writeJSON 200 (JObj [(''status'', JStr ''ok'')]), None), st)
         else if meth = ''POST'' \<and> segs = [[], ''api'', ''login''] then (handleLogin (de_cf env) s r, st)
         else if reads \<and> segs = [[], ''api'', ''me''] then ((handleMe s r, None), st)
         else (case gated env s meth segs of
                 None \<Rightarrow> ((de_static env r, None), st)
               | Some (h, pv) \<Rightarrow> (let (resp, st) = dash_auth s (r\<lparr>req_PathValue := pv\<rparr>) h st in ((resp, None), st))))"

end
