(* ===== verification/DashboardProperties.thy ===== *)
theory DashboardProperties
  imports Dashboard
begin

text \<open>
  The dashboard: the token gate in front of every route, the login round trip, the statistics, and what
  a maintainer's decision or switch does to the calls of the gateway.
\<close>

interpretation dash: gate "authed s" "dash_auth s" "write_error 401 ''unauthorized''" for s
  by unfold_locales (simp_all add: dash_auth_def write_error_def writeJSON_def)

subsection \<open>The gate\<close>

lemma handleLogin_read_only: "dash_routes env s meth path r st = (x, st') \<Longrightarrow> gated env s meth (split_on (CHR ''/'') path) = None \<Longrightarrow> st' = st"
  by (auto simp: dash_routes_def Let_def split: if_splits)

lemma authed_path [simp]: "authed s (r\<lparr>req_PathValue := f\<rparr>) = authed s r"
  by (simp add: authed_def Cookie_def)

lemma gated_not_open:
  "gated env s meth segs = Some hp \<Longrightarrow> segs \<noteq> [[], ''healthz''] \<and> \<not> (meth = ''POST'' \<and> segs = [[], ''api'', ''login'']) \<and>
     segs \<noteq> [[], ''api'', ''me'']"
  by (auto simp: gated_def Let_def split: list.splits if_splits)

lemma dash_routes_gated:
  assumes "gated env s meth (split_on (CHR ''/'') path) = Some (h, pv)"
  shows "dash_routes env s meth path r st =
     (let (resp, st) = dash_auth s (r\<lparr>req_PathValue := pv\<rparr>) h st in ((resp, None), st))"
  using gated_not_open [OF assms] assms by (auto simp: dash_routes_def Let_def)

text \<open>
  C35. The dashboard is closed to strangers: with a maintainer token configured, a request that does not
  carry it in its cookie changes neither the database nor the runtime, whatever its route, and every
  route of the API behind the gate answers 401.
\<close>

theorem dashboard_gate:
  assumes "da_token s \<noteq> []" "Cookie cookieName r \<noteq> Some (da_token s)"
  shows "snd (dash_routes env s meth path r st) = st \<and>
    (gated env s meth (split_on (CHR ''/'') path) \<noteq> None \<longrightarrow>
       fst (dash_routes env s meth path r st) = (write_error 401 ''unauthorized'', None))"
proof (cases "gated env s meth (split_on (CHR ''/'') path)")
  case None
  then show ?thesis
    using handleLogin_read_only [of env s meth path r st] by (cases "dash_routes env s meth path r st") simp
next
  case (Some hp)
  obtain h pv where "hp = (h, pv)" by force
  moreover have "\<not> authed s r" using assms by (simp add: authed_def devMode_def)
  ultimately show ?thesis
    using Some dash_routes_gated [of env s meth path h pv r st] by (simp add: dash.denied)
qed

subsection \<open>Logging in\<close>

lemma cut_char_append: "c \<notin> set a \<Longrightarrow> cut_char c (a @ c # b) = (a, b)"
  by (induction a) auto

lemma cookie_byte_not: "\<not> cookie_byte (CHR 0x22)" "\<not> cookie_byte (CHR '';'')"
  by (simp_all add: cookie_byte_def)

lemma blank_cookie_byte: "blank c \<Longrightarrow> cookie_byte c \<Longrightarrow> c = CHR 0x20"
  by (auto simp: blank_def cookie_byte_def less_eq_char_def)

lemma sanitized_separator: "CHR '';'' \<notin> set (sanitizeCookieValue v)"
  using cookie_byte_not by (auto simp: sanitizeCookieValue_def Let_def)

lemma sanitized_last:
  assumes "sanitizeCookieValue v \<noteq> []"
  shows "\<not> blank (last (sanitizeCookieValue v))"
proof (cases "CHR '' '' \<in> set (filter cookie_byte v) \<or> CHR '','' \<in> set (filter cookie_byte v)")
  case True
  then have "last (sanitizeCookieValue v) = CHR 0x22" by (simp add: sanitizeCookieValue_def Let_def)
  then show ?thesis by (simp add: blank_def)
next
  case False
  then have eq: "sanitizeCookieValue v = filter cookie_byte v" by (simp add: sanitizeCookieValue_def Let_def)
  with assms have "last (filter cookie_byte v) \<in> set (filter cookie_byte v)" by (metis last_in_set)
  with False eq show ?thesis using blank_cookie_byte by fastforce
qed

lemma parse_sanitized: "parseCookieValue (sanitizeCookieValue v) = Some (filter cookie_byte v)"
proof (cases "CHR '' '' \<in> set (filter cookie_byte v) \<or> CHR '','' \<in> set (filter cookie_byte v)")
  case True
  then have eq: "sanitizeCookieValue v = CHR 0x22 # filter cookie_byte v @ [CHR 0x22]"
    by (simp add: sanitizeCookieValue_def Let_def)
  show ?thesis by (simp add: eq parseCookieValue_def list_all_iff)
next
  case False
  then have eq: "sanitizeCookieValue v = filter cookie_byte v" by (simp add: sanitizeCookieValue_def Let_def)
  have "hd (filter cookie_byte v) \<noteq> CHR 0x22" if "1 < length (filter cookie_byte v)"
  proof
    assume q: "hd (filter cookie_byte v) = CHR 0x22"
    have "hd (filter cookie_byte v) \<in> set (filter cookie_byte v)" using that by (intro hd_in_set) auto
    with cookie_byte_not(1) show False unfolding q by simp
  qed
  then show ?thesis by (auto simp: eq parseCookieValue_def list_all_iff)
qed

lemma TrimString_id:
  assumes "s \<noteq> []" "\<not> blank (hd s)" "\<not> blank (last s)"
  shows "TrimString s = s"
proof -
  have "dropWhile blank s = s" using assms(1,2) by (cases s) simp_all
  moreover have "dropWhile blank (rev s) = rev s" using assms(1,3) by (cases s rule: rev_cases) simp_all
  ultimately show ?thesis by (simp add: TrimString_def)
qed

lemma cookie_read_back:
  assumes "req_Header r ''Cookie'' = cookieName @ ''='' @ sanitizeCookieValue tok"
  shows "Cookie cookieName r = Some (filter cookie_byte tok)"
proof -
  let ?v = "sanitizeCookieValue tok" and ?c = "cookieName @ ''='' @ sanitizeCookieValue tok"
  have "CHR '';'' \<notin> set ?c" using sanitized_separator [of tok] by (simp add: cookieName_def)
  then have split: "split_on (CHR '';'') ?c = [?c]" by (rule split_on_no)
  have "last ?c = (if ?v = [] then CHR ''='' else last ?v)" by (simp add: cookieName_def)
  then have trim: "TrimString ?c = ?c"
    using sanitized_last [of tok] by (intro TrimString_id) (auto simp: cookieName_def blank_def)
  have cut: "cut_char (CHR ''='') ?c = (cookieName, ?v)"
    using cut_char_append [of "CHR ''=''" cookieName ?v] by (simp add: cookieName_def)
  have "TrimString cookieName = cookieName" by (rule TrimString_id) (simp_all add: cookieName_def blank_def)
  then have "cookie_part cookieName ?c = Some (filter cookie_byte tok)"
    unfolding cookie_part_def trim cut by (simp add: parse_sanitized)
  then show ?thesis unfolding Cookie_def assms split by (simp add: List.map_filter_def)
qed

text \<open>
  Logging in works exactly for tokens that a cookie can carry: a login with the configured token is
  accepted, and the cookie it sets authenticates later requests if and only if every byte of the token
  is one that \<open>net/http\<close> allows in a cookie value; with any other token the login still answers ok, but the
  dashboard stays closed.
\<close>

theorem login_round_trip:
  assumes "da_token s \<noteq> []" "req_Body r0 = Raw_JSON (JObj [(''token'', JStr (da_token s))])"
  shows "\<exists>c. handleLogin cf s r0 = (writeJSON 200 (JObj [(''ok'', JBool True)]), Some c) \<and>
    (\<forall>r :: Request. req_Header r ''Cookie'' = c \<longrightarrow> (authed s r \<longleftrightarrow> list_all cookie_byte (da_token s)))"
proof (intro exI conjI allI impI)
  show "handleLogin cf s r0 = (writeJSON 200 (JObj [(''ok'', JBool True)]), Some (cookieName @ ''='' @ sanitizeCookieValue (da_token s)))"
    by (simp add: handleLogin_def assms field_matches_def)
  fix r :: Request assume "req_Header r ''Cookie'' = cookieName @ ''='' @ sanitizeCookieValue (da_token s)"
  then have "Cookie cookieName r = Some (filter cookie_byte (da_token s))" by (rule cookie_read_back)
  then show "authed s r \<longleftrightarrow> list_all cookie_byte (da_token s)"
    using assms(1) by (simp add: authed_def devMode_def list_all_iff filter_id_conv)
qed

text \<open>A wrong token is turned away.\<close>

lemma login_wrong_token:
  assumes "da_token s \<noteq> []" "req_Body r = Raw_JSON (JObj [(''token'', JStr t)])" "t \<noteq> da_token s"
  shows "handleLogin cf s r = (write_error 401 ''invalid token'', None)"
  using assms by (simp add: handleLogin_def devMode_def field_matches_def)

subsection \<open>Switches and decisions reach the gateway\<close>

lemma split_api5:
  assumes "CHR ''/'' \<notin> set i"
  shows "split_on (CHR ''/'') (''/api/registry/'' @ i @ ''/enabled'') = [[], ''api'', ''registry'', i, ''enabled'']"
    "split_on (CHR ''/'') (''/api/registry/'' @ i @ ''/lifecycle'') = [[], ''api'', ''registry'', i, ''lifecycle'']"
    "split_on (CHR ''/'') (''/api/approvals/'' @ i @ ''/decide'') = [[], ''api'', ''approvals'', i, ''decide'']"
  using split_on_append_sep [OF assms] by simp_all

lemma dash_routes_authed:
  assumes "authed s r" "gated env s meth (split_on (CHR ''/'') path) = Some (h, pv)"
    and "dash_routes env s meth path r st = ((resp, c), st')"
  shows "h (r\<lparr>req_PathValue := pv\<rparr>) st = (resp, st')"
proof -
  have "dash_auth s (r\<lparr>req_PathValue := pv\<rparr>) h st = h (r\<lparr>req_PathValue := pv\<rparr>) st"
    by (rule dash.passed) (simp add: assms(1))
  with assms(3) dash_routes_gated [OF assms(2), of r st] show ?thesis by (auto split: prod.splits)
qed

lemma error_codes [simp]: "resp_Code (serverError e) = 500" "resp_Code badRequest = 400" "resp_Code updated = 200"
  by (simp_all add: serverError_def badRequest_def updated_def write_error_def writeJSON_def)

lemma handleEnabled_ok:
  assumes "handleEnabled env r (d, x) = (resp, (d', x'))" "resp_Code resp = 200"
  shows "\<exists>kvs b. body_object (req_Body r) = Some kvs \<and> bool_field (de_cf env) ''enabled'' kvs = Some b \<and>
    SetServerEnabled (de_pg env) (req_PathValue r ''name'') b d = (Inr (), d') \<and> x' = x"
  using assms by (auto simp: handleEnabled_def bind_eq_Some_conv split: option.splits prod.splits sum.splits)

lemma handleDecide_ok:
  assumes "handleDecide env r (d, x) = (resp, (d', x'))" "resp_Code resp = 200"
  shows "\<exists>kvs status by ap. body_object (req_Body r) = Some kvs \<and> str_field (de_cf env) ''status'' kvs = Some status \<and>
    str_field (de_cf env) ''decided_by'' kvs = Some by \<and>
    DecideApproval (de_pg env) (req_PathValue r ''id'') status by d = (Inr ap, d') \<and> x' = x"
  using assms by (fastforce simp: handleDecide_def bind_eq_Some_conv split: option.splits prod.splits sum.splits)

text \<open>
  C34. The switch of the dashboard stops a server at the gateway: after a maintainer's request to
  \<open>/api/registry/NAME/enabled\<close> with \<open>enabled\<close> false (or left out) is answered 200, then for every gateway
  on that database, whatever its limiter, downstream client and clock, in every later state in which
  the registry's server rows are still these: a call to a tool of that server, whoever makes it,
  reaches no tool and is answered with an error, and no tool of that server is listed for anybody.  The
  runtime is not touched.
\<close>

theorem dashboard_switch_stops:
  fixes g :: "db Gateway"
  assumes "authed s r" "n \<noteq> []" "CHR ''/'' \<notin> set n"
    and "body_object (req_Body r) = Some kvs" "bool_field (de_cf env) ''enabled'' kvs = Some False"
    and "dash_routes env s ''POST'' (''/api/registry/'' @ n @ ''/enabled'') r (d, x) = ((resp, c), (d', x'))"
    and "resp_Code resp = 200"
    and "gw_store g = repo_store (de_pg env)" "mcp_servers (gs_store gs) = mcp_servers d'"
  shows "(\<forall>ck req res err gs'. rq_ServerName req = n \<and> Call g ck req gs = ((res, err), gs') \<longrightarrow>
      gs_calls gs' = gs_calls gs \<and> err \<noteq> None) \<and>
    (\<forall>ident vs gs'. ListTools g ident gs = (Inr vs, gs') \<longrightarrow> list_all (\<lambda>v. vt_ServerName v \<noteq> n) vs) \<and> x' = x"
proof -
  have g: "gated env s ''POST'' (split_on (CHR ''/'') (''/api/registry/'' @ n @ ''/enabled'')) = Some (handleEnabled env, path_value ''name'' n)"
    using assms(2) by (simp add: split_api5 [OF assms(3)] gated_def del: append_Cons)
  from handleEnabled_ok [OF dash_routes_authed [OF assms(1) g assms(6)] assms(7)] assms(4,5)
  have set: "SetServerEnabled (de_pg env) n False d = (Inr (), d')" "x' = x" by (auto simp: path_value_def)
  have off: "\<not> srv_Enabled v" if "v \<in> set (mcp_servers (gs_store gs))" "srv_Name v = n" for v
    using switched_off [OF set(1)] that assms(9) by simp
  show ?thesis using off_no_call [OF assms(8)] off_not_listed [OF assms(8)] off set(2) by blast
qed

text \<open>
  C33. The decision taken on the dashboard lets the gated call through: the gateway gates a high-impact
  call and names an approval; a maintainer's \<open>/api/approvals/ID/decide\<close> with status \<open>approved\<close> for that id is
  answered 200; then the same call, if the limiter lets it pass, reaches the tool with the caller's
  arguments.
\<close>

theorem dashboard_decision_unlocks:
  assumes "db_inv (gs_store gs)" "\<forall>n. pg_fault (de_pg env) n = None" "gw_store g = repo_store (de_pg env)"
    and "rq_SessionID req \<noteq> []" "pg_uuid_in (de_pg env) (rq_SessionID req) \<noteq> None"
    and "fst (limit_step ck (rq_Identity req) gs)"
    and "decide (de_pg env) (gs_store gs) req = Needs_Approval"
    and "Call g ck req gs = ((res, Some (ApprovalRequiredError aid t)), gs')"
    and "pg_uuid_in (de_pg env) aid = Some aid" "aid \<noteq> []" "CHR ''/'' \<notin> set aid"
    and "authed s r" "body_object (req_Body r) = Some kvs" "str_field (de_cf env) ''status'' kvs = Some ''approved''"
    and "dash_routes env s ''POST'' (''/api/approvals/'' @ aid @ ''/decide'') r (gs_store gs', x) = ((resp, c), (d2, x'))"
    and "resp_Code resp = 200"
    and "fst (limit_step ck2 (rq_Identity req) (gs'\<lparr>gs_store := d2\<rparr>))"
    and "Call g ck2 req (gs'\<lparr>gs_store := d2\<rparr>) = ((res2, err2), gs2)"
  shows "\<exists>srv tl. gs_calls gs2 = gs_calls gs @ [(srv, tl, rq_Args req)] \<and> tl_Name tl = rq_ToolName req"
proof -
  have g: "gated env s ''POST'' (split_on (CHR ''/'') (''/api/approvals/'' @ aid @ ''/decide'')) = Some (handleDecide env, path_value ''id'' aid)"
    using assms(10) by (simp add: split_api5 [OF assms(11)] gated_def del: append_Cons)
  from handleDecide_ok [OF dash_routes_authed [OF assms(12) g assms(15)] assms(16)] assms(13,14)
  obtain who ap where "DecideApproval (de_pg env) aid ''approved'' who (gs_store gs') = (Inr ap, d2)"
    by (auto simp: path_value_def)
  from approved_call_reaches [OF assms(1-9) this assms(17,18)] show ?thesis .
qed

subsection \<open>Statistics\<close>

lemma foldl_count_server:
  "foldl count_server st servers =
     st\<lparr>st_ToolsTotal := st_ToolsTotal st + (\<Sum>s\<leftarrow>servers. int (length (srv_Tools s))),
        st_HighImpactTools := st_HighImpactTools st + (\<Sum>s\<leftarrow>servers. int (length (filter (\<lambda>t. tl_Impact t = ''high'') (srv_Tools s)))),
        st_ServersApproved := st_ServersApproved st + int (length (filter (\<lambda>s. srv_Lifecycle s = LifecycleApproved) servers)),
        st_ServersProposed := st_ServersProposed st + int (length (filter (\<lambda>s. srv_Lifecycle s = LifecycleProposed) servers))\<rparr>"
proof (induction servers arbitrary: st)
  case (Cons sv servers)
  have "LifecycleApproved \<noteq> LifecycleProposed" by (simp add: LifecycleApproved_def LifecycleProposed_def)
  then show ?case by (simp only: foldl_Cons Cons.IH) (simp add: count_server_def Let_def)
qed simp

definition failed_entry :: "AuditEntry \<Rightarrow> bool" where
  "failed_entry e \<longleftrightarrow> HasPrefix (au_Result e) ''denied'' \<or> HasPrefix (au_Result e) ''error''"

lemma foldl_count_entry:
  "foldl (count_entry cut_off) (a, b, c, n) es =
     (a + int (length (filter (\<lambda>e. cut_off < au_CreatedAt e) es)), b + int (length (filter failed_entry es)),
      c + (\<Sum>e\<leftarrow>es. au_LatencyMS e), n + int (length es))"
  by (induction es arbitrary: a b c n) (auto simp: count_entry_def failed_entry_def)

lemma f64_ratio:
  assumes "0 \<le> a" "a \<le> n" "0 < n"
  shows "0 \<le> f64 (of_int a / of_int n) \<and> f64 (of_int a / of_int n) \<le> 1"
proof -
  have "(0::rat) \<le> of_int a / of_int n" "of_int a / of_int n \<le> (1::rat)" using assms by (simp_all add: divide_le_eq)
  then show ?thesis using f64.rnd_nonneg f64.rnd_le_int [of "of_int a / of_int n" 1] by auto
qed

lemma filter_lengths:
  "(\<And>x. P x \<Longrightarrow> \<not> Q x) \<Longrightarrow> length (filter P xs) + length (filter Q xs) \<le> length xs"
  by (induction xs) (auto simp: le_Suc_eq)

text \<open>
  The statistics are what their names say: every counter equals the count over the registry, the audit
  entries read and the pending approvals, the latency is the truncated mean, the error rate is the rounded
  share of denied and failed entries; it lies between 0 and 1, and approved and proposed servers are among
  all servers.
\<close>

theorem stats_exact:
  "dash_stats now available servers trail pending =
     \<lparr>st_ServersTotal = int (length servers),
      st_ServersApproved = int (length (filter (\<lambda>s. srv_Lifecycle s = LifecycleApproved) servers)),
      st_ServersProposed = int (length (filter (\<lambda>s. srv_Lifecycle s = LifecycleProposed) servers)),
      st_ToolsTotal = int (length (concat (map srv_Tools servers))),
      st_HighImpactTools = int (length (filter (\<lambda>t. tl_Impact t = ''high'') (concat (map srv_Tools servers)))),
      st_PendingApprovals = int (length pending),
      st_Audit24h = int (length (filter (\<lambda>e. now - 86400 * 10 ^ 9 < au_CreatedAt e) trail)),
      st_ErrorRate = (if trail = [] then 0 else f64 (of_nat (length (filter failed_entry trail)) / of_nat (length trail))),
      st_AvgLatencyMS = (if trail = [] then 0 else go_div (\<Sum>e\<leftarrow>trail. au_LatencyMS e) (int (length trail))),
      st_RuntimeAvailable = available\<rparr> \<and>
   0 \<le> st_ErrorRate (dash_stats now available servers trail pending) \<and>
   st_ErrorRate (dash_stats now available servers trail pending) \<le> 1 \<and>
   st_ServersApproved (dash_stats now available servers trail pending) +
     st_ServersProposed (dash_stats now available servers trail pending) \<le> int (length servers)"
proof -
  have tools: "(\<Sum>s\<leftarrow>servers. int (length (srv_Tools s))) = int (length (concat (map srv_Tools servers)))"
    by (induction servers) simp_all
  have high: "(\<Sum>s\<leftarrow>servers. int (length (filter P (srv_Tools s)))) = int (length (filter P (concat (map srv_Tools servers))))" for P
    by (induction servers) simp_all
  have "length (filter (\<lambda>s. srv_Lifecycle s = LifecycleApproved) servers) +
      length (filter (\<lambda>s. srv_Lifecycle s = LifecycleProposed) servers) \<le> length servers"
    by (rule filter_lengths) (simp add: LifecycleApproved_def LifecycleProposed_def)
  moreover have "trail \<noteq> [] \<Longrightarrow> 0 \<le> f64 (of_nat (length (filter failed_entry trail)) / of_nat (length trail)) \<and>
      f64 (of_nat (length (filter failed_entry trail)) / of_nat (length trail)) \<le> 1"
    using f64_ratio [of "int (length (filter failed_entry trail))" "int (length trail)"] by simp
  ultimately show ?thesis
    by (auto simp: dash_stats_def audit_stats_def server_stats_def no_stats_def foldl_count_server foldl_count_entry tools high)
qed

subsection \<open>A maintainer at work\<close>

definition demo_dash_env :: dash_env where
  "demo_dash_env = \<lparr>de_pg = demo_pg, de_cf = (\<lambda>s. s), de_time = (\<lambda>t. ''2026''), de_float = (\<lambda>x. ''0''), de_now = 0,
     de_static = (\<lambda>r. \<lparr>resp_Code = 200, resp_Body = Raw_Empty\<rparr>)\<rparr>"

definition demo_dash :: "unit Dash" where
  "demo_dash = \<lparr>da_runtime = \<lparr>px_Configured = False, px_Do = (\<lambda>m p b x. ((Raw_Empty, 503, None), x))\<rparr>, da_token = ''s3cret''\<rparr>"

definition demo_maintainer :: "string \<Rightarrow> json \<Rightarrow> Request" where
  "demo_maintainer cookie body = \<lparr>req_Header = (\<lambda>h. if h = ''Cookie'' then cookie else []), req_Body = Raw_JSON body,
     req_PathValue = (\<lambda>n. []), req_Query = (\<lambda>n. [])\<rparr>"

lemma demo_authed: "authed demo_dash (demo_maintainer ''sl_dash=s3cret'' body)"
proof -
  have "Cookie cookieName (demo_maintainer ''sl_dash=s3cret'' body) = Some (filter cookie_byte ''s3cret'')"
    by (rule cookie_read_back) (simp add: demo_maintainer_def cookieName_def sanitizeCookieValue_def cookie_byte_def less_eq_char_def less_char_def)
  then show ?thesis by (simp add: authed_def demo_dash_def cookie_byte_def less_eq_char_def less_char_def)
qed

theorem dashboard_gate_witness:
  "dash_routes demo_dash_env demo_dash ''POST'' ''/api/registry/fin/enabled''
     (demo_maintainer ''sl_dash=guess'' (JObj [(''enabled'', JBool True)])) (demo_db, ()) =
     ((write_error 401 ''unauthorized'', None), (demo_db, ()))"
proof -
  let ?r = "demo_maintainer ''sl_dash=guess'' (JObj [(''enabled'', JBool True)])"
  have c: "Cookie cookieName ?r \<noteq> Some (da_token demo_dash)" by code_simp
  have t: "da_token demo_dash \<noteq> []" by (simp add: demo_dash_def)
  have g: "gated demo_dash_env demo_dash ''POST'' (split_on (CHR ''/'') ''/api/registry/fin/enabled'') \<noteq> None"
    by (simp add: gated_def)
  from dashboard_gate [OF t c, of demo_dash_env "''POST''" "''/api/registry/fin/enabled''" "(demo_db, ())"] g
  show ?thesis by (metis prod.collapse)
qed

theorem login_round_trip_witness:
  "\<exists>c. handleLogin (\<lambda>s. s) demo_dash (demo_maintainer [] (JObj [(''token'', JStr ''s3cret'')])) =
       (writeJSON 200 (JObj [(''ok'', JBool True)]), Some c) \<and>
     authed demo_dash (demo_maintainer c JNull)"
proof -
  have t: "da_token demo_dash \<noteq> []" by (simp add: demo_dash_def)
  have b: "req_Body (demo_maintainer [] (JObj [(''token'', JStr ''s3cret'')])) = Raw_JSON (JObj [(''token'', JStr (da_token demo_dash))])"
    by (simp add: demo_maintainer_def demo_dash_def)
  have "req_Header (demo_maintainer c JNull) ''Cookie'' = c" for c by (simp add: demo_maintainer_def)
  moreover have "list_all cookie_byte (da_token demo_dash)" by code_simp
  ultimately show ?thesis using login_round_trip [OF t b, of "\<lambda>s. s"] by blast
qed

lemma demo_enabled: "bool_field (\<lambda>s. s) ''enabled'' [] = Some False"
  by (simp add: bool_field_def decode_field_def)

text \<open>A call that runs before the switch is refused after it.\<close>

theorem dashboard_switch_stops_witness:
  "\<exists>d' after. dash_routes demo_dash_env demo_dash ''POST'' ''/api/registry/fin/enabled''
       (demo_maintainer ''sl_dash=s3cret'' (JObj [])) (demo_db, ()) = ((updated, None), (d', ())) \<and>
     gs_calls (snd (Call demo_gateway demo_clock (demo_request ''finance'' ''ses'' ''look'') (start_gateway None demo_db))) \<noteq> [] \<and>
     Call demo_gateway demo_clock (demo_request ''finance'' ''ses'' ''look'') (start_gateway None d') = after \<and>
     snd (fst after) \<noteq> None \<and> gs_calls (snd after) = []"
proof -
  let ?r = "demo_maintainer ''sl_dash=s3cret'' (JObj [])"
  have env: "de_pg demo_dash_env = demo_pg" "de_cf demo_dash_env = (\<lambda>s. s)" by (simp_all add: demo_dash_env_def)
  have body: "body_object (req_Body ?r) = Some []" by (simp add: demo_maintainer_def)
  obtain d' where d: "SetServerEnabled demo_pg ''fin'' False demo_db = (Inr (), d')"
    by (simp add: SetServerEnabled_def rows_or_not_found_def update_server_def exec_def)
  have g: "gated demo_dash_env demo_dash ''POST'' (split_on (CHR ''/'') ''/api/registry/fin/enabled'')
      = Some (handleEnabled demo_dash_env, path_value ''name'' ''fin'')" by (simp add: gated_def)
  have h: "handleEnabled demo_dash_env (?r\<lparr>req_PathValue := path_value ''name'' ''fin''\<rparr>) (demo_db, ()) = (updated, (d', ()))"
    using body d demo_enabled by (simp add: handleEnabled_def env path_value_def)
  have run: "dash_routes demo_dash_env demo_dash ''POST'' (''/api/registry/'' @ ''fin'' @ ''/enabled'') ?r (demo_db, ()) = ((updated, None), (d', ()))"
    using dash_routes_gated [OF g, of ?r "(demo_db, ())"] dash.passed [OF demo_authed] h demo_authed [of "JObj []"]
    by (simp add: dash_auth_def)
  have f: "bool_field (de_cf demo_dash_env) ''enabled'' [] = Some False" by (simp add: env demo_enabled)
  let ?req = "demo_request ''finance'' ''ses'' ''look''"
  obtain res err gs' where c: "Call demo_gateway demo_clock ?req (start_gateway None d') = ((res, err), gs')" by (metis prod.exhaust)
  have at: "gw_store demo_gateway = repo_store (de_pg demo_dash_env)" "mcp_servers (gs_store (start_gateway None d')) = mcp_servers d'"
    by (simp_all add: env start_gateway_def demo_gateway_def NewGateway_def)
  have n: "''fin'' \<noteq> []" "CHR ''/'' \<notin> set ''fin''" "resp_Code updated = 200" "rq_ServerName ?req = ''fin''"
    by (simp_all add: demo_request_def)
  have "gs_calls gs' = gs_calls (start_gateway None d') \<and> err \<noteq> None"
    using dashboard_switch_stops [OF demo_authed n(1,2) body f run n(3) at] c n(4) by blast
  moreover have "gs_calls (snd (Call demo_gateway demo_clock ?req (start_gateway None demo_db))) \<noteq> []" by code_simp
  ultimately show ?thesis using run c by (auto simp: start_gateway_def)
qed

theorem dashboard_decision_unlocks_witness:
  "\<exists>res aid gs' resp d2 res2 err2 gs2 srv tl.
    Call demo_gateway demo_clock (demo_request ''finance'' ''ses'' ''pay'') (start_gateway None demo_db)
      = ((res, Some (ApprovalRequiredError aid ''pay'')), gs') \<and>
    dash_routes demo_dash_env demo_dash ''POST'' (''/api/approvals/'' @ aid @ ''/decide'')
      (demo_maintainer ''sl_dash=s3cret'' (JObj [(''status'', JStr ''approved'')])) (gs_store gs', ()) = ((resp, None), (d2, ())) \<and>
    Call demo_gateway demo_clock (demo_request ''finance'' ''ses'' ''pay'') (gs'\<lparr>gs_store := d2\<rparr>) = ((res2, err2), gs2) \<and>
    gs_calls gs2 = [(srv, tl, rq_Args (demo_request ''finance'' ''ses'' ''pay''))] \<and> tl_Name tl = ''pay''"
proof -
  let ?req = "demo_request ''finance'' ''ses'' ''pay''"
  let ?kvs = "[(''status'', JStr ''approved'')]"
  let ?r = "demo_maintainer ''sl_dash=s3cret'' (JObj ?kvs)"
  have env: "de_pg demo_dash_env = demo_pg" "de_cf demo_dash_env = (\<lambda>s. s)" by (simp_all add: demo_dash_env_def)
  obtain res gs' a where c: "Call demo_gateway demo_clock ?req (start_gateway None demo_db)
      = ((res, Some (ApprovalRequiredError (ar_id a) ''pay'')), gs')"
    and a: "approvals (gs_store gs') = [a]" and l: "gs_limiter gs' = None" by (rule demo_gated)
  obtain n a0 d1 where "CreateApproval demo_pg ''ses'' ''pay'' (gw_redact demo_gateway (rq_Args ?req)) (demo_db\<lparr>stmts := n\<rparr>) = (Inr a0, d1)"
    "ar_id a = ap_ID a0"
    by (rule Call_gated_ok [OF _ _ _ _ _ _ c, of demo_pg]) (simp_all add: demo_db_inv demo_decide)
  then have id: "ar_id a = replicate (Suc n) (CHR ''u'')"
    by (auto dest!: CreateApproval_ok simp: scanApproval_def)
  then have aid: "ar_id a \<noteq> []" "CHR ''/'' \<notin> set (ar_id a)" by (simp_all add: id)
  have body: "body_object (req_Body ?r) = Some ?kvs" by (simp add: demo_maintainer_def)
  have f: "str_field (\<lambda>s. s) ''status'' ?kvs = Some ''approved''" "str_field (\<lambda>s. s) ''decided_by'' ?kvs = Some []"
    by (simp_all add: decode_eval)
  obtain ap d2 where d: "DecideApproval demo_pg (ar_id a) ''approved'' [] (gs_store gs') = (Inr ap, d2)"
    using a by (simp add: DecideApproval_def store_eval approval_status_def)
  have g: "gated demo_dash_env demo_dash ''POST'' (split_on (CHR ''/'') (''/api/approvals/'' @ ar_id a @ ''/decide''))
      = Some (handleDecide demo_dash_env, path_value ''id'' (ar_id a))"
    using aid(1) by (simp add: split_api5 [OF aid(2)] gated_def del: append_Cons)
  have h: "handleDecide demo_dash_env (?r\<lparr>req_PathValue := path_value ''id'' (ar_id a)\<rparr>) (gs_store gs', ())
      = (write_value (approval_json (\<lambda>t. ''2026'') ap), (d2, ()))"
    using body f d by (simp add: handleDecide_def env path_value_def) (simp add: demo_dash_env_def)
  let ?resp = "write_value (approval_json (\<lambda>t. ''2026'') ap)"
  have run: "dash_routes demo_dash_env demo_dash ''POST'' (''/api/approvals/'' @ ar_id a @ ''/decide'') ?r (gs_store gs', ())
      = ((?resp, None), (d2, ()))"
    using dash_routes_gated [OF g, of ?r "(gs_store gs', ())"] h demo_authed [of "JObj ?kvs"] by (simp add: dash_auth_def)
  obtain res2 err2 gs2 where c2: "Call demo_gateway demo_clock ?req (gs'\<lparr>gs_store := d2\<rparr>) = ((res2, err2), gs2)"
    by (metis prod.exhaust)
  have lim: "fst (limit_step demo_clock (rq_Identity ?req) (gs'\<lparr>gs_store := d2\<rparr>))"
    by (simp add: limit_step_def l)
  have code: "resp_Code ?resp = 200" by (simp add: write_value_def)
  from dashboard_decision_unlocks [OF _ _ _ _ _ _ _ c _ aid demo_authed body _ run code lim c2] demo_db_inv f
  have "\<exists>srv tl. gs_calls gs2 = [(srv, tl, rq_Args ?req)] \<and> tl_Name tl = ''pay''"
    by (simp add: env demo_decide)
  then obtain srv tl where "gs_calls gs2 = [(srv, tl, rq_Args ?req)]" "tl_Name tl = ''pay''" by (elim exE conjE)
  with c run c2 show ?thesis by (intro exI conjI)
qed

end
