(* ===== verification/Processes.thy ===== *)
theory Processes
  imports GatewayMain McpServers RuntimeCLI Slack Scheduler Engineering DashboardProperties
begin

text \<open>
  The processes of the platform: what each \<open>main\<close> builds from its environment before it listens, and the
  routes it serves (runtime/cmd/runtime-server, services/dashboard/cmd/dashboard,
  services/slack-gateway/cmd/slack-gateway with internal/config, services/scheduler/cmd/scheduler,
  services/engineering-agent/cmd/engineering-agent).  Opening the database with its migrations is the
  argument \<open>database\<close>: \<open>None\<close> when both succeed.
\<close>

subsection \<open>Runtime service and dashboard\<close>

definition listen_addr :: "string \<Rightarrow> string" where
  "listen_addr port = '':'' @ (if port = [] then ''8080'' else port)"

definition runtime_server_main ::
  "(string \<Rightarrow> string) \<Rightarrow> (string list \<Rightarrow> string \<Rightarrow> process) \<Rightarrow> (string \<times> Runtime \<times> (RunSpec \<Rightarrow> prog)) started" where
  "runtime_server_main env proc =
     (let cfg = LoadConfig env
      in Serves (listen_addr (env ''PORT''))
           (env ''RUNTIME_SERVICE_TOKEN'', \<lparr>rt_models = Models cfg, rt_recipesDir = rc_RecipesDir cfg\<rparr>, GooseEngine_Run cfg proc))"

definition dashboard_main ::
  "(string \<Rightarrow> string) \<Rightarrow> (string \<Rightarrow> goerr option) \<Rightarrow> (string \<Rightarrow> string \<Rightarrow> 's Proxy) \<Rightarrow> 's Dash started" where
  "dashboard_main env database client =
     (if env ''DATABASE_URL'' = [] then Exits 1
      else (case database (env ''DATABASE_URL'') of
              Some e \<Rightarrow> Exits 1
            | None \<Rightarrow> Serves (listen_addr (env ''PORT''))
                \<lparr>da_runtime = client (env ''RUNTIME_URL'') (env ''RUNTIME_SERVICE_TOKEN''), da_token = env ''DASHBOARD_TOKEN''\<rparr>))"

subsection \<open>Slack gateway\<close>

record SlackConfig =
  sg_SigningSecret :: string
  sg_BotToken :: string
  sg_BotUserID :: string
  sg_RuntimeURL :: string
  sg_RuntimeToken :: string
  sg_Port :: string

definition Load_slack_config :: "(string \<Rightarrow> string) \<Rightarrow> SlackConfig" where
  "Load_slack_config env =
     \<lparr>sg_SigningSecret = env ''SLACK_SIGNING_SECRET'', sg_BotToken = env ''SLACK_BOT_TOKEN'',
      sg_BotUserID = env ''SLACK_BOT_USER_ID'', sg_RuntimeURL = env ''RUNTIME_URL'',
      sg_RuntimeToken = env ''RUNTIME_SERVICE_TOKEN'', sg_Port = firstNonEmpty [env ''PORT'', ''8080'']\<rparr>"

definition slack_main :: "(string \<Rightarrow> string) \<Rightarrow> (string \<Rightarrow> string \<Rightarrow> 's RuntimeAPI) \<Rightarrow> 's Handler started" where
  "slack_main env client =
     (let cfg = Load_slack_config env
      in Serves ('':'' @ sg_Port cfg)
           \<lparr>hd_rt = client (sg_RuntimeURL cfg) (sg_RuntimeToken cfg), hd_signingSecret = sg_SigningSecret cfg,
            hd_botUserID = sg_BotUserID cfg\<rparr>)"

subsection \<open>Scheduler\<close>

text \<open>With the argument \<open>run\<close> one pass over the jobs that are due now, as an exit code; otherwise the jobs to tick over.\<close>

definition scheduler_main ::
  "(string \<Rightarrow> string) \<Rightarrow> (string \<Rightarrow> goerr + string) \<Rightarrow> (string \<Rightarrow> goerr + Job list) \<Rightarrow> parse_cron \<Rightarrow> (SchedulerConfig \<Rightarrow> 's submit) \<Rightarrow>
   int \<Rightarrow> string list \<Rightarrow> 's \<Rightarrow> Job list started \<times> 's" where
  "scheduler_main env read_file parse_jobs parse client now args s =
     (let cfg = Load_scheduler_config env
      in case Jobs read_file parse_jobs cfg of
           Inl e \<Rightarrow> (Exits 1, s)
         | Inr jobs \<Rightarrow>
             (if args \<noteq> [] \<and> hd args = ''run''
              then (case RunDue parse (client cfg) jobs now s of
                      (Inl e, s') \<Rightarrow> (Exits 1, s') | (Inr results, s') \<Rightarrow> (Exits 0, s'))
              else (Serves ('':'' @ sc_Port cfg) jobs, s)))"

subsection \<open>Engineering Agent\<close>

text \<open>The routes: the health check and \<open>POST /fix-bug\<close>.\<close>

definition engineering_routes :: "(string \<Rightarrow> string) \<Rightarrow> EngConfig \<Rightarrow> string \<Rightarrow> string \<Rightarrow> Request \<Rightarrow> Response \<times> Task option" where
  "engineering_routes cf cfg meth path r =
     (if path = ''/healthz'' then
        (if meth = ''GET'' \<or> meth = ''HEAD'' then (writeJSON 200 (JObj [(''status'', JStr ''ok'')]), None) else (mux_refuses True, None))
      else if path = ''/fix-bug'' then
        (if meth = ''POST'' then fix_bug cf (ec_ServiceToken cfg) r else (mux_refuses True, None))
      else (mux_refuses False, None))"

subsection \<open>Without tokens\<close>

text \<open>
  A process started without its service token refuses every request that could have an effect: the
  gateway, the runtime service and the Engineering Agent.
\<close>

lemma closed_gateway:
  assumes "gateway_main env database gateway readFile yaml lstat args s = (Serves addr (token, gw), gs)" "env ''GATEWAY_SERVICE_TOKEN'' = []"
  shows "serve_call cf token gw ck r gs = (write_error 401 ''unauthorized'', gs) \<and>
    serve_tools token gw r gs = (write_error 401 ''unauthorized'', gs)"
proof -
  from assms have "token = []"
    by (auto simp: gateway_main_def Let_def Load_gateway_config_def split: if_splits option.splits prod.splits sum.splits)
  then show ?thesis by (simp add: serve_call_def serve_tools_def auth_rejects)
qed

lemma closed_runtime:
  assumes "runtime_server_main env proc = Serves addr (token, rt, engine)" "env ''RUNTIME_SERVICE_TOKEN'' = []"
  shows "snd (runtime_routes cf e token meth path r s) = s"
proof -
  from assms have "token = []" by (simp add: runtime_server_main_def Let_def)
  then show ?thesis by (simp add: runtime_routes_def Let_def auth_rejects split: list.split)
qed

lemma closed_engineering:
  "env ''ENG_SERVICE_TOKEN'' = [] \<Longrightarrow> snd (engineering_routes cf (Load_eng_config env) meth path r) = None"
  by (simp add: engineering_routes_def Load_eng_config_def fix_bug_def)

text \<open>The dashboard is the exception: without a token it is open to everyone.\<close>

lemma open_dashboard:
  "dashboard_main env database client = Serves addr d \<Longrightarrow> env ''DASHBOARD_TOKEN'' = [] \<Longrightarrow> authed d r"
  by (auto simp: dashboard_main_def authed_def devMode_def split: if_splits option.splits)

end
