(* ===== verification/Migrations.thy ===== *)
theory Migrations
  imports StoreInvariant
begin

text \<open>
  Opening the database and its migrations: services/session-memory/store/store.go (\<open>Open\<close>),
  store/migrate.go (\<open>Migrate\<close>, \<open>Rollback\<close>) and the scripts embedded from store/migrations.  The pgx
  driver and the goose library are arguments, the scripts are data: each statement with the
  constraints it declares, and what running it does to the schema.  The second half shows that the
  schema the scripts leave is the invariant of StoreInvariant, constraint by constraint.
\<close>

section \<open>Opening a pool\<close>

datatype pool_setting = MaxOpenConns int | MaxIdleConns int | ConnMaxLifetime int

record ('h, 'w) driver =
  drv_Open :: "string \<Rightarrow> string \<Rightarrow> 'w \<Rightarrow> 'h res \<times> 'w"
  drv_Set :: "pool_setting \<Rightarrow> 'h \<Rightarrow> 'w \<Rightarrow> 'w"
  drv_Ping :: "int \<Rightarrow> 'h \<Rightarrow> 'w \<Rightarrow> goerr option \<times> 'w"
  drv_Close :: "'h \<Rightarrow> 'w \<Rightarrow> 'w"

text \<open>Durations are nanoseconds, as in package time.\<close>

definition Open :: "('h, 'w) driver \<Rightarrow> string \<Rightarrow> 'w \<Rightarrow> 'h res \<times> 'w" where
  "Open drv dsn w =
     (if dsn = [] then (Inl (Errorf ''store: empty database DSN'' []), w)
      else (case drv_Open drv ''pgx'' dsn w of
          (Inl e, w1) \<Rightarrow> (Inl (Wrap ''store: open: '' [] e), w1)
        | (Inr h, w1) \<Rightarrow>
            (let w2 = drv_Set drv (MaxOpenConns 10) h w1;
                 w3 = drv_Set drv (MaxIdleConns 5) h w2;
                 w4 = drv_Set drv (ConnMaxLifetime 3600000000000) h w3
             in case drv_Ping drv 5000000000 h w4 of
                  (Some e, w5) \<Rightarrow> (Inl (Wrap ''store: ping: '' [] e), drv_Close drv h w5)
                | (None, w5) \<Rightarrow> (Inr h, w5))))"

text \<open>
  A failed \<open>Open\<close> leaves no pool open: with a driver whose \<open>Open\<close> adds the handle it returns to the
  open ones, whose settings and ping leave them alone and whose \<open>Close\<close> takes the handle out.
\<close>

lemma Open_no_leak:
  assumes "\<And>n dsn w h w'. drv_Open drv n dsn w = (Inr h, w') \<Longrightarrow> pools w' = insert h (pools w) \<and> h \<notin> pools w"
    and "\<And>n dsn w e w'. drv_Open drv n dsn w = (Inl e, w') \<Longrightarrow> pools w' = pools w"
    and "\<And>s h w. pools (drv_Set drv s h w) = pools w" "\<And>t h w. pools (snd (drv_Ping drv t h w)) = pools w"
    and "\<And>h w. pools (drv_Close drv h w) = pools w - {h}"
    and "Open drv dsn w = (r, w')"
  shows "pools w' = (case r of Inl e \<Rightarrow> pools w | Inr h \<Rightarrow> insert h (pools w))"
proof (cases "dsn = []")
  case False
  obtain o1 w1 where o: "drv_Open drv ''pgx'' dsn w = (o1, w1)" by force
  show ?thesis
  proof (cases o1)
    case (Inr h)
    let ?w4 = "drv_Set drv (ConnMaxLifetime 3600000000000) h
      (drv_Set drv (MaxIdleConns 5) h (drv_Set drv (MaxOpenConns 10) h w1))"
    obtain e w5 where ping: "drv_Ping drv 5000000000 h ?w4 = (e, w5)" by force
    with assms(4) [of 5000000000 h ?w4] have w5: "pools w5 = pools w1" by (simp add: assms(3))
    have w1: "pools w1 = insert h (pools w)" "h \<notin> pools w" using assms(1) o Inr by blast+
    show ?thesis
    proof (cases e)
      case None
      with assms(6) False o Inr ping have "r = Inr h" "w' = w5" by (simp_all add: Open_def Let_def)
      with w5 w1 show ?thesis by simp
    next
      case (Some x)
      with assms(6) False o Inr ping have "r = Inl (Wrap ''store: ping: '' [] x)" "w' = drv_Close drv h w5"
        by (simp_all add: Open_def Let_def)
      with w5 w1 show ?thesis by (simp add: assms(5))
    qed
  next
    case (Inl e)
    with assms(6) False o have "r = Inl (Wrap ''store: open: '' [] e)" "w' = w1" by (simp_all add: Open_def)
    with assms(2) o Inl show ?thesis by simp
  qed
next
  case True
  with assms(6) have "r = Inl (Errorf ''store: empty database DSN'' [])" "w' = w" by (simp_all add: Open_def)
  then show ?thesis by simp
qed

section \<open>The scripts\<close>

text \<open>A constraint a table declares; every \<open>REFERENCES\<close> of the scripts is to the column \<open>id\<close>.\<close>

datatype constr =
    Key "string list"
  | References string string
  | Check_In string "string list"
  | Integer_Column string

datatype ddl =
    CREATE_EXTENSION string
  | CREATE_TABLE string "constr list"
  | CREATE_INDEX string string
  | DROP_TABLE string

record schema =
  sch_extensions :: "string list"
  sch_tables :: "(string \<times> constr list) list"
  sch_indexes :: "(string \<times> string) list"

definition no_schema :: schema where
  "no_schema = \<lparr>sch_extensions = [], sch_tables = [], sch_indexes = []\<rparr>"

fun ref_target :: "constr \<Rightarrow> string list" where
  "ref_target (References c t) = [t]"
| "ref_target _ = []"

text \<open>
  What Postgres does with a statement of the scripts.  A new table must be new and refer to tables
  that exist; a table that another one refers to cannot be dropped, and its indexes go with it.
  Both drops and the extension are conditional (\<open>IF EXISTS\<close>, \<open>IF NOT EXISTS\<close>).
\<close>

fun run_ddl :: "ddl \<Rightarrow> schema \<Rightarrow> schema res" where
  "run_ddl (CREATE_EXTENSION e) s =
     Inr (if e \<in> set (sch_extensions s) then s else s\<lparr>sch_extensions := sch_extensions s @ [e]\<rparr>)"
| "run_ddl (CREATE_TABLE t cs) s =
     (if t \<in> fst ` set (sch_tables s) then Inl (External ''relation already exists'')
      else if \<not> set (concat (map ref_target cs)) \<subseteq> fst ` set (sch_tables s)
      then Inl (External ''relation does not exist'')
      else Inr (s\<lparr>sch_tables := sch_tables s @ [(t, cs)]\<rparr>))"
| "run_ddl (CREATE_INDEX i t) s =
     (if t \<notin> fst ` set (sch_tables s) then Inl (External ''relation does not exist'')
      else if i \<in> fst ` set (sch_indexes s) then Inl (External ''relation already exists'')
      else Inr (s\<lparr>sch_indexes := sch_indexes s @ [(i, t)]\<rparr>))"
| "run_ddl (DROP_TABLE t) s =
     (if list_ex (\<lambda>(u, cs). u \<noteq> t \<and> t \<in> set (concat (map ref_target cs))) (sch_tables s)
      then Inl (External ''cannot drop table because other objects depend on it'')
      else Inr (s\<lparr>sch_tables := filter (\<lambda>x. fst x \<noteq> t) (sch_tables s),
                 sch_indexes := filter (\<lambda>x. snd x \<noteq> t) (sch_indexes s)\<rparr>))"

fun run_script :: "ddl list \<Rightarrow> schema \<Rightarrow> schema res" where
  "run_script [] s = Inr s"
| "run_script (c # cs) s = (case run_ddl c s of Inl e \<Rightarrow> Inl e | Inr s' \<Rightarrow> run_script cs s')"

record migration =
  mig_Version :: int
  mig_Up :: "ddl list"
  mig_Down :: "ddl list"

definition init_up :: "ddl list" where
  "init_up =
    [CREATE_EXTENSION ''pgcrypto'',
     CREATE_TABLE ''users'' [Key [''id''], Key [''slack_id'']],
     CREATE_TABLE ''committee_roles'' [References ''user_id'' ''users'', Key [''user_id'', ''committee'']],
     CREATE_TABLE ''sessions'' [Key [''id''], References ''user_id'' ''users''],
     CREATE_INDEX ''sessions_user_idx'' ''sessions'',
     CREATE_INDEX ''sessions_thread_idx'' ''sessions'',
     CREATE_TABLE ''turns'' [Key [''id''], References ''session_id'' ''sessions'',
       Check_In ''role'' [''system'', ''user'', ''assistant'', ''tool''], Integer_Column ''tokens''],
     CREATE_INDEX ''turns_session_idx'' ''turns'',
     CREATE_TABLE ''summaries'' [Key [''session_id''], References ''session_id'' ''sessions''],
     CREATE_TABLE ''memory_facts'' [Key [''id''], Check_In ''scope_type'' [''user'', ''committee'', ''org'']],
     CREATE_INDEX ''memory_facts_scope_idx'' ''memory_facts'',
     CREATE_INDEX ''memory_facts_tags_idx'' ''memory_facts'',
     CREATE_INDEX ''memory_facts_expiry_idx'' ''memory_facts'',
     CREATE_TABLE ''approvals'' [Key [''id''], References ''session_id'' ''sessions'',
       Check_In ''status'' [''pending'', ''approved'', ''denied'', ''cancelled'']],
     CREATE_INDEX ''approvals_session_idx'' ''approvals'',
     CREATE_INDEX ''approvals_status_idx'' ''approvals'',
     CREATE_TABLE ''audit_log'' [Key [''id''], Integer_Column ''latency_ms''],
     CREATE_INDEX ''audit_log_created_idx'' ''audit_log'',
     CREATE_INDEX ''audit_log_actor_idx'' ''audit_log'',
     CREATE_INDEX ''audit_log_tool_idx'' ''audit_log'']"

definition init_down :: "ddl list" where
  "init_down = map DROP_TABLE [''audit_log'', ''approvals'', ''memory_facts'', ''summaries'', ''turns'',
     ''sessions'', ''committee_roles'', ''users'']"

definition registry_up :: "ddl list" where
  "registry_up =
    [CREATE_TABLE ''mcp_servers'' [Key [''id''], Key [''name''],
       Check_In ''lifecycle'' [''proposed'', ''approved'', ''deprecated'', ''disabled'']],
     CREATE_TABLE ''mcp_tools'' [Key [''id''], References ''server_id'' ''mcp_servers'',
       Check_In ''impact'' [''read'', ''write'', ''high''], Key [''server_id'', ''name'']],
     CREATE_INDEX ''mcp_tools_server_idx'' ''mcp_tools'',
     CREATE_INDEX ''mcp_tools_name_idx'' ''mcp_tools'',
     CREATE_TABLE ''server_committees'' [References ''server_id'' ''mcp_servers'', Key [''server_id'', ''committee'']],
     CREATE_INDEX ''server_committees_committee_idx'' ''server_committees'']"

definition registry_down :: "ddl list" where
  "registry_down = map DROP_TABLE [''server_committees'', ''mcp_tools'', ''mcp_servers'']"

definition migrationsFS :: "migration list" where
  "migrationsFS = [\<lparr>mig_Version = 1, mig_Up = init_up, mig_Down = init_down\<rparr>,
     \<lparr>mig_Version = 2, mig_Up = registry_up, mig_Down = registry_down\<rparr>]"

definition migrationsDir :: string where "migrationsDir = ''migrations''"

section \<open>Migrate and Rollback\<close>

text \<open>The calls the code makes of goose; \<open>'g\<close> is the library's settings and the database.\<close>

record 'g goose =
  lib_SetBaseFS :: "migration list \<Rightarrow> 'g \<Rightarrow> 'g"
  lib_SetNopLogger :: "'g \<Rightarrow> 'g"
  lib_SetDialect :: "string \<Rightarrow> 'g \<Rightarrow> goerr option \<times> 'g"
  lib_Up :: "string \<Rightarrow> 'g \<Rightarrow> goerr option \<times> 'g"
  lib_DownTo :: "string \<Rightarrow> int \<Rightarrow> 'g \<Rightarrow> goerr option \<times> 'g"

definition Migrate :: "'g goose \<Rightarrow> 'g \<Rightarrow> goerr option \<times> 'g" where
  "Migrate lib g =
     (case lib_SetDialect lib ''postgres'' (lib_SetNopLogger lib (lib_SetBaseFS lib migrationsFS g)) of
        (Some e, g1) \<Rightarrow> (Some (Wrap ''store: set dialect: '' [] e), g1)
      | (None, g1) \<Rightarrow>
          (case lib_Up lib migrationsDir g1 of
             (Some e, g2) \<Rightarrow> (Some (Wrap ''store: migrate up: '' [] e), g2)
           | (None, g2) \<Rightarrow> (None, g2)))"

definition Rollback :: "'g goose \<Rightarrow> 'g \<Rightarrow> goerr option \<times> 'g" where
  "Rollback lib g =
     (case lib_SetDialect lib ''postgres'' (lib_SetNopLogger lib (lib_SetBaseFS lib migrationsFS g)) of
        (Some e, g1) \<Rightarrow> (Some (Wrap ''store: set dialect: '' [] e), g1)
      | (None, g1) \<Rightarrow>
          (case lib_DownTo lib migrationsDir 0 g1 of
             (Some e, g2) \<Rightarrow> (Some (Wrap ''store: migrate down: '' [] e), g2)
           | (None, g2) \<Rightarrow> (None, g2)))"

text \<open>
  What goose documents.  Up applies the migrations that are not yet recorded, in the order of their
  versions, and records each; DownTo undoes the recorded ones above a version, newest first.
\<close>

type_synonym applied = "int list \<times> schema"

fun ups :: "migration list \<Rightarrow> applied \<Rightarrow> applied res" where
  "ups [] st = Inr st"
| "ups (m # ms) (vs, s) =
     (if mig_Version m \<in> set vs then ups ms (vs, s)
      else (case run_script (mig_Up m) s of Inl e \<Rightarrow> Inl e | Inr s' \<Rightarrow> ups ms (vs @ [mig_Version m], s')))"

fun downs :: "int \<Rightarrow> migration list \<Rightarrow> applied \<Rightarrow> applied res" where
  "downs v [] st = Inr st"
| "downs v (m # ms) (vs, s) =
     (if mig_Version m \<le> v \<or> mig_Version m \<notin> set vs then downs v ms (vs, s)
      else (case run_script (mig_Down m) s of
              Inl e \<Rightarrow> Inl e | Inr s' \<Rightarrow> downs v ms (removeAll (mig_Version m) vs, s')))"

text \<open>The migrations a file system holds and the state of the database, as functions of \<open>'g\<close>.\<close>

definition goose_documented ::
  "'g goose \<Rightarrow> ('g \<Rightarrow> migration list) \<Rightarrow> ('g \<Rightarrow> applied) \<Rightarrow> bool" where
  "goose_documented lib fs look \<longleftrightarrow>
     (\<forall>ms g. fs (lib_SetBaseFS lib ms g) = ms \<and> look (lib_SetBaseFS lib ms g) = look g) \<and>
     (\<forall>g. fs (lib_SetNopLogger lib g) = fs g \<and> look (lib_SetNopLogger lib g) = look g) \<and>
     (\<forall>g. \<exists>g'. lib_SetDialect lib ''postgres'' g = (None, g') \<and> fs g' = fs g \<and> look g' = look g) \<and>
     (\<forall>g st. ups (fs g) (look g) = Inr st \<longrightarrow>
        (\<exists>g'. lib_Up lib ''migrations'' g = (None, g') \<and> look g' = st)) \<and>
     (\<forall>g v st. downs v (rev (fs g)) (look g) = Inr st \<longrightarrow>
        (\<exists>g'. lib_DownTo lib ''migrations'' v g = (None, g') \<and> look g' = st))"

lemma goose_prelude:
  assumes "goose_documented lib fs look"
  obtains g1 where "lib_SetDialect lib ''postgres'' (lib_SetNopLogger lib (lib_SetBaseFS lib migrationsFS g)) = (None, g1)"
    "fs g1 = migrationsFS" "look g1 = look g"
  using assms unfolding goose_documented_def by metis

lemma Migrate_runs:
  assumes "goose_documented lib fs look" "ups migrationsFS (look g) = Inr st"
  obtains g' where "Migrate lib g = (None, g')" "look g' = st"
proof -
  obtain g1 where g1: "lib_SetDialect lib ''postgres'' (lib_SetNopLogger lib (lib_SetBaseFS lib migrationsFS g)) = (None, g1)"
    "fs g1 = migrationsFS" "look g1 = look g" by (rule goose_prelude [OF assms(1)])
  then obtain g' where "lib_Up lib ''migrations'' g1 = (None, g')" "look g' = st"
    using assms unfolding goose_documented_def by metis
  with g1 that show ?thesis by (simp add: Migrate_def migrationsDir_def)
qed

lemma Rollback_runs:
  assumes "goose_documented lib fs look" "downs 0 (rev migrationsFS) (look g) = Inr st"
  obtains g' where "Rollback lib g = (None, g')" "look g' = st"
proof -
  obtain g1 where g1: "lib_SetDialect lib ''postgres'' (lib_SetNopLogger lib (lib_SetBaseFS lib migrationsFS g)) = (None, g1)"
    "fs g1 = migrationsFS" "look g1 = look g" by (rule goose_prelude [OF assms(1)])
  then obtain g' where "lib_DownTo lib ''migrations'' 0 g1 = (None, g')" "look g' = st"
    using assms unfolding goose_documented_def by metis
  with g1 that show ?thesis by (simp add: Rollback_def migrationsDir_def)
qed

text \<open>The schema the scripts leave.\<close>

definition created_tables :: "ddl list \<Rightarrow> (string \<times> constr list) list" where
  "created_tables cs = concat (map (\<lambda>c. case c of CREATE_TABLE t k \<Rightarrow> [(t, k)] | _ \<Rightarrow> []) cs)"

definition created_indexes :: "ddl list \<Rightarrow> (string \<times> string) list" where
  "created_indexes cs = concat (map (\<lambda>c. case c of CREATE_INDEX i t \<Rightarrow> [(i, t)] | _ \<Rightarrow> []) cs)"

definition migrated :: schema where
  "migrated = \<lparr>sch_extensions = [''pgcrypto''], sch_tables = created_tables (init_up @ registry_up),
     sch_indexes = created_indexes (init_up @ registry_up)\<rparr>"

lemma ups_all: "ups migrationsFS ([], no_schema) = Inr ([1, 2], migrated)"
  by code_simp

lemma ups_again: "ups migrationsFS ([1, 2], s) = Inr ([1, 2], s)"
  by (simp add: migrationsFS_def)

lemma downs_all: "downs 0 (rev migrationsFS) ([1, 2], migrated) = Inr ([], no_schema\<lparr>sch_extensions := [''pgcrypto'']\<rparr>)"
  by code_simp

section \<open>The schema as an invariant\<close>

text \<open>
  A row as the columns that a constraint speaks of.  Integers and text are values, an identity column
  (\<open>bigint\<close>) is a number.
\<close>

datatype cell = Null | Txt string | Num int

definition nullable_cell :: "string option \<Rightarrow> cell" where
  "nullable_cell v = (case v of None \<Rightarrow> Null | Some x \<Rightarrow> Txt x)"

definition table_rows :: "db \<Rightarrow> string \<Rightarrow> (string \<times> cell) list list" where
  "table_rows d t =
     (if t = ''users'' then map (\<lambda>u. [(''id'', Txt (usr_ID u)), (''slack_id'', Txt (usr_SlackID u))]) (users d)
      else if t = ''committee_roles''
      then map (\<lambda>r. [(''user_id'', Txt (cr_UserID r)), (''committee'', Txt (cr_Committee r))]) (committee_roles d)
      else if t = ''sessions''
      then map (\<lambda>r. [(''id'', Txt (sr_id r)), (''user_id'', nullable_cell (sr_user_id r))]) (sessions d)
      else if t = ''turns''
      then map (\<lambda>r. [(''id'', Num (trn_ID r)), (''session_id'', Txt (trn_SessionID r)),
                    (''role'', Txt (trn_Role r)), (''tokens'', Num (trn_Tokens r))]) (turns d)
      else if t = ''summaries'' then map (\<lambda>r. [(''session_id'', Txt (sum_SessionID r))]) (summaries d)
      else if t = ''memory_facts''
      then map (\<lambda>f. [(''id'', Txt (fct_ID f)), (''scope_type'', Txt (fct_ScopeType f))]) (memory_facts d)
      else if t = ''approvals''
      then map (\<lambda>a. [(''id'', Txt (ar_id a)), (''session_id'', nullable_cell (ar_session_id a)),
                    (''status'', Txt (ar_status a))]) (approvals d)
      else if t = ''audit_log''
      then map (\<lambda>r. [(''id'', Num (lr_id r)), (''latency_ms'', Num (lr_latency_ms r))]) (audit_log d)
      else if t = ''mcp_servers''
      then map (\<lambda>s. [(''id'', Txt (srv_ID s)), (''name'', Txt (srv_Name s)),
                    (''lifecycle'', Txt (srv_Lifecycle s))]) (mcp_servers d)
      else if t = ''mcp_tools''
      then map (\<lambda>t. [(''id'', Txt (tl_ID t)), (''server_id'', Txt (tl_ServerID t)),
                    (''name'', Txt (tl_Name t)), (''impact'', Txt (tl_Impact t))]) (mcp_tools d)
      else if t = ''server_committees''
      then map (\<lambda>g. [(''server_id'', Txt (fst g)), (''committee'', Txt (snd g))]) (server_committees d)
      else [])"

definition col :: "string \<Rightarrow> (string \<times> cell) list \<Rightarrow> cell" where
  "col c r = (case map_of r c of None \<Rightarrow> Null | Some v \<Rightarrow> v)"

text \<open>What a constraint of the table \<open>t\<close> demands; a NULL reference refers to nothing.\<close>

fun satisfied :: "db \<Rightarrow> string \<Rightarrow> constr \<Rightarrow> bool" where
  "satisfied d t (Key cs) \<longleftrightarrow> distinct (map (\<lambda>r. map (\<lambda>c. col c r) cs) (table_rows d t))"
| "satisfied d t (References c u) \<longleftrightarrow>
     list_all (\<lambda>r. col c r = Null \<or> col c r \<in> set (map (col ''id'') (table_rows d u))) (table_rows d t)"
| "satisfied d t (Check_In c vs) \<longleftrightarrow> list_all (\<lambda>r. col c r \<in> set (map Txt vs)) (table_rows d t)"
| "satisfied d t (Integer_Column c) \<longleftrightarrow>
     list_all (\<lambda>r. case col c r of Num i \<Rightarrow> int4 i | _ \<Rightarrow> False) (table_rows d t)"

definition conforms :: "schema \<Rightarrow> db \<Rightarrow> bool" where
  "conforms s d \<longleftrightarrow> list_all (\<lambda>(t, cs). list_all (satisfied d t) cs) (sch_tables s)"

lemma col_simps [simp]:
  "col c [] = Null" "col c ((c', v) # r) = (if c = c' then v else col c r)"
  by (simp_all add: col_def)

lemma nullable_cell_simps [simp]:
  "nullable_cell v = Null \<longleftrightarrow> v = None" "nullable_cell v = Txt x \<longleftrightarrow> v = Some x" "nullable_cell v \<noteq> Num i"
  "nullable_cell v \<in> (\<lambda>x. Txt (f x)) ` S \<longleftrightarrow> (\<exists>u. v = Some u \<and> u \<in> f ` S)"
  by (auto simp: nullable_cell_def split: option.splits)

text \<open>The constraints of one table are the invariant of that table.\<close>

definition table_conforms :: "db \<Rightarrow> string \<Rightarrow> bool" where
  "table_conforms d t \<longleftrightarrow> list_all (satisfied d t) (the (map_of (sch_tables migrated) t))"

lemma migrated_constraints:
  "map_of (sch_tables migrated) ''users'' = Some [Key [''id''], Key [''slack_id'']]"
  "map_of (sch_tables migrated) ''committee_roles'' =
     Some [References ''user_id'' ''users'', Key [''user_id'', ''committee'']]"
  "map_of (sch_tables migrated) ''sessions'' = Some [Key [''id''], References ''user_id'' ''users'']"
  "map_of (sch_tables migrated) ''turns'' = Some [Key [''id''], References ''session_id'' ''sessions'',
     Check_In ''role'' [''system'', ''user'', ''assistant'', ''tool''], Integer_Column ''tokens'']"
  "map_of (sch_tables migrated) ''summaries'' = Some [Key [''session_id''], References ''session_id'' ''sessions'']"
  "map_of (sch_tables migrated) ''memory_facts'' =
     Some [Key [''id''], Check_In ''scope_type'' [''user'', ''committee'', ''org'']]"
  "map_of (sch_tables migrated) ''approvals'' = Some [Key [''id''], References ''session_id'' ''sessions'',
     Check_In ''status'' [''pending'', ''approved'', ''denied'', ''cancelled'']]"
  "map_of (sch_tables migrated) ''audit_log'' = Some [Key [''id''], Integer_Column ''latency_ms'']"
  "map_of (sch_tables migrated) ''mcp_servers'' = Some [Key [''id''], Key [''name''],
     Check_In ''lifecycle'' [''proposed'', ''approved'', ''deprecated'', ''disabled'']]"
  "map_of (sch_tables migrated) ''mcp_tools'' = Some [Key [''id''], References ''server_id'' ''mcp_servers'',
     Check_In ''impact'' [''read'', ''write'', ''high''], Key [''server_id'', ''name'']]"
  "map_of (sch_tables migrated) ''server_committees'' =
     Some [References ''server_id'' ''mcp_servers'', Key [''server_id'', ''committee'']]"
  by code_simp+

lemma migrated_tables:
  "map fst (sch_tables migrated) = [''users'', ''committee_roles'', ''sessions'', ''turns'', ''summaries'',
     ''memory_facts'', ''approvals'', ''audit_log'', ''mcp_servers'', ''mcp_tools'', ''server_committees'']"
  by code_simp

lemmas conform_defs = table_conforms_def migrated_constraints table_rows_def list_all_iff distinct_map
  inj_on_def comp_def

lemma conforms_tables: "conforms migrated d \<longleftrightarrow> list_all (table_conforms d) (map fst (sch_tables migrated))"
proof -
  have "distinct (map fst (sch_tables migrated))" by (simp add: migrated_tables)
  then have "the (map_of (sch_tables migrated) t) = cs" if "(t, cs) \<in> set (sch_tables migrated)" for t cs
    using that by simp
  then show ?thesis by (auto simp: conforms_def table_conforms_def list_all_iff)
qed

lemma table_conforms_eqs:
  "table_conforms d ''users'' = users_ok d" "table_conforms d ''committee_roles'' = roles_ok d"
  "table_conforms d ''sessions'' = sessions_ok d" "table_conforms d ''turns'' = turns_ok d"
  "table_conforms d ''summaries'' = summaries_ok d" "table_conforms d ''memory_facts'' = facts_ok d"
  "table_conforms d ''approvals'' = approvals_ok d" "table_conforms d ''audit_log'' = audit_ok d"
  "table_conforms d ''mcp_servers'' = servers_ok d" "table_conforms d ''mcp_tools'' = tools_ok d"
  "table_conforms d ''server_committees'' = grants_ok d"
  subgoal by (simp add: conform_defs users_ok_def)
  subgoal by (auto simp: conform_defs roles_ok_def)
  subgoal by (fastforce simp: conform_defs sessions_ok_def)
  subgoal by (auto simp: conform_defs turns_ok_def turn_role_def)
  subgoal by (auto simp: conform_defs summaries_ok_def)
  subgoal by (auto simp: conform_defs facts_ok_def validScope_def ScopeUser_def ScopeCommittee_def ScopeOrg_def)
  subgoal by (fastforce simp: conform_defs approvals_ok_def approval_status_def)
  subgoal by (auto simp: conform_defs audit_ok_def)
  subgoal by (auto simp: conform_defs servers_ok_def lifecycle_ok_def lifecycle_defs)
  subgoal by (auto simp: conform_defs tools_ok_def impact_ok_def)
  subgoal by (auto simp: conform_defs grants_ok_def)
  done

lemma conforms_db_inv: "conforms migrated d \<longleftrightarrow> db_inv d"
  by (auto simp: conforms_tables migrated_tables table_conforms_eqs db_inv_def)

section \<open>What the migrations promise\<close>

text \<open>
  C12. The tables the services work on are the ones the migrations declare: \<open>Migrate\<close> succeeds on a fresh
  database, and the schema it leaves has the model's eleven tables, whose keys, references, checks
  and integer columns together hold of a database exactly when the repository's invariant does.
\<close>

theorem schema_is_invariant:
  assumes "goose_documented lib fs look" "look g = ([], no_schema)"
  shows "\<exists>g'. Migrate lib g = (None, g') \<and>
    set (map fst (sch_tables (snd (look g')))) = {''users'', ''committee_roles'', ''sessions'', ''turns'',
      ''summaries'', ''memory_facts'', ''approvals'', ''audit_log'', ''mcp_servers'', ''mcp_tools'',
      ''server_committees''} \<and>
    (\<forall>d. conforms (snd (look g')) d = db_inv d)"
proof -
  from Migrate_runs [OF assms(1), of g] assms(2)
  obtain g' where "Migrate lib g = (None, g')" "look g' = ([1, 2], migrated)"
    by (auto simp: ups_all)
  then show ?thesis by (intro exI [of _ g']) (simp only: snd_conv migrated_tables conforms_db_inv, simp)
qed

text \<open>A goose that is as documented: the file system, the recorded versions and the schema.\<close>

definition demo_goose :: "(migration list \<times> applied) goose" where
  "demo_goose = \<lparr>lib_SetBaseFS = (\<lambda>ms g. (ms, snd g)), lib_SetNopLogger = (\<lambda>g. g),
     lib_SetDialect = (\<lambda>d g. if d = ''postgres'' then (None, g) else (Some (External ''unknown dialect''), g)),
     lib_Up = (\<lambda>dir (ms, st). case ups ms st of Inl e \<Rightarrow> (Some e, (ms, st)) | Inr st' \<Rightarrow> (None, (ms, st'))),
     lib_DownTo = (\<lambda>dir v (ms, st). case downs v (rev ms) st of
        Inl e \<Rightarrow> (Some e, (ms, st)) | Inr st' \<Rightarrow> (None, (ms, st')))\<rparr>"

lemma demo_goose_documented: "goose_documented demo_goose fst snd"
  by (auto simp: goose_documented_def demo_goose_def)

theorem schema_is_invariant_witness:
  "\<exists>g'. Migrate demo_goose ([], [], no_schema) = (None, g') \<and> conforms (snd (snd g')) empty_db"
  using schema_is_invariant [OF demo_goose_documented, of "([], [], no_schema)"] db_inv_empty by auto

text \<open>
  C13. Migrations are idempotent and roll back: on a fresh database \<open>Migrate\<close> succeeds, a second run (every
  service runs it when it starts) changes nothing, and \<open>Rollback\<close> after that succeeds and leaves no
  table, no index and no recorded migration; only the extension stays installed.
\<close>

theorem migrations_round_trip:
  assumes "goose_documented lib fs look" "look g = ([], no_schema)"
  shows "\<exists>g1 g2 g3. Migrate lib g = (None, g1) \<and> sch_tables (snd (look g1)) \<noteq> [] \<and>
    Migrate lib g1 = (None, g2) \<and> look g2 = look g1 \<and>
    Rollback lib g2 = (None, g3) \<and> look g3 = ([], no_schema\<lparr>sch_extensions := [''pgcrypto'']\<rparr>)"
proof -
  from Migrate_runs [OF assms(1), of g] assms(2)
  obtain g1 where g1: "Migrate lib g = (None, g1)" "look g1 = ([1, 2], migrated)" by (auto simp: ups_all)
  from Migrate_runs [OF assms(1), of g1] g1(2)
  obtain g2 where g2: "Migrate lib g1 = (None, g2)" "look g2 = ([1, 2], migrated)" by (auto simp: ups_again)
  from Rollback_runs [OF assms(1), of g2] g2(2)
  obtain g3 where g3: "Rollback lib g2 = (None, g3)" "look g3 = ([], no_schema\<lparr>sch_extensions := [''pgcrypto'']\<rparr>)"
    by (auto simp: downs_all)
  have "sch_tables migrated \<noteq> []" using migrated_tables by auto
  with g1 g2 g3 show ?thesis by (intro exI [of _ g1] exI [of _ g2] exI [of _ g3]) simp
qed

theorem migrations_round_trip_witness:
  "\<exists>g1 g3. Migrate demo_goose ([], [], no_schema) = (None, g1) \<and> Rollback demo_goose g1 = (None, g3) \<and>
    sch_tables (snd (snd g3)) = []"
proof -
  from migrations_round_trip [OF demo_goose_documented, of "([], [], no_schema)"]
  obtain g1 g2 g3 where g: "Migrate demo_goose ([], [], no_schema) = (None, g1)" "snd g2 = snd g1"
    "Migrate demo_goose g1 = (None, g2)" "Rollback demo_goose g2 = (None, g3)" "sch_tables (snd (snd g3)) = []"
    by (auto simp: no_schema_def)
  have "fst g2 = migrationsFS \<and> fst g1 = migrationsFS"
    using g(1,3) by (auto simp: Migrate_def demo_goose_def split: sum.splits)
  with g(2) have "g2 = g1" by (simp add: prod_eq_iff)
  with g show ?thesis by blast
qed

end
