(* ===== verification/Drivers.thy ===== *)
theory Drivers
  imports Processes Migrations
begin

text \<open>
  The edges of the processes, where they hand over to a library: posting to Slack and the Slack
  gateway's routes (services/slack-gateway/internal/slack/poster.go, cmd/slack-gateway), the command
  runner of the sandbox and the notifiers with what the Engineering Agent's \<open>main\<close> connects
  (services/engineering-agent/internal/sandbox, internal/notify, cmd/engineering-agent), the construction
  of the Google services (mcp-servers/google-workspace/internal/clients), the log level of the MCP
  servers and the task ids of the runtime service.  The libraries themselves are arguments.
\<close>

section \<open>Slack\<close>

subsection \<open>Posting\<close>

datatype MsgOption = MsgOptionText string bool | MsgOptionBlocks "Block list" | MsgOptionTS string

definition message_options :: "Message \<Rightarrow> MsgOption list" where
  "message_options m =
     (let opts = [MsgOptionText (ms_Fallback m) False];
          opts = (if length (ms_Blocks m) > 0 then opts @ [MsgOptionBlocks (ms_Blocks m)] else opts);
          opts = (if ms_ThreadTS m \<noteq> [] then opts @ [MsgOptionTS (ms_ThreadTS m)] else opts)
      in opts)"

text \<open>\<open>post_message\<close> is \<open>PostMessageContext\<close> of a client made from the bot token.\<close>

type_synonym 's post_message = "string \<Rightarrow> string \<Rightarrow> MsgOption list \<Rightarrow> 's \<Rightarrow> goerr option \<times> 's"

definition SlackPoster_Post :: "'s post_message \<Rightarrow> string \<Rightarrow> Message \<Rightarrow> 's \<Rightarrow> goerr option \<times> 's" where
  "SlackPoster_Post post_message botToken m s = post_message botToken (ms_Channel m) (message_options m) s"

text \<open>An entry of the log: its text and its attributes.\<close>

type_synonym 's slog = "string \<Rightarrow> (string \<times> string) list \<Rightarrow> 's \<Rightarrow> 's"

definition LogPoster_Post :: "'s slog \<Rightarrow> Message \<Rightarrow> 's \<Rightarrow> goerr option \<times> 's" where
  "LogPoster_Post Info m s =
     (None, Info ''slack post (dev)''
        [(''channel'', ms_Channel m), (''thread'', ms_ThreadTS m), (''text'', ms_Fallback m),
         (''blocks'', Itoa (int (length (ms_Blocks m))))] s)"

text \<open>The poster \<open>main\<close> chooses.\<close>

definition slack_poster :: "'s post_message \<Rightarrow> 's slog \<Rightarrow> SlackConfig \<Rightarrow> Message \<Rightarrow> 's \<Rightarrow> goerr option \<times> 's" where
  "slack_poster post_message Info cfg =
     (if sg_BotToken cfg \<noteq> [] then SlackPoster_Post post_message (sg_BotToken cfg) else LogPoster_Post Info)"

text \<open>Nothing of a message is lost on the way to the API: different messages are different calls.\<close>

lemma message_options_inj:
  assumes "message_options m = message_options m'" "ms_Channel m = ms_Channel m'"
  shows "m = m'"
  using assms by (cases m; cases m') (auto simp: message_options_def Let_def split: if_splits)

text \<open>A message goes to its thread if and only if it names one.\<close>

lemma message_options_thread: "MsgOptionTS ts \<in> set (message_options m) \<longleftrightarrow> ts \<noteq> [] \<and> ts = ms_ThreadTS m"
  by (auto simp: message_options_def Let_def)

subsection \<open>The routes\<close>

record slack_lib =
  sl_Ensure :: "string \<Rightarrow> (string \<Rightarrow> string) \<Rightarrow> string \<Rightarrow> bool"
  sl_ParseEvent :: "string \<Rightarrow> goerr + slack_event"
  sl_Challenge :: "string \<Rightarrow> string"
  sl_Form :: "string \<Rightarrow> string \<Rightarrow> string"
  sl_ParseCallback :: "string \<Rightarrow> goerr + InteractionCallback"

text \<open>The answer, the background task a request starts, and what it did to the runtime and the channel.\<close>

definition slack_routes ::
  "slack_lib \<Rightarrow> 's Handler \<Rightarrow> string \<Rightarrow> string \<Rightarrow> SlackRequest \<Rightarrow> 's slack_world \<Rightarrow>
     Response \<times> (string \<times> string \<times> string \<times> string) option \<times> 's slack_world" where
  "slack_routes lib h meth path r w =
     (if path = ''/slack/events'' then
        (if meth = ''POST''
         then (let (resp, t) = Events (sl_Ensure lib) (sl_ParseEvent lib) (sl_Challenge lib) h r in (resp, t, w))
         else (mux_refuses True, None, w))
      else if path = ''/slack/interactions'' then
        (if meth = ''POST''
         then (let (resp, w') = Interactions (sl_Ensure lib) (sl_Form lib) (sl_ParseCallback lib) h r w in (resp, None, w'))
         else (mux_refuses True, None, w))
      else if path = ''/slack/commands'' then
        (if meth = ''POST'' then (Command (sl_Ensure lib) (sl_Form lib) h r, None, w) else (mux_refuses True, None, w))
      else if path = ''/healthz'' then
        (if meth = ''GET'' \<or> meth = ''HEAD'' then (writeJSON 200 (JObj [(''status'', JStr ''ok'')]), None, w)
         else (mux_refuses True, None, w))
      else (mux_refuses False, None, w))"

text \<open>
  The signature is the gate of every route that does something: with a signing secret, a request
  whose signature does not check starts no task, decides nothing, posts nothing, and is answered
  401 on the three routes.
\<close>

lemma slack_unsigned:
  assumes "hd_signingSecret h \<noteq> []" "\<And>body. sq_Body r = Inr body \<Longrightarrow> \<not> sl_Ensure lib (hd_signingSecret h) (sq_Header r) body"
    and "slack_routes lib h meth path r w = (resp, t, w')"
  shows "t = None \<and> w' = w" and "meth = ''POST'' \<Longrightarrow>
    path \<in> {''/slack/events'', ''/slack/interactions'', ''/slack/commands''} \<Longrightarrow> resp_Code resp = 401"
proof -
  from assms(1,2) have v: "verify (sl_Ensure lib) (hd_signingSecret h) r = None"
    by (simp add: verify_def split: sum.splits)
  show "t = None \<and> w' = w"
    using assms(3) by (auto simp: slack_routes_def Events_def Interactions_def v split: if_splits)
  show "meth = ''POST'' \<Longrightarrow> path \<in> {''/slack/events'', ''/slack/interactions'', ''/slack/commands''} \<Longrightarrow> resp_Code resp = 401"
    using assms(3) by (auto simp: slack_routes_def Events_def Interactions_def Command_def v http_error_def plain_response_def)
qed

text \<open>Without a secret in the environment everybody is let in.\<close>

lemma slack_dev_mode:
  assumes "slack_main env client = Serves addr h" "env ''SLACK_SIGNING_SECRET'' = []" "sq_Body r = Inr body"
  shows "verify sig_ok (hd_signingSecret h) r = Some body"
  using assms by (auto simp: slack_main_def Load_slack_config_def verify_def Let_def)

section \<open>The Engineering Agent\<close>

text \<open>
  \<open>exec.CommandContext\<close> runs a program and gives the chunks it wrote, each to standard output (True) or
  standard error, and whether it failed; both streams go to the one buffer.
\<close>

type_synonym 's command = "string \<Rightarrow> string list \<Rightarrow> 's \<Rightarrow> ((bool \<times> string) list \<times> goerr option) \<times> 's"

definition Railway_run :: "'s command \<Rightarrow> string \<Rightarrow> string list \<Rightarrow> 's \<Rightarrow> (string \<times> goerr option) \<times> 's" where
  "Railway_run command bin args s =
     (let ((chunks, err), s') = command bin args s in ((concat (map snd chunks), err), s'))"

definition NewRailway :: string where "NewRailway = ''railway''"

definition Log_Post :: "'s slog \<Rightarrow> string \<Rightarrow> string \<Rightarrow> 's \<Rightarrow> (goerr + unit) \<times> 's" where
  "Log_Post Info channel txt s =
     (Inr (), Info ''engineering-agent result (no webhook)'' [(''channel'', channel), (''text'', txt)] s)"

definition eng_notifier ::
  "'s slog \<Rightarrow> (string \<Rightarrow> goerr option) \<Rightarrow> (string \<Rightarrow> json \<Rightarrow> 's \<Rightarrow> (goerr + int) \<times> 's) \<Rightarrow> EngConfig \<Rightarrow>
     string \<Rightarrow> string \<Rightarrow> 's \<Rightarrow> (goerr + unit) \<times> 's" where
  "eng_notifier Info parse_url http cfg =
     (if ec_SlackWebhookURL cfg \<noteq> [] then Webhook_Post parse_url http (ec_SlackWebhookURL cfg) else Log_Post Info)"

text \<open>The systems \<open>main\<close> gives the orchestrator.\<close>

definition eng_systems ::
  "'s command \<Rightarrow> 's slog \<Rightarrow> (string \<Rightarrow> goerr option) \<Rightarrow> (string \<Rightarrow> json \<Rightarrow> 's \<Rightarrow> (goerr + int) \<times> 's) \<Rightarrow> EngConfig \<Rightarrow> 's Systems" where
  "eng_systems command Info parse_url http cfg =
     (let app = NewApp (ec_GitHub cfg); cli = Railway_run command NewRailway
      in \<lparr>sy_Mint = App_MintInstallToken app, sy_OpenDraftPR = App_OpenDraftPR app,
          sy_Create = Railway_Create cli, sy_Exec = Railway_Exec cli, sy_Destroy = Railway_Destroy cli,
          sy_Post = Some (eng_notifier Info parse_url http cfg)\<rparr>)"

text \<open>
  What the Engineering Agent does as it is wired today: minting is not finished, so no task ever gets
  a sandbox, and since a failed mint is not reported, the requester's channel hears nothing.
\<close>

lemma eng_stops_at_mint:
  assumes "CanTrigger (or_allow orc) (tsk_Requester t) (tsk_Repo t)"
  shows "\<exists>e. Run uni (eng_systems command Info parse_url http cfg) orc t w =
    ((no_task_result, Some (Wrap ''engineering-agent: mint token: '' [] e)),
     w\<lparr>wd_effects := wd_effects w @ [Mint (tsk_Repo t)]\<rparr>)"
  using assms by (cases w) (simp add: Run_def perform_def eng_systems_def Let_def App_MintInstallToken_def)

section \<open>The Google client\<close>

text \<open>The five scopes, by the names the API packages give them.\<close>

datatype scope =
    SpreadsheetsReadonlyScope | CalendarEventsScope | GmailComposeScope | GmailSendScope | DriveReadonlyScope

definition Scopes :: "scope list" where
  "Scopes = [SpreadsheetsReadonlyScope, CalendarEventsScope, GmailComposeScope, GmailSendScope, DriveReadonlyScope]"

record 's sheets_service =
  ss_ValuesGet :: "string \<Rightarrow> string \<Rightarrow> 's \<Rightarrow> (goerr + string \<times> json list list) \<times> 's"

record 's calendar_service =
  cs_EventsList :: "EventsQuery \<Rightarrow> 's \<Rightarrow> (goerr + APIEvent list) \<times> 's"
  cs_EventsInsert :: "string \<Rightarrow> APIEvent \<Rightarrow> 's \<Rightarrow> (goerr + APIEvent) \<times> 's"

record 's gmail_service =
  gs_DraftsCreate :: "string \<Rightarrow> string \<Rightarrow> 's \<Rightarrow> (goerr + string) \<times> 's"
  gs_MessagesSend :: "string \<Rightarrow> string \<Rightarrow> 's \<Rightarrow> (goerr + string) \<times> 's"

record 's drive_service =
  ds_FilesList :: "FilesQuery \<Rightarrow> 's \<Rightarrow> (goerr + DriveFile list) \<times> 's"

text \<open>The libraries: \<open>'c\<close> is a parsed key with its scopes, \<open>'t\<close> a token source for a subject.\<close>

record ('c, 't, 's) google_lib =
  gl_JWTConfigFromJSON :: "string \<Rightarrow> scope list \<Rightarrow> goerr + 'c"
  gl_TokenSource :: "'c \<Rightarrow> string \<Rightarrow> 't"
  gl_Sheets :: "'t \<Rightarrow> goerr + 's sheets_service"
  gl_Calendar :: "'t \<Rightarrow> goerr + 's calendar_service"
  gl_Gmail :: "'t \<Rightarrow> goerr + 's gmail_service"
  gl_Drive :: "'t \<Rightarrow> goerr + 's drive_service"

definition NewGoogle :: "('c, 't, 's) google_lib \<Rightarrow> string \<Rightarrow> string \<Rightarrow> goerr + 's API" where
  "NewGoogle lib saJSON subject =
     (case gl_JWTConfigFromJSON lib saJSON Scopes of
        Inl e \<Rightarrow> Inl (Wrap ''clients: parse service account: '' [] e)
      | Inr cfg \<Rightarrow>
          (let ts = gl_TokenSource lib cfg subject
           in case gl_Sheets lib ts of
             Inl e \<Rightarrow> Inl (Wrap ''clients: sheets: '' [] e)
           | Inr sheets \<Rightarrow> (case gl_Calendar lib ts of
               Inl e \<Rightarrow> Inl (Wrap ''clients: calendar: '' [] e)
             | Inr calendar \<Rightarrow> (case gl_Gmail lib ts of
                 Inl e \<Rightarrow> Inl (Wrap ''clients: gmail: '' [] e)
               | Inr gmail \<Rightarrow> (case gl_Drive lib ts of
                   Inl e \<Rightarrow> Inl (Wrap ''clients: drive: '' [] e)
                 | Inr drive \<Rightarrow>
                     Inr \<lparr>api_ValuesGet = ss_ValuesGet sheets, api_EventsList = cs_EventsList calendar,
                          api_EventsInsert = cs_EventsInsert calendar, api_DraftsCreate = gs_DraftsCreate gmail,
                          api_MessagesSend = gs_MessagesSend gmail, api_FilesList = ds_FilesList drive\<rparr>)))))"

text \<open>
  The server acts for the delegated subject only and never beyond the reviewed scopes: when every
  service made from a token source keeps to what the source allows (\<open>keeps_to\<close>: its scopes and its subject),
  so does every mailbox call of a client that \<open>main\<close> built.
\<close>

lemma workspace_delegation:
  assumes "workspace_start env read_file (NewGoogle lib) = Inr (cfg, api)"
    and "\<And>key sc c. gl_JWTConfigFromJSON lib key sc = Inr c \<Longrightarrow> scopes_of c = sc"
    and "\<And>c sub m. gl_Gmail lib (gl_TokenSource lib c sub) = Inr m \<Longrightarrow> keeps_to (scopes_of c) sub (gs_MessagesSend m)"
  shows "keeps_to Scopes (wc_DelegatedSubject cfg) (api_MessagesSend api) \<and> wc_DelegatedSubject cfg \<noteq> []"
  using assms(1)
  by (auto simp: workspace_start_def NewGoogle_def HasGoogleCredentials_def Let_def
      dest!: assms(3) dest: assms(2) split: sum.splits if_splits)

section \<open>The database of a process\<close>

text \<open>The argument \<open>database\<close> of the processes: the pool is opened, then the migrations run.\<close>

definition open_database :: "('h, 'w) driver \<Rightarrow> 'w \<Rightarrow> 'g goose \<Rightarrow> ('h \<Rightarrow> 'g) \<Rightarrow> string \<Rightarrow> goerr option" where
  "open_database drv w lib handle dsn =
     (case fst (Open drv dsn w) of Inl e \<Rightarrow> Some e | Inr h \<Rightarrow> fst (Migrate lib (handle h)))"

text \<open>A dashboard that serves works on a fresh database that has the schema of the invariant.\<close>

lemma dashboard_has_schema:
  assumes "dashboard_main env (open_database drv w lib handle) client = Serves addr d"
    and "goose_documented lib fs look" "\<And>h. look (handle h) = ([], no_schema)"
  obtains h g where "fst (Open drv (env ''DATABASE_URL'') w) = Inr h" "Migrate lib (handle h) = (None, g)"
    "\<And>x. conforms (snd (look g)) x = db_inv x"
proof -
  from assms(1) have "open_database drv w lib handle (env ''DATABASE_URL'') = None"
    by (auto simp: dashboard_main_def split: if_splits option.splits)
  then obtain h where h: "fst (Open drv (env ''DATABASE_URL'') w) = Inr h"
    by (auto simp: open_database_def split: sum.splits)
  from Migrate_runs [OF assms(2), of "handle h"] assms(3)
  obtain g where "Migrate lib (handle h) = (None, g)" "look g = ([1, 2], migrated)" by (auto simp: ups_all)
  with h that show thesis by (simp add: conforms_db_inv)
qed

section \<open>Logging and task ids\<close>

datatype Level = LevelDebug | LevelInfo | LevelWarn | LevelError

definition log_level :: "(string \<Rightarrow> string) \<Rightarrow> string \<Rightarrow> Level" where
  "log_level uni level =
     (let l = ToLower uni level
      in if l = ''debug'' then LevelDebug else if l = ''warn'' then LevelWarn
         else if l = ''error'' then LevelError else LevelInfo)"

text \<open>\<open>hex.EncodeToString\<close> of the eight random bytes \<open>b\<close>.\<close>

definition hex_digits :: string where "hex_digits = ''0123456789abcdef''"

fun hex_encode :: "nat list \<Rightarrow> string" where
  "hex_encode [] = []"
| "hex_encode (b # bs) = hex_digits ! (b div 16 mod 16) # hex_digits ! (b mod 16) # hex_encode bs"

definition newID :: "nat list \<Rightarrow> string" where
  "newID b = hex_encode (take 8 (b @ replicate 8 0))"

lemma hex_digits_inj: "hex_digits ! i = hex_digits ! j \<longleftrightarrow> i = j" if "i < 16" "j < 16"
proof -
  have "distinct hex_digits" "length hex_digits = 16" by (simp_all add: hex_digits_def)
  with that show ?thesis by (simp add: nth_eq_iff_index_eq)
qed

lemma hex_encode_inj:
  "list_all (\<lambda>b. b < 256) bs \<Longrightarrow> list_all (\<lambda>b. b < 256) cs \<Longrightarrow> hex_encode bs = hex_encode cs \<Longrightarrow> bs = cs"
proof (induction bs arbitrary: cs)
  case (Cons b bs)
  then obtain c cs' where cs: "cs = c # cs'" by (cases cs) auto
  with Cons.prems have "b div 16 mod 16 = c div 16 mod 16" and low: "b mod 16 = c mod 16" and "b < 256" "c < 256"
    by (simp_all add: hex_digits_inj)
  then have "b div 16 = c div 16" by (simp add: div_less_iff_less_mult)
  with low have "b = c" by (metis div_mult_mod_eq)
  with Cons cs show ?case by simp
qed (metis hex_encode.elims list.distinct(1))

text \<open>Different random bytes are different task ids, and an id is sixteen characters long.\<close>

lemma newID_inj:
  assumes "length b = 8" "length c = 8" "list_all (\<lambda>x. x < 256) b" "list_all (\<lambda>x. x < 256) c"
  shows "newID b = newID c \<longleftrightarrow> b = c" and "length (newID b) = 16"
proof -
  have "length (hex_encode bs) = 2 * length bs" for bs by (induction bs) simp_all
  with assms(1) show "length (newID b) = 16" by (simp add: newID_def)
  from assms show "newID b = newID c \<longleftrightarrow> b = c" by (auto simp: newID_def dest: hex_encode_inj)
qed

end
