(* ===== verification/Validate.thy ===== *)
theory Validate
  imports Manifest GatewayProperties
begin

text \<open>
  The repository validator (infra/validate): schema validation of manifests and recipes (validate.go,
  main.go) and the security checklist (checklist.go).  Reading files, YAML and the JSON Schema library
  are arguments; the secret patterns are matched by the matcher below.
\<close>

subsection \<open>Finding and validating files\<close>

definition keep_walk :: "(string \<Rightarrow> bool) \<Rightarrow> string list walk_fn" where
  "keep_walk keep path name isDir err paths =
     (case err of
        Some (nx, m) \<Rightarrow> (if nx then (SkipDir, paths) else (Fail (External m), paths))
      | None \<Rightarrow> (Continue, if \<not> isDir \<and> keep name then paths @ [path] else paths))"

type_synonym lstat = "string \<Rightarrow> (bool \<times> string) + fsnode"

definition findFiles :: "lstat \<Rightarrow> string \<Rightarrow> (string \<Rightarrow> bool) \<Rightarrow> string list res" where
  "findFiles lstat dir keep =
     (case WalkDir (keep_walk keep) dir (lstat dir) [] of
        (Some e, out) \<Rightarrow> Inl e | (None, out) \<Rightarrow> Inr (sort out))"

definition findManifests :: "lstat \<Rightarrow> string \<Rightarrow> string list res" where
  "findManifests lstat dir = findFiles lstat (path_join [dir, ''mcp-servers'']) (\<lambda>n. n = ''manifest.yaml'')"

text \<open>\<open>filepath.Ext\<close>: from the last dot of the last element on.\<close>

definition Ext :: "string \<Rightarrow> string" where
  "Ext p =
     (let tail = takeWhile (\<lambda>c. c \<noteq> CHR ''.'' \<and> c \<noteq> CHR ''/'') (rev p); rest = drop (length tail) (rev p)
      in if rest \<noteq> [] \<and> hd rest = CHR ''.'' then CHR ''.'' # rev tail else [])"

definition findRecipes :: "lstat \<Rightarrow> string \<Rightarrow> string list res" where
  "findRecipes lstat dir =
     findFiles lstat (path_join [dir, ''recipes'']) (\<lambda>n. Ext n = ''.yaml'' \<or> Ext n = ''.yml'')"

text \<open>What the validator calls: files, YAML into a value, its JSON form, and the schema library.\<close>

record 'sch schema_lib =
  vt_readFile :: "string \<Rightarrow> string res"
  vt_yaml :: "string \<Rightarrow> json res"
  vt_marshal :: "json \<Rightarrow> string res"
  vt_decode :: "string \<Rightarrow> json res"
  vt_addResource :: "string \<Rightarrow> json \<Rightarrow> goerr option"
  vt_compile :: "string \<Rightarrow> json \<Rightarrow> 'sch res"
  vt_valid :: "'sch \<Rightarrow> json \<Rightarrow> goerr option"

definition loadSchema :: "'sch schema_lib \<Rightarrow> string \<Rightarrow> 'sch res" where
  "loadSchema v path =
     (case vt_readFile v path of
        Inl e \<Rightarrow> Inl (Wrap ''read schema %s: '' [path] e)
      | Inr raw \<Rightarrow>
          (case vt_decode v raw of
             Inl e \<Rightarrow> Inl (Wrap ''parse schema %s: '' [path] e)
           | Inr doc \<Rightarrow>
               (let i = (case doc of
                           JObj m \<Rightarrow> (case map_of (obj_map m) ''$id'' of
                                       Some (JStr s) \<Rightarrow> if s \<noteq> [] then s else ''mem:///schema''
                                     | _ \<Rightarrow> ''mem:///schema'')
                         | _ \<Rightarrow> ''mem:///schema'')
                in case vt_addResource v i doc of
                     Some e \<Rightarrow> Inl (Wrap ''add schema %s: '' [path] e)
                   | None \<Rightarrow>
                       (case vt_compile v i doc of
                          Inl e \<Rightarrow> Inl (Wrap ''compile schema %s: '' [path] e) | Inr sch \<Rightarrow> Inr sch))))"

definition validateFile :: "'sch schema_lib \<Rightarrow> 'sch \<Rightarrow> string \<Rightarrow> goerr option" where
  "validateFile v schema path =
     (case vt_readFile v path of
        Inl e \<Rightarrow> Some (Wrap ''read %s: '' [path] e)
      | Inr raw \<Rightarrow>
          (case vt_yaml v raw of
             Inl e \<Rightarrow> Some (Wrap ''parse YAML %s: '' [path] e)
           | Inr parsed \<Rightarrow>
               (case vt_marshal v parsed of
                  Inl e \<Rightarrow> Some (Wrap ''normalize %s: '' [path] e)
                | Inr jb \<Rightarrow>
                    (case vt_decode v jb of
                       Inl e \<Rightarrow> Some (Wrap ''decode %s: '' [path] e)
                     | Inr inst \<Rightarrow> vt_valid v schema inst))))"

fun validateAll :: "'sch schema_lib \<Rightarrow> 'sch \<Rightarrow> string list \<Rightarrow> goerr list" where
  "validateAll v schema [] = []"
| "validateAll v schema (f # fs) =
     (case validateFile v schema f of None \<Rightarrow> [] | Some e \<Rightarrow> [Wrap (''%s:'' @ newline) [f] e]) @ validateAll v schema fs"

definition checkKind :: "'sch schema_lib \<Rightarrow> string \<Rightarrow> string \<Rightarrow> string \<Rightarrow> (string \<Rightarrow> string list res) \<Rightarrow> goerr option" where
  "checkKind v dir label schemaPath finder =
     (case loadSchema v schemaPath of
        Inl e \<Rightarrow> Some e
      | Inr schema \<Rightarrow>
          (case finder dir of
             Inl e \<Rightarrow> Some e
           | Inr files \<Rightarrow>
               (if files = [] then None
                else let problems = validateAll v schema files
                     in if problems \<noteq> []
                        then Some (Errorf ''%d of %d %s file(s) invalid''
                               [Itoa (int (length problems)), Itoa (int (length files)), label])
                        else None)))"

definition checkManifests :: "'sch schema_lib \<Rightarrow> lstat \<Rightarrow> string \<Rightarrow> goerr option" where
  "checkManifests v lstat dir =
     checkKind v dir ''manifest'' (path_join [dir, ''mcp-servers'', ''manifest.schema.json'']) (findManifests lstat)"

definition checkRecipes :: "'sch schema_lib \<Rightarrow> lstat \<Rightarrow> string \<Rightarrow> goerr option" where
  "checkRecipes v lstat dir =
     checkKind v dir ''recipe'' (path_join [dir, ''recipes'', ''recipe.schema.json'']) (findRecipes lstat)"

subsection \<open>The secret patterns\<close>

text \<open>
  A pattern is a sequence of repeated character classes; \<open>alts\<close> lists the alternatives of a group.
  Matching is unanchored.
\<close>

datatype piece = Rep "char \<Rightarrow> bool" nat bool

definition lit :: "string \<Rightarrow> piece list" where
  "lit s = map (\<lambda>c. Rep (\<lambda>x. x = c) 1 False) s"

text \<open>\<open>Rep p n unb\<close>: at least \<open>n\<close> characters of class \<open>p\<close>, and any further ones if \<open>unb\<close>.\<close>

function match_at :: "piece list \<Rightarrow> string \<Rightarrow> bool" where
  "match_at [] s = True"
| "match_at (Rep p (Suc n) unb # ps) s = (case s of [] \<Rightarrow> False | c # cs \<Rightarrow> p c \<and> match_at (Rep p n unb # ps) cs)"
| "match_at (Rep p 0 unb # ps) s =
     (match_at ps s \<or> unb \<and> (case s of [] \<Rightarrow> False | c # cs \<Rightarrow> p c \<and> match_at (Rep p 0 unb # ps) cs))"
  by pat_completeness auto
termination by (relation "measures [length \<circ> fst, length \<circ> snd]") auto

fun match_in :: "piece list \<Rightarrow> string \<Rightarrow> bool" where
  "match_in ps [] = match_at ps []"
| "match_in ps (c # cs) = (match_at ps (c # cs) \<or> match_in ps cs)"

definition is_upper :: "char \<Rightarrow> bool" where "is_upper c \<longleftrightarrow> CHR ''A'' \<le> c \<and> c \<le> CHR ''Z''"
definition is_alnum :: "char \<Rightarrow> bool" where
  "is_alnum c \<longleftrightarrow> is_digit c \<or> is_upper c \<or> CHR ''a'' \<le> c \<and> c \<le> CHR ''z''"
definition is_lower_hex :: "char \<Rightarrow> bool" where
  "is_lower_hex c \<longleftrightarrow> is_digit c \<or> CHR ''a'' \<le> c \<and> c \<le> CHR ''f''"
definition is_space :: "char \<Rightarrow> bool" where
  "is_space c \<longleftrightarrow> c \<in> {CHR 0x09, CHR 0x0A, CHR 0x0C, CHR 0x0D, CHR 0x20}"

definition dquote :: string where "dquote = [CHR 0x22]"

definition secretPatterns :: "(string \<times> piece list list) list" where
  "secretPatterns =
     [(''OpenRouter API key'', [lit ''sk-or-v1-'' @ [Rep is_lower_hex 48 True]]),
      (''Slack bot token'', [lit ''xoxb-'' @ [Rep is_digit 8 True] @ lit ''-'' @ [Rep is_digit 8 True] @ lit ''-'' @ [Rep is_alnum 20 True]]),
      (''GitHub PAT'', [lit ''gh'' @ [Rep (\<lambda>c. c \<in> set ''pousr'') 1 False] @ lit ''_'' @ [Rep is_alnum 36 True]]),
      (''GitHub fine-grained'', [lit ''github_pat_'' @ [Rep (\<lambda>c. is_alnum c \<or> c = CHR ''_'') 60 True]]),
      (''AWS access key'', [lit ''AKIA'' @ [Rep (\<lambda>c. is_digit c \<or> is_upper c) 16 False]]),
      (''private key'', map (\<lambda>k. lit (''-----BEGIN '' @ k @ ''PRIVATE KEY-----'')) [''RSA '', ''EC '', ''OPENSSH '', ''PGP '', '''']),
      (''Google SA private id'',
         [lit (dquote @ ''private_key_id'' @ dquote) @ [Rep is_space 0 True] @ lit '':'' @ [Rep is_space 0 True] @ lit dquote @
          [Rep is_lower_hex 40 False] @ lit dquote])]"

definition secret_match :: "piece list list \<Rightarrow> string \<Rightarrow> bool" where
  "secret_match alts content = list_ex (\<lambda>ps. match_in ps content) alts"

subsection \<open>The security checklist\<close>

definition irreversibleHints :: "string list" where
  "irreversibleHints = [''send'', ''delete'', ''remove'', ''submit'', ''book'', ''pay'', ''transfer'', ''purchase'', ''destroy'', ''withdraw'']"

definition looksIrreversible :: "(string \<Rightarrow> string) \<Rightarrow> string \<Rightarrow> bool" where
  "looksIrreversible uni name = list_ex (\<lambda>h. Contains (ToLower uni name) h) irreversibleHints"

record clManifest =
  cm_Name :: string
  cm_Tools :: "manifestTool list"

definition em_dash_text :: string where "em_dash_text = [CHR 0xE2, CHR 0x80, CHR 0x94]"

definition tool_problems :: "(string \<Rightarrow> string) \<Rightarrow> string \<Rightarrow> manifestTool \<Rightarrow> string list" where
  "tool_problems uni name t =
     (if mt_Scope t = [] then [Sprintf ''%s: tool %q has no scope (fail closed)'' [name, mt_Name t]] else []) @
     (if mt_Impact t \<noteq> ''read'' \<and> mt_Impact t \<noteq> ''write'' \<and> mt_Impact t \<noteq> ''high''
      then [Sprintf ''%s: tool %q has invalid impact %q'' [name, mt_Name t, mt_Impact t]] else []) @
     (if looksIrreversible uni (mt_Name t) \<and> mt_Impact t \<noteq> ''high''
      then [Sprintf (''%s: irreversible-looking tool %q is impact:%s '' @ em_dash_text @ '' must be high (gated)'')
              [name, mt_Name t, mt_Impact t]] else [])"

text \<open>What the checklist reads: files, their size (nothing when \<open>Info\<close> fails), the manifests as it decodes them.\<close>

record repo =
  rp_readFile :: "string \<Rightarrow> string res"
  rp_yaml :: "string \<Rightarrow> clManifest res"
  rp_size :: "string \<Rightarrow> int option"
  rp_lstat :: lstat

fun manifest_problems :: "(string \<Rightarrow> string) \<Rightarrow> repo \<Rightarrow> string list \<Rightarrow> string list res" where
  "manifest_problems uni rp [] = Inr []"
| "manifest_problems uni rp (path # ps) =
     (case rp_readFile rp path of
        Inl e \<Rightarrow> Inl e
      | Inr raw \<Rightarrow>
          (case rp_yaml rp raw of
             Inl e \<Rightarrow> Inl (Wrap ''checklist: parse %s: '' [path] e)
           | Inr m \<Rightarrow>
               (case manifest_problems uni rp ps of
                  Inl e \<Rightarrow> Inl e
                | Inr rest \<Rightarrow> Inr (concat (map (tool_problems uni (cm_Name m)) (cm_Tools m)) @ rest))))"

text \<open>\<open>filepath.Rel\<close> of a path of the tree walked.\<close>

definition path_rel :: "string \<Rightarrow> string \<Rightarrow> string" where
  "path_rel dir path =
     (let b = Clean dir; t = Clean path
      in if b = t then ''.'' else if b = ''.'' then t
         else TrimPrefix t (if HasSuffix b ''/'' then b else b @ ''/''))"

definition skipped_dirs :: "string list" where
  "skipped_dirs = [''.git'', ''node_modules'', ''vendor'', ''out'', ''bin'']"

text \<open>The patterns are in a Go map, so each file sees them in an order of its own, \<open>pats path\<close>.\<close>

definition secret_walk :: "(string \<Rightarrow> (string \<times> piece list list) list) \<Rightarrow> repo \<Rightarrow> string \<Rightarrow> string list walk_fn" where
  "secret_walk pats rp dir path name isDir err problems =
     (case err of
        Some (nx, m) \<Rightarrow> (Fail (External m), problems)
      | None \<Rightarrow>
          (if isDir then ((if name \<in> set skipped_dirs then SkipDir else Continue), problems)
           else if HasSuffix name ''.example'' \<or> HasSuffix name ''.sum'' then (Continue, problems)
           else (case rp_size rp path of
                   None \<Rightarrow> (Continue, problems)
                 | Some n \<Rightarrow>
                     (if n > 2 * 2 ^ 20 then (Continue, problems)
                      else (case rp_readFile rp path of
                              Inl e \<Rightarrow> (Continue, problems)
                            | Inr content \<Rightarrow>
                                (Continue, problems @ map (\<lambda>(label, alts). Sprintf ''COMMITTED SECRET: %s in %s'' [label, path_rel dir path])
                                   (filter (\<lambda>(label, alts). secret_match alts content) (pats path))))))))"

definition scanSecrets :: "(string \<Rightarrow> (string \<times> piece list list) list) \<Rightarrow> repo \<Rightarrow> string \<Rightarrow> string list \<times> goerr option" where
  "scanSecrets pats rp dir =
     (let (err, problems) = WalkDir (secret_walk pats rp dir) dir (rp_lstat rp dir) [] in (problems, err))"

definition RunChecklist ::
  "(string \<Rightarrow> string) \<Rightarrow> (string \<Rightarrow> (string \<times> piece list list) list) \<Rightarrow> repo \<Rightarrow> string \<Rightarrow> string list res" where
  "RunChecklist uni pats rp dir =
     (case findManifests (rp_lstat rp) dir of
        Inl e \<Rightarrow> Inl e
      | Inr manifests \<Rightarrow>
          (case manifest_problems uni rp manifests of
             Inl e \<Rightarrow> Inl e
           | Inr problems \<Rightarrow>
               (case scanSecrets pats rp dir of
                  (secrets, Some e) \<Rightarrow> Inl e
                | (secrets, None) \<Rightarrow> Inr (problems @ secrets))))"

subsection \<open>The command\<close>

definition checkSecurity :: "(string \<Rightarrow> string) \<Rightarrow> (string \<Rightarrow> (string \<times> piece list list) list) \<Rightarrow> repo \<Rightarrow> string \<Rightarrow> goerr option" where
  "checkSecurity uni pats rp dir =
     (case RunChecklist uni pats rp dir of
        Inl e \<Rightarrow> Some e
      | Inr problems \<Rightarrow>
          (if problems \<noteq> [] then Some (Errorf ''security checklist: %d problem(s)'' [Itoa (int (length problems))]) else None))"

text \<open>\<open>run\<close>: the arguments after the program's name; an error ends the process with status 1.\<close>

definition run_validator ::
  "(string \<Rightarrow> string) \<Rightarrow> (string \<Rightarrow> (string \<times> piece list list) list) \<Rightarrow> repo \<Rightarrow> 'sch schema_lib \<Rightarrow> string list \<Rightarrow> goerr option" where
  "run_validator uni pats rp v args =
     (case args of
        [] \<Rightarrow> Some (Errorf ''missing command'' [])
      | kind # rest \<Rightarrow>
          (let dir = (case rest of [] \<Rightarrow> ''.'' | d # _ \<Rightarrow> d)
           in if kind = ''manifests'' then checkManifests v (rp_lstat rp) dir
              else if kind = ''recipes'' then checkRecipes v (rp_lstat rp) dir
              else if kind = ''all'' then
                (case checkManifests v (rp_lstat rp) dir of Some e \<Rightarrow> Some e | None \<Rightarrow> checkRecipes v (rp_lstat rp) dir)
              else if kind = ''checklist'' then checkSecurity uni pats rp dir
              else if kind \<in> set [''-h'', ''--help'', ''help''] then None
              else Some (Errorf ''unknown command %q'' [kind])))"

definition exit_status :: "goerr option \<Rightarrow> int" where
  "exit_status e = (if e = None then 0 else 1)"

subsection \<open>The matcher decides the patterns\<close>

fun denotes :: "piece list \<Rightarrow> string \<Rightarrow> bool" where
  "denotes [] v \<longleftrightarrow> v = []"
| "denotes (Rep p n unb # ps) v \<longleftrightarrow>
     (\<exists>x y. v = x @ y \<and> list_all p x \<and> (if unb then n \<le> length x else length x = n) \<and> denotes ps y)"

lemma denotes_Suc:
  "denotes (Rep p (Suc n) unb # ps) v \<longleftrightarrow> (\<exists>c v'. v = c # v' \<and> p c \<and> denotes (Rep p n unb # ps) v')"
proof
  assume "denotes (Rep p (Suc n) unb # ps) v"
  then obtain x y where xy: "v = x @ y" "list_all p x" "if unb then Suc n \<le> length x else length x = Suc n" "denotes ps y"
    by auto
  then obtain c x' where "x = c # x'" by (cases x) (auto split: if_splits)
  with xy show "\<exists>c v'. v = c # v' \<and> p c \<and> denotes (Rep p n unb # ps) v'"
    by (intro exI [of _ c] exI [of _ "x' @ y"]) (auto split: if_splits)
next
  assume "\<exists>c v'. v = c # v' \<and> p c \<and> denotes (Rep p n unb # ps) v'"
  then obtain c x y where "v = c # x @ y" "p c" "list_all p x" "if unb then n \<le> length x else length x = n" "denotes ps y"
    by auto
  then show "denotes (Rep p (Suc n) unb # ps) v"
    unfolding denotes.simps by (intro exI [of _ "c # x"] exI [of _ y]) (auto split: if_splits)
qed

lemma denotes_0:
  "denotes (Rep p 0 unb # ps) v \<longleftrightarrow> denotes ps v \<or> unb \<and> (\<exists>c v'. v = c # v' \<and> p c \<and> denotes (Rep p 0 unb # ps) v')"
proof
  assume "denotes (Rep p 0 unb # ps) v"
  then obtain x y where xy: "v = x @ y" "list_all p x" "\<not> unb \<longrightarrow> x = []" "denotes ps y" by (auto split: if_splits)
  then show "denotes ps v \<or> unb \<and> (\<exists>c v'. v = c # v' \<and> p c \<and> denotes (Rep p 0 unb # ps) v')"
    by (cases x) auto
next
  assume "denotes ps v \<or> unb \<and> (\<exists>c v'. v = c # v' \<and> p c \<and> denotes (Rep p 0 unb # ps) v')"
  then show "denotes (Rep p 0 unb # ps) v"
  proof
    assume "denotes ps v"
    then show ?thesis unfolding denotes.simps by (intro exI [of _ "[]"] exI [of _ v]) simp
  next
    assume "unb \<and> (\<exists>c v'. v = c # v' \<and> p c \<and> denotes (Rep p 0 unb # ps) v')"
    then obtain c x y where "unb" "v = c # x @ y" "p c" "list_all p x" "denotes ps y" by auto
    then show ?thesis unfolding denotes.simps by (intro exI [of _ "c # x"] exI [of _ y]) simp
  qed
qed

text \<open>A prefix of the text has a property.\<close>

definition starts :: "(string \<Rightarrow> bool) \<Rightarrow> string \<Rightarrow> bool" where
  "starts P s \<longleftrightarrow> (\<exists>v w. s = v @ w \<and> P v)"

lemma starts_Cons: "starts (\<lambda>v. \<exists>c v'. v = c # v' \<and> p c \<and> Q v') s \<longleftrightarrow> (case s of [] \<Rightarrow> False | c # cs \<Rightarrow> p c \<and> starts Q cs)"
proof (cases s)
  case (Cons a cs)
  have "starts (\<lambda>v. \<exists>c v'. v = c # v' \<and> p c \<and> Q v') (a # cs) \<longleftrightarrow> p a \<and> starts Q cs"
  proof
    assume "starts (\<lambda>v. \<exists>c v'. v = c # v' \<and> p c \<and> Q v') (a # cs)"
    then obtain c v' w where "a # cs = (c # v') @ w" "p c" "Q v'" unfolding starts_def by blast
    then show "p a \<and> starts Q cs" unfolding starts_def by auto
  next
    assume "p a \<and> starts Q cs"
    then obtain v w where "p a" "cs = v @ w" "Q v" unfolding starts_def by blast
    then show "starts (\<lambda>v. \<exists>c v'. v = c # v' \<and> p c \<and> Q v') (a # cs)"
      unfolding starts_def by (intro exI [of _ "a # v"] exI [of _ w]) simp
  qed
  with Cons show ?thesis by simp
qed (simp add: starts_def)

lemma starts_or: "starts (\<lambda>v. P v \<or> b \<and> Q v) s \<longleftrightarrow> starts P s \<or> b \<and> starts Q s"
  by (auto simp: starts_def)

lemma match_at_starts: "match_at ps s \<longleftrightarrow> starts (denotes ps) s"
proof (induction ps s rule: match_at.induct)
  case (1 s)
  show ?case by (simp add: starts_def)
next
  case (2 p n unb ps s)
  have "denotes (Rep p (Suc n) unb # ps) = (\<lambda>v. \<exists>c v'. v = c # v' \<and> p c \<and> denotes (Rep p n unb # ps) v')"
    by (rule ext) (rule denotes_Suc)
  then show ?case using 2 by (simp add: starts_Cons del: denotes.simps split: list.split)
next
  case (3 p unb ps s)
  define D where "D = denotes (Rep p 0 unb # ps)"
  have "D = (\<lambda>v. denotes ps v \<or> unb \<and> (\<exists>c v'. v = c # v' \<and> p c \<and> D v'))"
    unfolding D_def by (rule ext) (rule denotes_0)
  then have "starts D s \<longleftrightarrow> starts (\<lambda>v. denotes ps v \<or> unb \<and> (\<exists>c v'. v = c # v' \<and> p c \<and> D v')) s" by simp
  also have "... \<longleftrightarrow> starts (denotes ps) s \<or> unb \<and> (case s of [] \<Rightarrow> False | c # cs \<Rightarrow> p c \<and> starts D cs)"
    by (simp only: starts_or starts_Cons)
  finally have "starts (denotes (Rep p 0 unb # ps)) s \<longleftrightarrow> starts (denotes ps) s \<or>
      unb \<and> (case s of [] \<Rightarrow> False | c # cs \<Rightarrow> p c \<and> starts (denotes (Rep p 0 unb # ps)) cs)"
    by (simp only: D_def)
  then show ?case using 3 by (auto simp del: denotes.simps split: list.split)
qed

lemma match_in_iff: "match_in ps s \<longleftrightarrow> (\<exists>u v w. s = u @ v @ w \<and> denotes ps v)"
proof (induction s)
  case (Cons c cs)
  have "(\<exists>u v w. c # cs = u @ v @ w \<and> denotes ps v) \<longleftrightarrow>
      (\<exists>v w. c # cs = v @ w \<and> denotes ps v) \<or> (\<exists>u v w. cs = u @ v @ w \<and> denotes ps v)" (is "?l \<longleftrightarrow> ?a \<or> ?b")
  proof
    assume ?l
    then obtain u v w where "c # cs = u @ v @ w" "denotes ps v" by blast
    then show "?a \<or> ?b" by (cases u) auto
  next
    assume "?a \<or> ?b"
    then show ?l by (metis append_Cons append_Nil)
  qed
  with Cons show ?case by (simp add: match_at_starts starts_def)
qed (auto simp: match_at_starts starts_def)

subsection \<open>What a clean run means\<close>

lemma validateAll_nil: "validateAll v sch fs = [] \<longleftrightarrow> (\<forall>f \<in> set fs. validateFile v sch f = None)"
  by (induction fs) (auto split: option.splits)

lemma checkKind_passes:
  "checkKind v dir label schemaPath finder = None \<longleftrightarrow>
     (\<exists>sch fs. loadSchema v schemaPath = Inr sch \<and> finder dir = Inr fs \<and> (\<forall>f \<in> set fs. validateFile v sch f = None))"
  by (auto simp: checkKind_def Let_def validateAll_nil split: sum.split)

lemma run_all_passes:
  "exit_status (run_validator uni pats rp v [''all'', dir]) = 0 \<longleftrightarrow>
     checkManifests v (rp_lstat rp) dir = None \<and> checkRecipes v (rp_lstat rp) dir = None"
  by (simp add: run_validator_def exit_status_def split: option.split)

lemma run_checklist_passes:
  "exit_status (run_validator uni pats rp v [''checklist'', dir]) = 0 \<longleftrightarrow> RunChecklist uni pats rp dir = Inr []"
  by (auto simp: run_validator_def exit_status_def checkSecurity_def split: sum.split)

subsection \<open>What the scan covers\<close>

text \<open>The regular files below a node, skipped directories left out.\<close>

fun scanned :: "string \<Rightarrow> string \<Rightarrow> fsnode \<Rightarrow> (string \<times> string) list"
  and scanned_all :: "string \<Rightarrow> (string \<times> fsnode) list \<Rightarrow> (string \<times> string) list" where
  "scanned path name RegFile = [(path, name)]"
| "scanned path name (Directory es) = (if name \<in> set skipped_dirs then [] else scanned_all path es)"
| "scanned path name (Unreadable nx m) = []"
| "scanned_all path [] = []"
| "scanned_all path ((n, nd) # es) = scanned (path_join [path, n]) n nd @ scanned_all path es"

text \<open>A file the scan reads, and what it reports of it.\<close>

definition examined :: "repo \<Rightarrow> string \<Rightarrow> string \<Rightarrow> string option" where
  "examined rp path name =
     (if HasSuffix name ''.example'' \<or> HasSuffix name ''.sum'' then None
      else (case (rp_size rp path, rp_readFile rp path) of
              (Some n, Inr content) \<Rightarrow> if n > 2 * 2 ^ 20 then None else Some content | _ \<Rightarrow> None))"

definition file_secrets :: "(string \<Rightarrow> (string \<times> piece list list) list) \<Rightarrow> repo \<Rightarrow> string \<Rightarrow> string \<times> string \<Rightarrow> string list" where
  "file_secrets pats rp dir = (\<lambda>(path, name).
     (case examined rp path name of
        None \<Rightarrow> []
      | Some content \<Rightarrow> map (\<lambda>(label, alts). Sprintf ''COMMITTED SECRET: %s in %s'' [label, path_rel dir path])
          (filter (\<lambda>(label, alts). secret_match alts content) (pats path))))"

lemma secret_walk_file: "secret_walk pats rp dir path name False None a = (Continue, a @ file_secrets pats rp dir (path, name))"
  by (simp add: secret_walk_def file_secrets_def examined_def split: option.split sum.split)

lemma secret_walk_dir:
  "secret_walk pats rp dir path name True None a = (if name \<in> set skipped_dirs then SkipDir else Continue, a)"
  "secret_walk pats rp dir path name b (Some (nx, m)) a = (Fail (External m), a)"
  by (simp_all add: secret_walk_def)

lemma walk_secrets:
  "walkDir (secret_walk pats rp dir) path name nd a = (c, a') \<Longrightarrow> (\<exists>e. c = Fail e) \<or>
     c = Continue \<and> a' = a @ concat (map (file_secrets pats rp dir) (scanned path name nd))"
  "walkDirs (secret_walk pats rp dir) path es a = (c, a') \<Longrightarrow> (\<exists>e. c = Fail e) \<or>
     c = Continue \<and> a' = a @ concat (map (file_secrets pats rp dir) (scanned_all path es))"
proof (induction path name nd and path es arbitrary: a c a' and a c a' rule: scanned_scanned_all.induct)
  case (5 path n nd es)
  obtain c1 a1 where w: "walkDir (secret_walk pats rp dir) (path_join [path, n]) n nd a = (c1, a1)" by force
  from 5(1) [OF w] show ?case
  proof
    assume "\<exists>e. c1 = Fail e"
    with 5(3) w show ?thesis by auto
  next
    assume c1: "c1 = Continue \<and> a1 = a @ concat (map (file_secrets pats rp dir) (scanned (path_join [path, n]) n nd))"
    with 5(3) w have "walkDirs (secret_walk pats rp dir) path es a1 = (c, a')" by simp
    from 5(2) [OF this] c1 show ?thesis by simp
  qed
qed (auto simp: secret_walk_file secret_walk_dir split: if_splits)

lemma scanSecrets_complete:
  assumes "scanSecrets pats rp dir = (problems, None)" "rp_lstat rp dir = Inr nd"
  shows "problems = concat (map (file_secrets pats rp dir) (scanned dir (path_base dir) nd))"
proof -
  obtain c a where w: "walkDir (secret_walk pats rp dir) dir (path_base dir) nd [] = (c, a)" by force
  from walk_secrets(1) [OF w] assms w show ?thesis
    by (auto simp: scanSecrets_def WalkDir_def split: walk.splits)
qed

lemma RunChecklist_parts:
  assumes "RunChecklist uni pats rp dir = Inr []"
  obtains ms where "findManifests (rp_lstat rp) dir = Inr ms" "manifest_problems uni rp ms = Inr []"
    "scanSecrets pats rp dir = ([], None)"
  using assms by (auto simp: RunChecklist_def split: sum.splits prod.splits option.splits)

text \<open>
  C40. A repository that passes the checklist carries no credential the patterns describe: no regular file
  outside the skipped directories, of at most two megabytes and not an example or checksum file, contains
  a part that one of the patterns denotes, in whatever order the patterns are tried.
\<close>

theorem checklist_finds_secrets:
  assumes "RunChecklist uni pats rp dir = Inr []" "rp_lstat rp dir = Inr nd"
    and "\<forall>path. set (pats path) = set secretPatterns"
    and "(path, name) \<in> set (scanned dir (path_base dir) nd)" "examined rp path name = Some content"
    and "(label, alts) \<in> set secretPatterns" "ps \<in> set alts"
  shows "\<not> (\<exists>u v w. content = u @ v @ w \<and> denotes ps v)"
proof -
  from assms(1) obtain ms where "scanSecrets pats rp dir = ([], None)" by (rule RunChecklist_parts)
  from scanSecrets_complete [OF this assms(2)] assms(4) have "file_secrets pats rp dir (path, name) = []" by auto
  then have "\<forall>(label, alts) \<in> set secretPatterns. \<not> secret_match alts content"
    using assms(3,5) by (auto simp: file_secrets_def filter_empty_conv)
  with assms(6) have "\<not> secret_match alts content" by blast
  with assms(7) show ?thesis unfolding secret_match_def list_ex_iff match_in_iff by blast
qed

subsection \<open>What the checklist means for the gateway\<close>

lemma manifest_walk_keep: "manifest_walk = keep_walk (\<lambda>n. n = ''manifest.yaml'')"
  by (intro ext) (simp add: manifest_walk_def keep_walk_def split: option.split)

lemma manifest_problems_nil:
  "manifest_problems uni rp ps = Inr [] \<Longrightarrow> path \<in> set ps \<Longrightarrow>
     \<exists>raw m. rp_readFile rp path = Inr raw \<and> rp_yaml rp raw = Inr m \<and> (\<forall>t \<in> set (cm_Tools m). tool_problems uni (cm_Name m) t = [])"
  by (induction ps) (auto split: sum.splits)

lemma tool_problems_nil:
  "tool_problems uni name t = [] \<Longrightarrow> looksIrreversible uni (mt_Name t) \<Longrightarrow> mt_Impact t = ''high''"
  by (auto simp: tool_problems_def split: if_splits)

lemma load_all_source:
  "load_all rf y ps = Inr ins \<Longrightarrow> inp \<in> set ins \<Longrightarrow>
     \<exists>path raw m. path \<in> set ps \<and> rf path = Inr raw \<and> y raw = Inr m \<and> validate m path = Inr inp"
proof (induction ps arbitrary: ins)
  case (Cons p ps)
  then show ?case by (fastforce simp: Load_manifest_def split: sum.splits)
qed simp

lemma checked_tools_high:
  assumes "RunChecklist uni pats rp dir = Inr []"
    and "LoadDir (rp_readFile rp) yaml (rp_lstat rp) dir = Inr ins" "inp \<in> set ins"
    and "\<forall>b m. yaml b = Inr m \<longrightarrow> rp_yaml rp b = Inr \<lparr>cm_Name = mf_Name m, cm_Tools = mf_Tools m\<rparr>"
    and "t \<in> set (sin_Tools inp)" "looksIrreversible uni (tin_Name t)"
  shows "tin_Impact t = ''high''"
proof -
  from assms(1) obtain ms where ms: "findManifests (rp_lstat rp) dir = Inr ms" "manifest_problems uni rp ms = Inr []"
    by (rule RunChecklist_parts)
  from assms(2) obtain ps where ps: "WalkDir manifest_walk (path_join [dir, ''mcp-servers''])
      (rp_lstat rp (path_join [dir, ''mcp-servers''])) [] = (None, ps)" "load_all (rp_readFile rp) yaml ps = Inr ins"
    by (auto simp: LoadDir_def Let_def split: prod.splits option.splits)
  with ms(1) have "set ms = set ps" by (auto simp: findManifests_def findFiles_def manifest_walk_keep)
  from load_all_source [OF ps(2) assms(3)] obtain path raw m where
    m: "path \<in> set ps" "rp_readFile rp path = Inr raw" "yaml raw = Inr m" "validate m path = Inr inp" by blast
  with \<open>set ms = set ps\<close> manifest_problems_nil [OF ms(2), of path] assms(4)
  have clean: "\<forall>t \<in> set (mf_Tools m). tool_problems uni (mf_Name m) t = []" by auto
  from validate_tools_of [OF m(4)]
  have "sin_Tools inp = map (\<lambda>t. \<lparr>tin_Name = mt_Name t, tin_Scope = mt_Scope t, tin_Impact = mt_Impact t\<rparr>) (mf_Tools m)" by simp
  with assms(5) obtain mt where mt: "mt \<in> set (mf_Tools m)" "tin_Name t = mt_Name mt" "tin_Impact t = mt_Impact mt" by auto
  with clean assms(6) tool_problems_nil [of uni "mf_Name m" mt] show ?thesis by simp
qed

text \<open>
  The tools of the registry come from registrations only: every other operation of the repository leaves
  them as they are.
\<close>

lemma exec_tools:
  assumes "\<And>x d1. q (stmts d) (d\<lparr>stmts := Suc (stmts d)\<rparr>) = Inr (x, d1) \<Longrightarrow> mcp_tools d1 = mcp_tools d"
  shows "mcp_tools (snd (exec p q d)) = mcp_tools d"
  by (cases p q d rule: exec_cases) (use assms in auto)

lemma UpdateSessionStatus_tools: "mcp_tools (snd (UpdateSessionStatus p a b d)) = mcp_tools d"
proof -
  have "snd (UpdateSessionStatus p a b d) = snd (exec p (\<lambda>n d. (case uuid_arg p a of
            Inl e \<Rightarrow> Inl e
          | Inr u \<Rightarrow> Inr (length (filter (\<lambda>r. sr_id r = u) (sessions d)),
              d\<lparr>sessions := upd_where (\<lambda>r. sr_id r = u)
                  (\<lambda>r. r\<lparr>sr_status := b, sr_updated_at := pg_now p n\<rparr>) (sessions d)\<rparr>))) d)"
    by (simp add: UpdateSessionStatus_def split: prod.splits sum.splits)
  also have "mcp_tools \<dots> = mcp_tools d" by (rule exec_tools) (auto split: sum.splits)
  finally show ?thesis .
qed

lemma WriteFact_tools: "mcp_tools (snd (WriteFact p i d)) = mcp_tools d"
proof (cases "validScope (fin_ScopeType i)")
  case True
  then show ?thesis by (simp add: WriteFact_eq, intro exec_tools) (auto simp: Let_def split: if_splits)
qed (simp add: WriteFact_eq)

lemma operations_tools:
  "mcp_tools (snd (UpsertUser p a b c d)) = mcp_tools d"
  "mcp_tools (snd (SetCommitteeRole p a b c d)) = mcp_tools d"
  "mcp_tools (snd (RemoveCommitteeRole p a b d)) = mcp_tools d"
  "mcp_tools (snd (CreateSession p a b c e d)) = mcp_tools d"
  "mcp_tools (snd (AddTurn p a b c k d)) = mcp_tools d"
  "mcp_tools (snd (UpsertSummary p a b d)) = mcp_tools d"
  "mcp_tools (snd (ForgetFact p a d)) = mcp_tools d"
  "mcp_tools (snd (ForgetFactsByKey p a b c d)) = mcp_tools d"
  "mcp_tools (snd (DeleteExpiredFacts p t d)) = mcp_tools d"
  "mcp_tools (snd (CreateApproval p a b j d)) = mcp_tools d"
  "mcp_tools (snd (DecideApproval p a b c d)) = mcp_tools d"
  "mcp_tools (snd (WriteAudit p w d)) = mcp_tools d"
  "mcp_tools (snd (AgeOutAudit p t d)) = mcp_tools d"
  "mcp_tools (snd (SetServerLifecycle p a b d)) = mcp_tools d"
  "mcp_tools (snd (SetServerEnabled p a en d)) = mcp_tools d"
  unfolding UpsertUser_def SetCommitteeRole_def RemoveCommitteeRole_def CreateSession_def AddTurn_def
    UpsertSummary_def ForgetFact_def ForgetFactsByKey_def DeleteExpiredFacts_def CreateApproval_def DecideApproval_def
    WriteAudit_def AgeOutAudit_def SetServerLifecycle_def SetServerEnabled_def
    snd_wrap_err snd_not_found_or snd_rows_or_not_found
  by (rule exec_tools, auto simp: Let_def update_server_def split: option.splits if_splits sum.splits)+

lemma tools_by_register:
  "db_step p d d' \<Longrightarrow> mcp_tools d' = mcp_tools d \<or> (\<exists>inp. d' = snd (RegisterServer p inp d))"
proof (induction rule: db_step.induct)
  case (RegisterServer d inp)
  then show ?case by blast
qed (simp_all add: operations_tools UpdateSessionStatus_tools WriteFact_tools)

lemma RegisterServer_tools:
  assumes "t \<in> set (mcp_tools (snd (RegisterServer p inp d)))"
  shows "t \<in> set (mcp_tools d) \<or> tool_input t \<in> set (sin_Tools inp)"
proof (cases "sin_Name inp = [] \<or> sin_Endpoint inp = []")
  case True
  with assms show ?thesis by (simp add: RegisterServer_def)
next
  case False
  obtain r d2 where tx: "register_tx p inp d = (r, d2)" by force
  show ?thesis
  proof (cases r)
    case (Inl e)
    with assms False tx show ?thesis by (simp add: RegisterServer_def)
  next
    case (Inr u)
    have "mcp_tools (snd (GetServerByName p (sin_Name inp) d2)) = mcp_tools d2"
      using same_tablesD(10) [OF GetServerByName_same [of d2 p "sin_Name inp"]] by simp
    with assms False tx Inr have t: "t \<in> set (mcp_tools d2)" by (simp add: RegisterServer_def)
    obtain sid d1 new gs n where
      up: "exec p (upsert_server p inp) (d\<lparr>stmts := Suc (stmts d)\<rparr>) = (Inr sid, d1)" and
      d2: "d2 = d1\<lparr>stmts := n, mcp_tools := filter (\<lambda>t. tl_ServerID t \<noteq> sid) (mcp_tools d1) @ new,
         server_committees := gs\<rparr>" and new: "map tool_input new = sin_Tools inp"
      by (rule register_tx_ok [OF tx [unfolded Inr]])
    have "mcp_tools d1 = mcp_tools d" using up by (cases rule: upsert_server_ok) simp_all
    moreover have "tool_input ` set new = set (sin_Tools inp)" using new by (metis list.set_map)
    ultimately show ?thesis using t by (auto simp: d2)
  qed
qed

text \<open>
  A server input that a sync of a checked repository registers: the checklist found nothing in the tree
  and the gateway loaded the input from the same files.  \<open>yaml\<close> and \<open>rp_yaml\<close> are the same decoder into
  the gateway's and the checklist's structures.
\<close>

definition from_checked :: "(string \<Rightarrow> string) \<Rightarrow> ServerInput \<Rightarrow> bool" where
  "from_checked uni inp \<longleftrightarrow> (\<exists>pats rp dir yaml ins.
     RunChecklist uni pats rp dir = Inr [] \<and> LoadDir (rp_readFile rp) yaml (rp_lstat rp) dir = Inr ins \<and> inp \<in> set ins \<and>
     (\<forall>b m. yaml b = Inr m \<longrightarrow> rp_yaml rp b = Inr \<lparr>cm_Name = mf_Name m, cm_Tools = mf_Tools m\<rparr>))"

text \<open>
  The life of a database whose registrations are all of this kind, from checked trees that may change
  from one to the next, with any other operations of the repository between them: promotions, switches,
  sessions, approvals, whatever calls of the gateway write.
\<close>

inductive checked_history :: "(string \<Rightarrow> string) \<Rightarrow> pg \<Rightarrow> db \<Rightarrow> bool" for uni p where
  empty: "checked_history uni p empty_db"
| registers: "checked_history uni p d \<Longrightarrow> from_checked uni inp \<Longrightarrow> checked_history uni p (snd (RegisterServer p inp d))"
| other: "checked_history uni p d \<Longrightarrow> db_step p d d' \<Longrightarrow> mcp_tools d' = mcp_tools d \<Longrightarrow> checked_history uni p d'"

lemma from_checked_high:
  assumes "from_checked uni inp" "t \<in> set (sin_Tools inp)" "looksIrreversible uni (tin_Name t)"
  shows "tin_Impact t = ''high''"
proof -
  from assms(1) obtain pats rp dir yaml ins where
    c: "RunChecklist uni pats rp dir = Inr []" "LoadDir (rp_readFile rp) yaml (rp_lstat rp) dir = Inr ins" "inp \<in> set ins"
      "\<forall>b m. yaml b = Inr m \<longrightarrow> rp_yaml rp b = Inr \<lparr>cm_Name = mf_Name m, cm_Tools = mf_Tools m\<rparr>"
    unfolding from_checked_def by blast
  from checked_tools_high [OF c assms(2,3)] show ?thesis .
qed

lemma checked_history_high:
  "checked_history uni p d \<Longrightarrow> t \<in> set (mcp_tools d) \<Longrightarrow> looksIrreversible uni (tl_Name t) \<Longrightarrow> tl_Impact t = ''high''"
proof (induction arbitrary: t rule: checked_history.induct)
  case empty
  then show ?case by (simp add: empty_db_def)
next
  case (registers d inp)
  from RegisterServer_tools [OF registers.prems(1)] show ?case
  proof
    assume "t \<in> set (mcp_tools d)"
    then show ?thesis by (rule registers.IH) (rule registers.prems)
  next
    assume "tool_input t \<in> set (sin_Tools inp)"
    from from_checked_high [OF registers.hyps(2) this] registers.prems(2) show ?thesis by (simp add: tool_input_def)
  qed
qed simp

text \<open>
  C39. The checklist in the pipeline and the gate in the gateway work together.  On a database whose
  servers were all registered from trees that passed the checklist, after any number of syncs and
  whatever else happened to it (servers promoted, switched, sessions and approvals created and
  decided): when a gateway's \<open>Call\<close> reaches a tool whose name looks irreversible (send, delete, pay and
  so on), that tool is marked high, the call came with a session, and the database records that a
  person approved that tool in that session.
\<close>

theorem checklist_gates_irreversible:
  assumes "checked_history uni p (gs_store gs)" "gw_store g = repo_store p"
    and "Call g ck req gs = (r, gs')" "gs_calls gs' \<noteq> gs_calls gs"
    and "looksIrreversible uni (rq_ToolName req)"
  shows "\<exists>srv t. gs_calls gs' = gs_calls gs @ [(srv, t, rq_Args req)] \<and>
    tl_Name t = rq_ToolName req \<and> tl_Impact t = ''high'' \<and> rq_SessionID req \<noteq> [] \<and>
    (\<exists>a \<in> set (approvals (gs_store gs)). pg_uuid_in p (rq_SessionID req) \<noteq> None \<and>
       ar_session_id a = pg_uuid_in p (rq_SessionID req) \<and> ar_tool a = rq_ToolName req \<and> ar_status a = ''approved'')"
proof -
  from repo.call_safe [OF assms(2-4)] obtain b where
    b: "gs_calls gs' = gs_calls gs @ [(tb_Server b, tb_Tool b, rq_Args req)]"
      "registered_in p (gs_store gs) (rq_ServerName req) (rq_ToolName req) b"
      "tl_Impact (tb_Tool b) = ''high'' \<longrightarrow> rq_SessionID req \<noteq> [] \<and> approved_for p (gs_store gs) (rq_SessionID req) (rq_ToolName req)"
    by blast
  from b(2) have t: "tb_Tool b \<in> set (mcp_tools (gs_store gs))" "tl_Name (tb_Tool b) = rq_ToolName req"
    by (auto simp: registered_in_def)
  with checked_history_high [OF assms(1) t(1)] assms(5) have "tl_Impact (tb_Tool b) = ''high''" by simp
  with b t show ?thesis unfolding approved_for_def by blast
qed

subsection \<open>A small repository\<close>

text \<open>One manifest with a harmless and an irreversible tool, and a note; every file is small and readable.\<close>

definition repo_manifest :: manifestFile where
  "repo_manifest =
     \<lparr>mf_Name = ''fin'', mf_Owner = ''finance'', mf_Description = [], mf_Endpoint = ''http://fin/mcp'', mf_Transport = [], mf_Auth = [],
      mf_Tools = [\<lparr>mt_Name = ''look'', mt_Scope = ''finance:read'', mt_Impact = ''read''\<rparr>,
                  \<lparr>mt_Name = ''pay'', mt_Scope = ''finance:write'', mt_Impact = ''high''\<rparr>],
      mf_AllowedCommittees = [''finance''], mf_Lifecycle = []\<rparr>"

definition repo_tree :: fsnode where
  "repo_tree = Directory [(''bin'', Directory [(''x'', RegFile)]),
     (''mcp-servers'', Directory [(''fin'', Directory [(''manifest.yaml'', RegFile)])]), (''notes.md'', RegFile)]"

definition demo_repo :: repo where
  "demo_repo = \<lparr>rp_readFile = (\<lambda>p. Inr (if p = ''r/notes.md'' then ''sk-or-..'' else ''fin'')),
     rp_yaml = (\<lambda>b. Inr \<lparr>cm_Name = mf_Name repo_manifest, cm_Tools = mf_Tools repo_manifest\<rparr>), rp_size = (\<lambda>p. Some 8),
     rp_lstat = (\<lambda>p. if p = ''r'' then Inr repo_tree
                      else Inr (Directory [(''fin'', Directory [(''manifest.yaml'', RegFile)])]))\<rparr>"

lemma demo_passes: "RunChecklist (\<lambda>s. s) (\<lambda>p. secretPatterns) demo_repo ''r'' = Inr []"
  by code_simp

theorem checklist_finds_secrets_witness:
  "RunChecklist (\<lambda>s. s) (\<lambda>p. secretPatterns) demo_repo ''r'' = Inr [] \<and>
   \<not> (\<exists>u v w. ''sk-or-..'' = u @ v @ w \<and> denotes (lit ''AKIA'' @ [Rep (\<lambda>c. is_digit c \<or> is_upper c) 16 False]) v)"
proof -
  let ?aws = "lit ''AKIA'' @ [Rep (\<lambda>c. is_digit c \<or> is_upper c) 16 False]"
  have l: "rp_lstat demo_repo ''r'' = Inr repo_tree" by (simp add: demo_repo_def)
  have f: "(''r/notes.md'', ''notes.md'') \<in> set (scanned ''r'' (path_base ''r'') repo_tree)" by code_simp
  have e: "examined demo_repo ''r/notes.md'' ''notes.md'' = Some ''sk-or-..''" by code_simp
  have p: "(''AWS access key'', [?aws]) \<in> set secretPatterns" by (simp add: secretPatterns_def)
  from checklist_finds_secrets [OF demo_passes l _ f e p, of ?aws] demo_passes show ?thesis by simp
qed

definition repo_input :: ServerInput where
  "repo_input = (case validate repo_manifest ''r'' of Inr i \<Rightarrow> i | Inl e \<Rightarrow> demo_input)"

lemma repo_input_checked: "from_checked (\<lambda>s. s) repo_input"
proof -
  have load: "LoadDir (rp_readFile demo_repo) (\<lambda>b. Inr repo_manifest) (rp_lstat demo_repo) ''r'' = Inr [repo_input]" by code_simp
  have yaml: "\<forall>b m. (Inr repo_manifest :: manifestFile res) = Inr m \<longrightarrow>
      rp_yaml demo_repo b = Inr \<lparr>cm_Name = mf_Name m, cm_Tools = mf_Tools m\<rparr>" by (simp add: demo_repo_def)
  show ?thesis unfolding from_checked_def
    by (rule exI [of _ "\<lambda>p. secretPatterns"], rule exI [of _ demo_repo], rule exI [of _ "''r''"],
        rule exI [of _ "\<lambda>b. Inr repo_manifest"], rule exI [of _ "[repo_input]"]) (simp add: demo_passes load yaml)
qed

text \<open>The server is registered, promoted by a maintainer and called in a session; then a person approves.\<close>

definition life0 :: db where "life0 = snd (RegisterServer demo_pg repo_input empty_db)"
definition life1 :: db where "life1 = snd (SetServerLifecycle demo_pg ''fin'' ''approved'' life0)"
definition life2 :: db where "life2 = snd (CreateSession demo_pg [] ''c'' ''t'' [] life1)"
definition life_ses :: string where "life_ses = sr_id (hd (sessions life2))"
definition life3 :: db where "life3 = snd (CreateApproval demo_pg life_ses ''pay'' Raw_Empty life2)"
definition life4 :: db where "life4 = snd (DecideApproval demo_pg (ar_id (hd (approvals life3))) ''approved'' ''lead'' life3)"

lemma life_checked: "checked_history (\<lambda>s. s) demo_pg life4"
proof -
  have 0: "checked_history (\<lambda>s. s) demo_pg life0" unfolding life0_def
    by (rule checked_history.registers [OF checked_history.empty repo_input_checked])
  have 1: "checked_history (\<lambda>s. s) demo_pg life1" unfolding life1_def
    by (rule checked_history.other [OF 0 db_step.SetServerLifecycle]) (fold life1_def, code_simp)
  have 2: "checked_history (\<lambda>s. s) demo_pg life2" unfolding life2_def
    by (rule checked_history.other [OF 1 db_step.CreateSession]) (fold life2_def, code_simp)
  have 3: "checked_history (\<lambda>s. s) demo_pg life3" unfolding life3_def
    by (rule checked_history.other [OF 2 db_step.CreateApproval]) (fold life3_def, code_simp)
  show ?thesis unfolding life4_def
    by (rule checked_history.other [OF 3 db_step.DecideApproval]) (fold life4_def, code_simp)
qed

theorem checklist_gates_irreversible_witness:
  "length (gs_calls (snd (Call demo_gateway demo_clock (demo_request ''finance'' life_ses ''pay'') (start_gateway None life3)))) = 0 \<and>
   (\<exists>r gs' srv t. Call demo_gateway demo_clock (demo_request ''finance'' life_ses ''pay'') (start_gateway None life4) = (r, gs') \<and>
      gs_calls gs' = [(srv, t, rq_Args (demo_request ''finance'' life_ses ''pay''))] \<and> tl_Impact t = ''high'' \<and>
      list_ex (\<lambda>a. ar_tool a = ''pay'' \<and> ar_status a = ''approved'') (approvals life4))"
proof
  let ?req = "demo_request ''finance'' life_ses ''pay''"
  show "length (gs_calls (snd (Call demo_gateway demo_clock ?req (start_gateway None life3)))) = 0" by code_simp
  have n: "length (gs_calls (snd (Call demo_gateway demo_clock ?req (start_gateway None life4)))) = 1" by code_simp
  obtain r gs' where c: "Call demo_gateway demo_clock ?req (start_gateway None life4) = (r, gs')" by (metis prod.exhaust)
  have h: "checked_history (\<lambda>s. s) demo_pg (gs_store (start_gateway None life4))"
    using life_checked by (simp add: start_gateway_def)
  have g: "gw_store demo_gateway = repo_store demo_pg" by (simp add: demo_gateway_def NewGateway_def)
  have e: "gs_calls (start_gateway None life4) = []" "gs_store (start_gateway None life4) = life4" "rq_ToolName ?req = ''pay''"
    by (simp_all add: start_gateway_def demo_request_def)
  have ne: "gs_calls gs' \<noteq> gs_calls (start_gateway None life4)" using n c e(1) by auto
  have l: "looksIrreversible (\<lambda>s. s) (rq_ToolName ?req)" unfolding e(3) by code_simp
  from checklist_gates_irreversible [OF h g c ne l] c
  show "\<exists>r gs' srv t. Call demo_gateway demo_clock ?req (start_gateway None life4) = (r, gs') \<and>
      gs_calls gs' = [(srv, t, rq_Args ?req)] \<and> tl_Impact t = ''high'' \<and>
      list_ex (\<lambda>a. ar_tool a = ''pay'' \<and> ar_status a = ''approved'') (approvals life4)"
    unfolding e list_ex_iff by auto
qed

end
