(* ===== verification/Spec2Isabelle.thy ===== *)
theory Spec2Isabelle
  imports GatewaySession RuntimeManager Drivers Validate
begin

text \<open>
  Verification of the ScottyLabs agent platform.

  \<^bold>\<open>The program.\<close>  The platform lets members of an organisation run language-model agents from Slack,
  from a dashboard and on a schedule, and lets those agents use tools under a policy.  Its parts are
  processes that talk over HTTP and share one PostgreSQL database:

  \<^item> the repository over the database (services/session-memory/store): users and roles, sessions, turns
    and summaries, scoped facts, approvals, the audit log and the registry of MCP servers;
  \<^item> the gateway (gateway): every tool call of an agent goes through its policy engine, which limits
    rates, resolves the tool in the registry, authorizes the caller's committees, asks for a person's
    approval of a high-impact tool, calls the server downstream and audits the outcome;
  \<^item> the agent runtime (runtime): resolves a recipe and a model, runs the engine (Goose) as a task with
    a stream of events and decisions, and serves tasks over HTTP;
  \<^item> its users: the Slack gateway (services/slack-gateway), the scheduler (services/scheduler) and the
    dashboard (services/dashboard), which also decides approvals and switches servers off;
  \<^item> the context assembly, the memory tools and the retention job (services/session-memory);
  \<^item> the Engineering Agent (services/engineering-agent), which runs coding tasks in a sandbox with an
    egress allowlist and opens pull requests;
  \<^item> MCP servers the gateway calls: memory, the finance rules, Google Workspace, and a template for new
    ones (mcp-servers);
  \<^item> the deployment validator (infra/validate), which checks manifests, recipes and a repository
    checklist in the pipeline.

  \<^bold>\<open>Layout.\<close>  Each theory opens with the files under src/ it models.

  \<^item> \<open>Prelude\<close>, \<open>GoLib\<close>, \<open>Float64\<close>, \<open>Json\<close>, \<open>Filepath\<close>, \<open>Http\<close>: the shared facts and what the code uses of
    Go and its standard library.  A string is its bytes; an \<open>int\<close> is kept in 64-bit range where it can
    leave it; a \<open>float64\<close> is a rational with the rounding \<open>f64\<close> after every operation (locale \<open>rounding\<close>);
    an \<open>(T, error)\<close> result is a sum, errors are values of \<open>goerr\<close> that keep what \<open>errors.Is\<close> sees.
    The locale \<open>gate\<close> of \<open>Http\<close> is the contract of a check in front of handlers, interpreted by the
    services' bearer check, by the dashboard's cookie and by the MCP servers' optional bearer.
  \<^item> \<open>Postgres\<close>, \<open>StoreIdentity\<close>, \<open>StoreSessions\<close>, \<open>StoreMemory\<close>, \<open>StoreGovernance\<close>, \<open>StoreRegistry\<close>: the
    tables as the record \<open>db\<close>, one definition per method of the repository, each a sequence of
    statements run by \<open>exec\<close>, any of which may fail.  \<open>StoreInvariant\<close> states the schema as an invariant
    and proves it for every reachable state; \<open>StoreProperties\<close> has what single operations promise.
    \<open>Migrations\<close> has the opening of the pool, the migration scripts as data with what running them does
    to a schema, and the proof that the schema they leave is that invariant, constraint by constraint.
  \<^item> \<open>RateLimits\<close>, \<open>Redact\<close>, \<open>Manifest\<close>, \<open>Gateway\<close>: the gateway's packages.  \<open>GatewayPolicy\<close> holds the
    locale \<open>gateway_store\<close> (what the engine needs of a store) with the engine's guarantees, and its
    interpretation by the repository; \<open>GatewayProperties\<close> shows that the engine implements the policy
    function \<open>decide\<close>; \<open>GatewayServer\<close> has the HTTP front, the downstream caller and the registry sync;
    \<open>GatewayMain\<close> is the process, with what a sync leaves in the registry; \<open>GatewaySession\<close> runs calls one
    after another and shows how far one approval reaches.
  \<^item> \<open>Runtime\<close>, \<open>RuntimeTask\<close>, \<open>RuntimeServer\<close>, \<open>RuntimeClient\<close>: recipes and plans; a task as a step
    relation in which the engine, the reader of events and the callers that decide interleave; the task
    service; its clients against its routes.  \<open>RuntimeManager\<close> is that service with its goroutines and the
    halves of a request interleaved, the decision channel at its capacity of one; \<open>RuntimeCLI\<close> is the
    command line, again a step relation.  An engine is a codatatype (\<open>prog\<close>) and so is the output of the
    Goose process (\<open>stdout\<close>): nothing in the code makes either come to an end, so an engine may emit for
    ever or block, and a process may print for ever, fall silent, print a line the scanner cannot hold
    or never be done with \<open>Wait\<close>.
  \<^item> \<open>Assembly\<close> (locale \<open>scoped_store\<close>), \<open>MemoryMCP\<close>, \<open>Slack\<close>, \<open>Scheduler\<close>, \<open>Egress\<close>, \<open>Engineering\<close>,
    \<open>Dashboard\<close> and \<open>DashboardProperties\<close>, \<open>Finance\<close>, \<open>Template\<close>, \<open>Workspace\<close>, \<open>Validate\<close>: one theory per
    service.  The locale \<open>rule_set\<close> of \<open>Finance\<close> is the contract of a server of rules, interpreted by the
    finance server and by the template.
  \<^item> \<open>McpServers\<close>: the tools of the MCP servers behind the MCP library (\<open>mcp_library\<close> states what is relied on)
    and the way of a gateway call through the downstream client to a tool.  \<open>Processes\<close>: the remaining
    \<open>main\<close> functions, as what they build from the environment, and what happens without tokens.  \<open>Drivers\<close>: where the
    processes hand over to a library (posting to Slack and its routes, the sandbox's command runner and
    the notifiers, the construction of the Google services, log levels, task ids), and the database of
    a process as \<open>Open\<close> followed by \<open>Migrate\<close>.

  \<^bold>\<open>What is shown.\<close>  For the gateway: a downstream call happens only under the stated policy, served and
  refused calls leave their audit row, secrets are masked whenever the arguments decode (and are not when
  a number in them does not), rates are bounded with rounding accounted for; an approval covers its session and tool name, whatever is called later; end to end, no email
  leaves through the Workspace server without a recorded approval.  For the repository: the invariant
  is the schema that the migrations declare and every operation keeps it, migrations are idempotent and
  roll back, registration is atomic, a registry sync loads the repository's
  manifests, leaves the last of each name exactly, column by column, touches no other server and promotes
  nothing.  For the runtime: events, questions and decisions follow the protocol
  in every interleaving, a task whose engine is not blocked is never stuck without a question open, a
  poller's snapshot is truthful and final when it says so, recipes stay in their directory, and the
  command line grants nothing, has no infinite run when its engine comes to a result, and otherwise
  stops only at its exit or at a blocked engine; Goose comes to a result exactly when its process does
  (\<open>goose_finishes\<close>), and there is no time limit on it.  For
  the users of the runtime: clients and routes agree, a click or a dashboard decision reaches the task
  or the gated call it was made for, a switch
  on the dashboard stops the gateway's calls, a task started from Slack is answered by exactly the
  messages that its polls determine, exactly the due jobs are submitted.  For the Engineering Agent: a sandbox is always destroyed, a task stays in its repository,
  the egress filter allows exactly the listed hosts and no internal address.  For the tools and the
  validator: verdicts are the stated policy and monotone in the amount, the template decides like the
  finance server, messages read back as written, tools write what their names say, and a passing
  checklist means no listed secret pattern and, however the database lives on after registrations from
  checked trees, no call of an irreversible tool without its recorded approval.  Where the code and its
  documentation differ the lemma that shows it stands beside the model.

  \<^bold>\<open>Parameters.\<close>  Code outside the repository is an argument with named hypotheses: the database server
  (\<open>pg\<close>), file reading, YAML decoding and URL parsing, the cron library (\<open>cron_law\<close>), Slack's signature
  check, the migration library (\<open>goose_documented\<close>), the MCP library (\<open>mcp_library\<close>), the Google and Slack API
  packages, the sandbox and GitHub drivers' transports, the clock, random ids, the text of
  numbers, and case folding beyond ASCII.

  \<^bold>\<open>Bounds and loops.\<close>  Loops of the code are structural recursions or functions with a measure; the
  scan of a process's output is a corecursion (\<open>goose_scan\<close>), since it may not end.  The
  one loop that waits for the world, Slack's polling, runs over the list of clock readings its rounds
  make and is \<open>None\<close> while it still runs; the theorem about it shows that a list reaching the deadline
  is long enough and what has been posted by then.

  \<^bold>\<open>Not modelled.\<close>  Listening on ports and process exit, the outcome of a post to Slack (the handler drops its error, so posts are attempts),
  setting up loggers and most log lines, the
  defaults and index columns of the SQL scripts, the bytes of JSON and YAML text, the Slack, Google, goose
  and MCP libraries' own work, the requests the GitHub App will make (the source leaves them open), static
  files of the dashboard, and constructors that only store their arguments.
\<close>

end
